theory Spec2Isabelle
  imports Complex_Main
begin

section \<open>Values, errors and the tensor data model\<close>

text \<open>
  The development embeds \<^verbatim>\<open>src/minitorch/tensor_functions.py\<close>. Python floats are
  idealised as \<^typ>\<open>real\<close> (rounding is not modelled), Python integers are \<^typ>\<open>int\<close>,
  and every \<^verbatim>\<open>raise\<close> or failed \<^verbatim>\<open>assert\<close> is a value \<open>Inl e\<close> of a sum type.
\<close>

datatype error =
    AssertionError | IndexError | IndexingError | ValueError | TypeError | AttributeError
  | ZeroDivisionError

datatype backend = SimpleBackend | TensorBackend nat

datatype function_cls =
    Neg_cls | Inv_cls | Add_cls | All_cls | Mul_cls | Sigmoid_cls | ReLU_cls | Log_cls
  | Exp_cls | Sum_cls | LT_cls | EQ_cls | IsClose_cls | Permute_cls | View_cls | Copy_cls
  | MatMul_cls

record tensor_data =
  storage :: "real list"
  shape :: "int list"
  strides :: "int list"

datatype saved_value = SavedTensor tensor | SavedNone | SavedInts "int list"
and fn_context = Context (no_grad: bool) (saved_values: "saved_value list")
and history = History (last_fn: "function_cls option") (ctx: "fn_context option") (inputs: "tensor list")
and tensor = Tensor (tensor_of: tensor_data) (history: "history option") (backend: backend) (grad: "tensor option")

text \<open>
  A \<^typ>\<open>tensor\<close> is a Tensor object: its \<^verbatim>\<open>_tensor\<close> (the strided buffer), its
  \<^verbatim>\<open>history\<close> (absent for a pure value), its backend and its gradient slot. A
  \<^typ>\<open>fn_context\<close> is the Context of one invocation, a \<^typ>\<open>history\<close> the graph edge
  \<^verbatim>\<open>History(last_fn, ctx, inputs)\<close>. What \<^verbatim>\<open>save_for_backward\<close> receives in this
  file is a tensor, \<^verbatim>\<open>None\<close>, or a list or tuple of integers.
\<close>

definition ebind :: "error + 'a \<Rightarrow> ('a \<Rightarrow> error + 'b) \<Rightarrow> error + 'b" where
  "ebind m f = (case m of Inl e \<Rightarrow> Inl e | Inr x \<Rightarrow> f x)"

subsection \<open>Strided buffers\<close>

text \<open>
  Modelled from the spec: \<^verbatim>\<open>operators.prod\<close> is not under src/; it is the product of
  the entries of a shape.
\<close>

definition operators_prod :: "int list \<Rightarrow> int" where
  "operators_prod ls = foldl (*) 1 ls"

text \<open>
  Modelled from the spec: \<^verbatim>\<open>tensor_data.py\<close> is not under src/. Section 6 names the
  storage introspection the core consumes (shape, contiguity check, permute, reshape
  without copy); the layout is the row-major strided one that the source's uses of
  \<^verbatim>\<open>_storage\<close>, \<^verbatim>\<open>permute\<close> and \<^verbatim>\<open>is_contiguous\<close> presuppose. The stride of an
  axis in a freshly built buffer is the product of the sizes of the axes after it.
\<close>

fun strides_from_shape :: "int list \<Rightarrow> int list" where
  "strides_from_shape [] = []"
| "strides_from_shape (s # ss) = operators_prod ss # strides_from_shape ss"

text \<open>
  Modelled from the spec: the constructor of \<^verbatim>\<open>TensorData\<close> (not under src/). Without
  strides it lays the buffer out contiguously. A buffer whose length is not the product
  of the shape, or strides of another length than the shape, are refused: no tensor of
  the model is ill-formed.
\<close>

definition TensorData :: "real list \<Rightarrow> int list \<Rightarrow> int list option \<Rightarrow> error + tensor_data" where
  "TensorData st sh so =
     (let sd = (case so of None \<Rightarrow> strides_from_shape sh | Some sd' \<Rightarrow> sd') in
      if length sd \<noteq> length sh then Inl IndexingError
      else if int (length st) \<noteq> operators_prod sh then Inl AssertionError
      else Inr \<lparr>storage = st, shape = sh, strides = sd\<rparr>)"

text \<open>
  Modelled from the spec: the attribute \<^verbatim>\<open>size\<close> of \<^verbatim>\<open>TensorData\<close> (not under
  src/), the number of elements.
\<close>

definition size_of :: "tensor_data \<Rightarrow> int" where
  "size_of td = operators_prod (shape td)"

text \<open>Modelled from the spec: the attribute \<^verbatim>\<open>dims\<close> of \<^verbatim>\<open>TensorData\<close> (not under src/),
  the number of axes.\<close>

definition dims_of :: "tensor_data \<Rightarrow> nat" where
  "dims_of td = length (strides td)"

text \<open>
  Modelled from the spec: \<^verbatim>\<open>TensorData.is_contiguous\<close> (not under src/), the
  "contiguity check" of section 6: the strides never grow from an axis to the next.
\<close>

definition is_contiguous :: "tensor_data \<Rightarrow> bool" where
  "is_contiguous td = sorted_wrt (\<lambda>s t. t \<le> s) (strides td)"

text \<open>
  Modelled from the spec: \<^verbatim>\<open>TensorData.permute\<close> (not under src/), the "view-level
  axis reorder" of section 6. The order must be a permutation of the axes; the result
  shares the buffer and lists shape and strides in the new order.
\<close>

definition permute :: "tensor_data \<Rightarrow> int list \<Rightarrow> error + tensor_data" where
  "permute td order =
     (if sort order \<noteq> map int [0..<length (shape td)] then Inl AssertionError
      else TensorData (storage td)
             (map (\<lambda>d. shape td ! nat d) order)
             (Some (map (\<lambda>d. strides td ! nat d) order)))"

subsection \<open>Indexing\<close>

text \<open>
  Modelled from the spec: \<^verbatim>\<open>index_to_position\<close> of \<^verbatim>\<open>tensor_data.py\<close> (not under
  src/). The position of a multi-index in the buffer is the sum of index times stride.
\<close>

definition index_to_position :: "int list \<Rightarrow> int list \<Rightarrow> int" where
  "index_to_position idx sd = sum_list (map2 (*) idx sd)"

text \<open>Modelled from the spec: \<^verbatim>\<open>to_index\<close> of \<^verbatim>\<open>tensor_data.py\<close> (not under src/), the
  multi-index of the \<open>n\<close>-th element in row-major order: at each axis, the quotient of \<open>n\<close>
  by the number of elements of one slice of that axis, modulo its size.\<close>

fun to_index :: "int \<Rightarrow> int list \<Rightarrow> int list" where
  "to_index ordinal [] = []"
| "to_index ordinal (s # ss) = (ordinal div operators_prod ss) mod s # to_index ordinal ss"

text \<open>
  Modelled from the spec: reading a buffer at a multi-index (\<^verbatim>\<open>tensor_data.py\<close>, not
  under src/). Every buffer that \<^const>\<open>TensorData\<close> lays out itself, and every
  \<^const>\<open>permute\<close> of one, keeps the positions of its valid indices inside the buffer.
\<close>

definition td_at :: "tensor_data \<Rightarrow> int list \<Rightarrow> real" where
  "td_at td idx = storage td ! nat (index_to_position idx (strides td))"

text \<open>
  Modelled from the spec: \<^verbatim>\<open>TensorData.index\<close> (not under src/), the checked access
  behind \<^verbatim>\<open>t[key]\<close> and \<^verbatim>\<open>t[key] = v\<close>: the index has one entry per axis, each
  within \<open>0 \<le> i < size of the axis\<close>.
\<close>

definition td_index :: "tensor_data \<Rightarrow> int list \<Rightarrow> error + int" where
  "td_index td idx =
     (if length idx \<noteq> length (shape td) then Inl IndexingError
      else if list_ex (\<lambda>(i, s). s \<le> i \<or> i < 0) (zip idx (shape td)) then Inl IndexingError
      else Inr (index_to_position idx (strides td)))"

text \<open>Modelled from the spec: \<^verbatim>\<open>TensorData.get\<close> (not under src/), the element at a checked
  index.\<close>

definition td_get :: "tensor_data \<Rightarrow> int list \<Rightarrow> error + real" where
  "td_get td idx = ebind (td_index td idx) (\<lambda>p. Inr (storage td ! nat p))"

text \<open>Modelled from the spec: \<^verbatim>\<open>TensorData.set\<close> (not under src/), the buffer with the element
  at a checked index overwritten.\<close>

definition td_set :: "tensor_data \<Rightarrow> int list \<Rightarrow> real \<Rightarrow> error + tensor_data" where
  "td_set td idx v = ebind (td_index td idx) (\<lambda>p. Inr (td\<lparr>storage := (storage td)[nat p := v]\<rparr>))"

text \<open>
  Modelled from the spec: the broadcasting rule of section 6 on reversed shapes
  (\<^verbatim>\<open>tensor_data.py\<close>, not under src/). Dimensions are aligned from the trailing edge; a
  dimension of size 1 broadcasts to the other operand's size; mismatched sizes that are
  not 1 are a shape error.
\<close>

fun broadcast_rev :: "int list \<Rightarrow> int list \<Rightarrow> error + int list" where
  "broadcast_rev [] bs = Inr bs"
| "broadcast_rev (a # as) [] = Inr (a # as)"
| "broadcast_rev (a # as) (b # bs) =
     (if a = b \<or> b = 1 then ebind (broadcast_rev as bs) (\<lambda>cs. Inr (a # cs))
      else if a = 1 then ebind (broadcast_rev as bs) (\<lambda>cs. Inr (b # cs))
      else Inl IndexingError)"

text \<open>Modelled from the spec: \<^verbatim>\<open>shape_broadcast\<close> of \<^verbatim>\<open>tensor_data.py\<close> (not under src/),
  the broadcasting rule of section 6 on shapes aligned from the trailing edge.\<close>

definition shape_broadcast :: "int list \<Rightarrow> int list \<Rightarrow> error + int list" where
  "shape_broadcast shape1 shape2 = ebind (broadcast_rev (rev shape1) (rev shape2)) (\<lambda>cs. Inr (rev cs))"

text \<open>Modelled from the spec: \<^verbatim>\<open>broadcast_index\<close> of \<^verbatim>\<open>tensor_data.py\<close> (not under src/):
  the index at which an operand is read: a broadcast axis at 0, the leading axes it
  does not have ignored.\<close>

definition broadcast_index :: "int list \<Rightarrow> int list \<Rightarrow> int list \<Rightarrow> int list" where
  "broadcast_index big_index big_shape sh =
     map (\<lambda>i. if 1 < sh ! i then big_index ! (i + (length big_shape - length sh)) else 0)
       [0..<length sh]"

subsection \<open>Tensor objects\<close>

text \<open>
  Modelled from the spec: \<^verbatim>\<open>Tensor.make\<close> of \<^verbatim>\<open>tensor.py\<close> (not under src/). A node
  made from a buffer is a leaf: no graph edge and an empty gradient slot (section 3).
\<close>

definition Tensor_make :: "real list \<Rightarrow> int list \<Rightarrow> backend \<Rightarrow> error + tensor" where
  "Tensor_make st sh be = ebind (TensorData st sh None) (\<lambda>td. Inr (Tensor td None be None))"

text \<open>Modelled from the spec: \<^verbatim>\<open>Tensor._new\<close> of \<^verbatim>\<open>tensor.py\<close> (not under src/): a leaf on
  the same backend around another buffer.\<close>

definition new_tensor :: "tensor \<Rightarrow> tensor_data \<Rightarrow> tensor" where
  "new_tensor t td = Tensor td None (backend t) None"

text \<open>Modelled from the spec: \<^verbatim>\<open>Tensor.detach\<close> of \<^verbatim>\<open>tensor.py\<close> (not under src/): the same
  value and backend with gradient tracking stripped (section 4.2).\<close>

definition detach :: "tensor \<Rightarrow> tensor" where
  "detach t = Tensor (tensor_of t) None (backend t) None"

text \<open>Modelled from the spec: \<^verbatim>\<open>Tensor.requires_grad\<close> of \<^verbatim>\<open>tensor.py\<close> (not under src/):
  a node requires gradients exactly when it carries a graph edge (section 3).\<close>

definition requires_grad :: "tensor \<Rightarrow> bool" where
  "requires_grad t = (history t \<noteq> None)"

text \<open>
  Modelled from the spec: \<^verbatim>\<open>Tensor.requires_grad_\<close> (not under src/) turns tracking
  on by giving the node an empty edge, and off by removing the edge.
\<close>

definition requires_grad_set :: "bool \<Rightarrow> tensor \<Rightarrow> tensor" where
  "requires_grad_set x t =
     Tensor (tensor_of t) (if x then Some (History None None []) else None) (backend t) (grad t)"

text \<open>
  Modelled from the spec: \<^verbatim>\<open>Context.save_for_backward\<close> of \<^verbatim>\<open>autodiff.py\<close> (not
  under src/). Section 4.2: the call stores the values into the Context regardless of
  the no-gradient flag.
\<close>

definition save_for_backward :: "fn_context \<Rightarrow> saved_value list \<Rightarrow> fn_context" where
  "save_for_backward c vs = Context (no_grad c) vs"

subsection \<open>The primitive backend\<close>

text \<open>
  Modelled from the spec: \<^verbatim>\<open>map\<close> of the primitive backend (\<^verbatim>\<open>tensor_ops.py\<close>, not
  under src/), section 6: an elementwise unary transform, same shape as the input. The
  result is a fresh contiguous tensor on the input's backend.
\<close>

definition tensor_map :: "(real \<Rightarrow> real) \<Rightarrow> tensor \<Rightarrow> error + tensor" where
  "tensor_map fn a =
     (let sh = shape (tensor_of a) in
      Tensor_make
        (map (\<lambda>i. fn (td_at (tensor_of a) (to_index (int i) sh))) [0..<nat (operators_prod sh)])
        sh (backend a))"

text \<open>
  Modelled from the spec: \<^verbatim>\<open>zip\<close> of the primitive backend (\<^verbatim>\<open>tensor_ops.py\<close>, not
  under src/), section 6: an elementwise binary transform with broadcasting. The result
  is a fresh contiguous tensor of the broadcast shape on the first operand's backend.
\<close>

definition tensor_zip :: "(real \<Rightarrow> real \<Rightarrow> real) \<Rightarrow> tensor \<Rightarrow> tensor \<Rightarrow> error + tensor" where
  "tensor_zip fn a b =
     ebind (shape_broadcast (shape (tensor_of a)) (shape (tensor_of b))) (\<lambda>c_shape.
       Tensor_make
         (map (\<lambda>i. let idx = to_index (int i) c_shape in
                 fn (td_at (tensor_of a) (broadcast_index idx c_shape (shape (tensor_of a))))
                    (td_at (tensor_of b) (broadcast_index idx c_shape (shape (tensor_of b)))))
            [0..<nat (operators_prod c_shape)])
         c_shape (backend a))"

text \<open>
  Modelled from the spec: \<^verbatim>\<open>reduce\<close> of the primitive backend (\<^verbatim>\<open>tensor_ops.py\<close>, not
  under src/), section 6: it collapses the given dimension to size 1 by folding with the
  binary function from a start value. A dimension the tensor does not have is an error.
\<close>

definition tensor_reduce :: "(real \<Rightarrow> real \<Rightarrow> real) \<Rightarrow> real \<Rightarrow> tensor \<Rightarrow> int \<Rightarrow> error + tensor" where
  "tensor_reduce fn start a dimn =
     (let sh = shape (tensor_of a) in
      if dimn < 0 \<or> int (length sh) \<le> dimn then Inl IndexError
      else
        (let out_shape = sh[nat dimn := 1] in
         Tensor_make
           (map (\<lambda>i. let idx = to_index (int i) out_shape in
                   foldl (\<lambda>acc j. fn acc (td_at (tensor_of a) (idx[nat dimn := int j]))) start
                     [0..<nat (sh ! nat dimn)])
              [0..<nat (operators_prod out_shape)])
           out_shape (backend a)))"

text \<open>
  Modelled from the spec: \<^verbatim>\<open>operators.lt\<close> (not under src/), less-than as 1.0 or 0.0.
  The scalar functions of \<^verbatim>\<open>operators.py\<close> stand behind the backend's named kernels.
\<close>

definition operators_lt :: "real \<Rightarrow> real \<Rightarrow> real" where
  "operators_lt x y = (if x < y then 1 else 0)"

text \<open>Modelled from the spec: \<^verbatim>\<open>operators.eq\<close> (not under src/), equality as 1.0 or 0.0.\<close>

definition operators_eq :: "real \<Rightarrow> real \<Rightarrow> real" where
  "operators_eq x y = (if x = y then 1 else 0)"

text \<open>Modelled from the spec: \<^verbatim>\<open>operators.is_close\<close> (not under src/), closeness within 1e-2 as 1.0 or 0.0.\<close>

definition operators_is_close :: "real \<Rightarrow> real \<Rightarrow> real" where
  "operators_is_close x y = (if \<bar>x - y\<bar> < 1 / 100 then 1 else 0)"

text \<open>Modelled from the spec: \<^verbatim>\<open>operators.relu\<close> (not under src/), the maximum of the input and 0.\<close>

definition operators_relu :: "real \<Rightarrow> real" where
  "operators_relu x = (if 0 < x then x else 0)"

text \<open>Modelled from the spec: \<^verbatim>\<open>operators.relu_back\<close> (not under src/), of the input and the upstream gradient, the gradient where the input is positive
  and 0 elsewhere.\<close>

definition operators_relu_back :: "real \<Rightarrow> real \<Rightarrow> real" where
  "operators_relu_back x d = (if 0 < x then d else 0)"

text \<open>Modelled from the spec: the backend kernel \<^verbatim>\<open>neg_map\<close> (not under src/), the map of negation.\<close>

definition neg_map :: "tensor \<Rightarrow> error + tensor" where
  "neg_map = tensor_map uminus"

text \<open>Modelled from the spec: the backend kernel \<^verbatim>\<open>relu_map\<close> (not under src/), the map of relu.\<close>

definition relu_map :: "tensor \<Rightarrow> error + tensor" where
  "relu_map = tensor_map operators_relu"

text \<open>Modelled from the spec: the backend kernel \<^verbatim>\<open>add_zip\<close> (not under src/), the zip of addition.\<close>

definition add_zip :: "tensor \<Rightarrow> tensor \<Rightarrow> error + tensor" where
  "add_zip = tensor_zip (+)"

text \<open>Modelled from the spec: the backend kernel \<^verbatim>\<open>mul_zip\<close> (not under src/), the zip of multiplication.\<close>

definition mul_zip :: "tensor \<Rightarrow> tensor \<Rightarrow> error + tensor" where
  "mul_zip = tensor_zip (*)"

text \<open>Modelled from the spec: the backend kernel \<^verbatim>\<open>lt_zip\<close> (not under src/), the zip of less-than.\<close>

definition lt_zip :: "tensor \<Rightarrow> tensor \<Rightarrow> error + tensor" where
  "lt_zip = tensor_zip operators_lt"

text \<open>Modelled from the spec: the backend kernel \<^verbatim>\<open>eq_zip\<close> (not under src/), the zip of equality.\<close>

definition eq_zip :: "tensor \<Rightarrow> tensor \<Rightarrow> error + tensor" where
  "eq_zip = tensor_zip operators_eq"

text \<open>Modelled from the spec: the backend kernel \<^verbatim>\<open>is_close_zip\<close> (not under src/), the zip of is-close.\<close>

definition is_close_zip :: "tensor \<Rightarrow> tensor \<Rightarrow> error + tensor" where
  "is_close_zip = tensor_zip operators_is_close"

text \<open>Modelled from the spec: the backend kernel \<^verbatim>\<open>relu_back_zip\<close> (not under src/), the zip of \<^verbatim>\<open>relu_back\<close> over the
  input and the upstream gradient.\<close>

definition relu_back_zip :: "tensor \<Rightarrow> tensor \<Rightarrow> error + tensor" where
  "relu_back_zip = tensor_zip operators_relu_back"

text \<open>Modelled from the spec: the backend kernel \<^verbatim>\<open>add_reduce\<close> (not under src/), the reduction by addition from 0.\<close>

definition add_reduce :: "tensor \<Rightarrow> int \<Rightarrow> error + tensor" where
  "add_reduce = tensor_reduce (+) 0"

text \<open>Modelled from the spec: the backend kernel \<^verbatim>\<open>mul_reduce\<close> (not under src/), the reduction by multiplication from 1.\<close>

definition mul_reduce :: "tensor \<Rightarrow> int \<Rightarrow> error + tensor" where
  "mul_reduce = tensor_reduce (*) 1"

section \<open>Constructors of tensor\_functions.py\<close>

text \<open>\<^verbatim>\<open>zeros(shape, backend)\<close>: a buffer of \<open>prod shape\<close> zeros (none when the product
  is negative, as Python's list repetition gives).\<close>

definition zeros :: "int list \<Rightarrow> backend \<Rightarrow> error + tensor" where
  "zeros sh be = Tensor_make (replicate (nat (operators_prod sh)) 0) sh be"

text \<open>
  \<^verbatim>\<open>rand(shape, backend, requires_grad)\<close> draws \<open>prod shape\<close> numbers from the global
  generator, one after the other. The generator is a parameter: \<open>random\<close> is
  \<^verbatim>\<open>random.random\<close> of Python's library, which returns a number and advances the
  generator. The result pairs the tensor with the generator the draws leave.
\<close>

fun random_list :: "('r \<Rightarrow> real \<times> 'r) \<Rightarrow> nat \<Rightarrow> 'r \<Rightarrow> real list \<times> 'r" where
  "random_list random 0 r = ([], r)"
| "random_list random (Suc n) r =
     (let (v, r1) = random r; (vs, r2) = random_list random n r1 in (v # vs, r2))"

definition rand ::
  "('r \<Rightarrow> real \<times> 'r) \<Rightarrow> int list \<Rightarrow> backend \<Rightarrow> bool \<Rightarrow> 'r \<Rightarrow> (error + tensor) \<times> 'r" where
  "rand random sh be rg r =
     (let (vals, r1) = random_list random (nat (operators_prod sh)) r in
      (ebind (Tensor_make vals sh be) (\<lambda>t. Inr (requires_grad_set rg t)), r1))"

text \<open>A Python value handed to \<^verbatim>\<open>tensor\<close>: a number, or a list or tuple of such values.\<close>

datatype py_value = Num real | PyList "py_value list"

text \<open>The local functions \<^verbatim>\<open>shape\<close> and \<^verbatim>\<open>flatten\<close> of \<^verbatim>\<open>tensor\<close>; \<^verbatim>\<open>ls[0]\<close> on
  an empty list raises.\<close>

fun shape_ls :: "py_value \<Rightarrow> error + int list" where
  "shape_ls (Num x) = Inr []"
| "shape_ls (PyList []) = Inl IndexError"
| "shape_ls (PyList (x # xs)) = ebind (shape_ls x) (\<lambda>sh. Inr (int (length (x # xs)) # sh))"

fun flatten :: "py_value \<Rightarrow> real list" where
  "flatten (Num x) = [x]"
| "flatten (PyList xs) = concat (map flatten xs)"

text \<open>\<^verbatim>\<open>_tensor(ls, shape, backend, requires_grad)\<close> and \<^verbatim>\<open>tensor(ls, backend, requires_grad)\<close>.\<close>

definition tensor_from :: "real list \<Rightarrow> int list \<Rightarrow> backend \<Rightarrow> bool \<Rightarrow> error + tensor" where
  "tensor_from ls sh be rg = ebind (Tensor_make ls sh be) (\<lambda>t. Inr (requires_grad_set rg t))"

definition tensor :: "py_value \<Rightarrow> backend \<Rightarrow> bool \<Rightarrow> error + tensor" where
  "tensor ls be rg =
     (let cur = flatten ls in
      ebind (shape_ls ls) (\<lambda>shape2. tensor_from cur shape2 be rg))"

section \<open>Function.apply\<close>

text \<open>
  The loop of \<^verbatim>\<open>apply\<close> over its arguments: it appends the detached copy of each
  argument to \<^verbatim>\<open>raw_vals\<close> and raises \<^verbatim>\<open>need_grad\<close> when the argument requires
  gradients.
\<close>

fun apply_loop :: "tensor list \<Rightarrow> tensor list \<times> bool \<Rightarrow> tensor list \<times> bool" where
  "apply_loop [] (raw_vals, need_grad) = (raw_vals, need_grad)"
| "apply_loop (v # vs) (raw_vals, need_grad) =
     apply_loop vs (raw_vals @ [detach v], (if requires_grad v then True else need_grad))"

text \<open>
  \<^verbatim>\<open>cls.apply(*vals)\<close>. The class is its tag \<open>cls\<close> and its \<^verbatim>\<open>forward\<close>, which
  receives the fresh Context and the raw values and returns the Context as it left it
  together with its result, or raises.
\<close>

definition Function_apply ::
  "(fn_context \<Rightarrow> tensor list \<Rightarrow> error + fn_context \<times> tensor) \<Rightarrow> function_cls \<Rightarrow> tensor list \<Rightarrow> error + tensor" where
  "Function_apply forward cls vals =
     (let (raw_vals, need_grad) = apply_loop vals ([], False);
          c0 = Context (\<not> need_grad) []
      in case forward c0 raw_vals of
           Inl e \<Rightarrow> Inl e
         | Inr (c1, c) \<Rightarrow>
             (let back = (if need_grad then Some (History (Some cls) (Some c1) vals) else None)
              in Inr (Tensor (tensor_of c) back (backend c) None)))"

section \<open>The operation classes\<close>

text \<open>Python's \<^verbatim>\<open>int(x)\<close> on a float truncates towards zero.\<close>

definition py_int :: "real \<Rightarrow> int" where
  "py_int x = (if 0 \<le> x then \<lfloor>x\<rfloor> else \<lceil>x\<rceil>)"

subsection \<open>Mul and the products of tensors\<close>

definition Mul_forward :: "fn_context \<Rightarrow> tensor \<Rightarrow> tensor \<Rightarrow> error + fn_context \<times> tensor" where
  "Mul_forward c a b =
     (let c1 = save_for_backward c [SavedTensor a, SavedTensor b] in
      ebind (mul_zip a b) (\<lambda>r. Inr (c1, r)))"

text \<open>A class's \<^verbatim>\<open>forward\<close> as \<^verbatim>\<open>apply\<close> calls it, on the list of raw values; a call
  with another number of arguments raises.\<close>

definition Mul_forward_vals :: "fn_context \<Rightarrow> tensor list \<Rightarrow> error + fn_context \<times> tensor" where
  "Mul_forward_vals c vals = (case vals of [a, b] \<Rightarrow> Mul_forward c a b | _ \<Rightarrow> Inl TypeError)"

text \<open>
  Modelled from the spec: \<^verbatim>\<open>Tensor.__mul__\<close> of \<^verbatim>\<open>tensor.py\<close> (not under src/). A
  product of two nodes is a primitive application (section 5): the Multiply variant
  dispatched through \<^verbatim>\<open>apply\<close>.
\<close>

definition tensor_mul :: "tensor \<Rightarrow> tensor \<Rightarrow> error + tensor" where
  "tensor_mul a b = Function_apply Mul_forward_vals Mul_cls [a, b]"

subsection \<open>ReLU\<close>

definition ReLU_forward :: "fn_context \<Rightarrow> tensor \<Rightarrow> error + fn_context \<times> tensor" where
  "ReLU_forward c a =
     (let c1 = save_for_backward c [SavedTensor a] in
      ebind (relu_map a) (\<lambda>r. Inr (c1, r)))"

text \<open>\<^verbatim>\<open>(a,) = ctx.saved_values\<close> raises unless exactly one value was saved; the product
  is \<^verbatim>\<open>grad_output * a.f.relu_back_zip(a, grad_output)\<close>.\<close>

definition ReLU_backward :: "fn_context \<Rightarrow> tensor \<Rightarrow> error + tensor" where
  "ReLU_backward c grad_output =
     (case saved_values c of
        [SavedTensor a] \<Rightarrow> ebind (relu_back_zip a grad_output) (\<lambda>r. tensor_mul grad_output r)
      | [_] \<Rightarrow> Inl AttributeError
      | _ \<Rightarrow> Inl ValueError)"

subsection \<open>Sum\<close>

text \<open>The loop \<^verbatim>\<open>for d in dims_to_sum: result = result.f.add_reduce(result, d)\<close>.\<close>

fun sum_dims :: "tensor \<Rightarrow> int list \<Rightarrow> error + tensor" where
  "sum_dims result [] = Inr result"
| "sum_dims result (d # ds) = ebind (add_reduce result d) (\<lambda>r. sum_dims r ds)"

text \<open>\<^verbatim>\<open>xs[0]\<close> on a buffer.\<close>

definition storage0 :: "tensor \<Rightarrow> error + real" where
  "storage0 t = (case storage (tensor_of t) of [] \<Rightarrow> Inl IndexError | x # _ \<Rightarrow> Inr x)"

definition dims_to_sum :: "tensor \<Rightarrow> error + int list" where
  "dims_to_sum d =
     (if 1 < size_of (tensor_of d) then Inr (map py_int (storage (tensor_of d)))
      else ebind (storage0 d) (\<lambda>x. Inr [py_int x]))"

definition Sum_forward :: "fn_context \<Rightarrow> tensor \<Rightarrow> tensor option \<Rightarrow> error + fn_context \<times> tensor" where
  "Sum_forward c a dimn =
     (let c1 = save_for_backward c
                 [SavedTensor a, (case dimn of None \<Rightarrow> SavedNone | Some d \<Rightarrow> SavedTensor d)] in
      case dimn of
        None \<Rightarrow> Inr (c1, a)
      | Some d \<Rightarrow>
          ebind (dims_to_sum d) (\<lambda>ds.
          ebind (sum_dims a ds) (\<lambda>result.
            if 1 < size_of (tensor_of result) then Inr (c1, result)
            else ebind (storage0 result) (\<lambda>x.
                 ebind (tensor (PyList [Num x]) SimpleBackend False) (\<lambda>t. Inr (c1, t))))))"

subsection \<open>The comparisons\<close>

definition LT_forward :: "fn_context \<Rightarrow> tensor \<Rightarrow> tensor \<Rightarrow> error + fn_context \<times> tensor" where
  "LT_forward c a b = ebind (lt_zip a b) (\<lambda>r. Inr (c, r))"

definition EQ_forward :: "fn_context \<Rightarrow> tensor \<Rightarrow> tensor \<Rightarrow> error + fn_context \<times> tensor" where
  "EQ_forward c a b = ebind (eq_zip a b) (\<lambda>r. Inr (c, r))"

definition IsClose_forward :: "fn_context \<Rightarrow> tensor \<Rightarrow> tensor \<Rightarrow> error + fn_context \<times> tensor" where
  "IsClose_forward c a b = ebind (is_close_zip a b) (\<lambda>r. Inr (c, r))"

text \<open>Each returns \<^verbatim>\<open>zeros(grad_output.shape), zeros(grad_output.shape)\<close>, on the
  default backend of \<^verbatim>\<open>zeros\<close>.\<close>

definition LT_backward :: "fn_context \<Rightarrow> tensor \<Rightarrow> error + tensor \<times> tensor" where
  "LT_backward c grad_output =
     ebind (zeros (shape (tensor_of grad_output)) SimpleBackend) (\<lambda>z1.
     ebind (zeros (shape (tensor_of grad_output)) SimpleBackend) (\<lambda>z2. Inr (z1, z2)))"

definition EQ_backward :: "fn_context \<Rightarrow> tensor \<Rightarrow> error + tensor \<times> tensor" where
  "EQ_backward c grad_output =
     ebind (zeros (shape (tensor_of grad_output)) SimpleBackend) (\<lambda>z1.
     ebind (zeros (shape (tensor_of grad_output)) SimpleBackend) (\<lambda>z2. Inr (z1, z2)))"

definition IsClose_backward :: "fn_context \<Rightarrow> tensor \<Rightarrow> error + tensor \<times> tensor" where
  "IsClose_backward c grad_output =
     ebind (zeros (shape (tensor_of grad_output)) SimpleBackend) (\<lambda>z1.
     ebind (zeros (shape (tensor_of grad_output)) SimpleBackend) (\<lambda>z2. Inr (z1, z2)))"

subsection \<open>Permute\<close>

text \<open>
  Modelled from the spec: \<^verbatim>\<open>Tensor.to_numpy\<close> of \<^verbatim>\<open>tensor.py\<close> (not under src/): the
  elements of a node in row-major order of its indices.
\<close>

definition to_numpy :: "tensor \<Rightarrow> real list" where
  "to_numpy t =
     map (\<lambda>i. td_at (tensor_of t) (to_index (int i) (shape (tensor_of t))))
       [0..<nat (size_of (tensor_of t))]"

text \<open>
  \<^verbatim>\<open>orders = order.to_numpy().astype(int).tolist()\<close> is a flat list of integers for a
  one-dimensional \<^verbatim>\<open>order\<close>. For an \<^verbatim>\<open>order\<close> without axes it is a number, and
  unpacking it in \<^verbatim>\<open>permute(*orders)\<close> raises a type error. For an \<^verbatim>\<open>order\<close> of
  more axes it is a list of lists, which the assertion of \<^verbatim>\<open>permute\<close> refuses, unless
  the first axis has size 0: then it is the empty list, as for an empty one-dimensional
  \<^verbatim>\<open>order\<close>. The order is saved before the buffer is permuted.
\<close>

definition Permute_forward :: "fn_context \<Rightarrow> tensor \<Rightarrow> tensor \<Rightarrow> error + fn_context \<times> tensor" where
  "Permute_forward c a order =
     (if dims_of (tensor_of order) = 0 then Inl TypeError
      else if dims_of (tensor_of order) \<noteq> 1 \<and> take 1 (shape (tensor_of order)) \<noteq> [0]
      then Inl AssertionError
      else
        (let orders = map py_int (to_numpy order);
             c1 = save_for_backward c [SavedInts orders] in
         ebind (permute (tensor_of a) orders) (\<lambda>td. Inr (c1, new_tensor a td))))"

text \<open>Python's \<^verbatim>\<open>xs[k] = v\<close> on a list: \<open>k\<close> counts from the end when negative and
  raises outside \<open>-len \<le> k < len\<close>.\<close>

definition py_list_set :: "int list \<Rightarrow> int \<Rightarrow> int \<Rightarrow> error + int list" where
  "py_list_set xs k v =
     (let n = int (length xs) in
      if - n \<le> k \<and> k < n then Inr (xs[nat (k mod n) := v]) else Inl IndexError)"

text \<open>The loop \<^verbatim>\<open>for i in range(len(orders)): reverse[int(orders[i])] = i\<close>, at step
  \<open>i\<close> with the entries of \<^verbatim>\<open>orders\<close> still to visit.\<close>

fun reverse_loop :: "int list \<Rightarrow> nat \<Rightarrow> int list \<Rightarrow> error + int list" where
  "reverse_loop [] i reverse = Inr reverse"
| "reverse_loop (k # ks) i reverse =
     ebind (py_list_set reverse k (int i)) (\<lambda>r. reverse_loop ks (Suc i) r)"

definition Permute_backward :: "fn_context \<Rightarrow> tensor \<Rightarrow> error + tensor \<times> real" where
  "Permute_backward c grad_output =
     (case saved_values c of
        [SavedInts orders] \<Rightarrow>
          ebind (reverse_loop orders 0 (replicate (length orders) 0)) (\<lambda>reverse.
          ebind (permute (tensor_of grad_output) reverse) (\<lambda>td.
            Inr (new_tensor grad_output td, 0)))
      | [_] \<Rightarrow> Inl TypeError
      | _ \<Rightarrow> Inl ValueError)"

subsection \<open>View\<close>

fun emap :: "('a \<Rightarrow> error + 'b) \<Rightarrow> 'a list \<Rightarrow> error + 'b list" where
  "emap f [] = Inr []"
| "emap f (x # xs) = ebind (f x) (\<lambda>y. ebind (emap f xs) (\<lambda>ys. Inr (y # ys)))"

text \<open>
  Modelled from the spec: \<^verbatim>\<open>Tensor.__getitem__\<close> of \<^verbatim>\<open>tensor.py\<close> (not under src/):
  the element at a multi-index, an integer key standing for the index of one entry.
\<close>

definition tensor_getitem :: "tensor \<Rightarrow> int list \<Rightarrow> error + real" where
  "tensor_getitem t key = td_get (tensor_of t) key"

text \<open>\<^verbatim>\<open>shape2 = [int(shape[i]) for i in range(shape.size)]\<close>.\<close>

definition shape2_of :: "tensor \<Rightarrow> error + int list" where
  "shape2_of sh =
     emap (\<lambda>i. ebind (tensor_getitem sh [int i]) (\<lambda>x. Inr (py_int x)))
       [0..<nat (size_of (tensor_of sh))]"

definition View_forward :: "fn_context \<Rightarrow> tensor \<Rightarrow> tensor \<Rightarrow> error + fn_context \<times> tensor" where
  "View_forward c a sh =
     (let c1 = save_for_backward c [SavedInts (shape (tensor_of a))] in
      if \<not> is_contiguous (tensor_of a) then Inl AssertionError
      else
        ebind (shape2_of sh) (\<lambda>shape2.
        ebind (Tensor_make (storage (tensor_of a)) shape2 (backend a)) (\<lambda>t. Inr (c1, t))))"

definition View_backward :: "fn_context \<Rightarrow> tensor \<Rightarrow> error + tensor \<times> real" where
  "View_backward c grad_output =
     (case saved_values c of
        [SavedInts original] \<Rightarrow>
          ebind (Tensor_make (storage (tensor_of grad_output)) original (backend grad_output))
            (\<lambda>t. Inr (t, 0))
      | [_] \<Rightarrow> Inl TypeError
      | _ \<Rightarrow> Inl ValueError)"

subsection \<open>MatMul\<close>

text \<open>
  The backend's \<^verbatim>\<open>matrix_multiply\<close> (\<^verbatim>\<open>tensor_ops.py\<close>, not under src/) is a parameter
  \<open>mm\<close> of the two functions: any kernel the backend provides, which may raise.
\<close>

definition MatMul_forward ::
  "(tensor \<Rightarrow> tensor \<Rightarrow> error + tensor) \<Rightarrow> fn_context \<Rightarrow> tensor \<Rightarrow> tensor \<Rightarrow> error + fn_context \<times> tensor" where
  "MatMul_forward mm c t1 t2 =
     (let c1 = save_for_backward c [SavedTensor t1, SavedTensor t2] in
      ebind (mm t1 t2) (\<lambda>r. Inr (c1, r)))"

text \<open>The local \<^verbatim>\<open>transpose\<close>: \<^verbatim>\<open>order[-2], order[-1] = order[-1], order[-2]\<close> on
  \<^verbatim>\<open>list(range(a.dims))\<close> raises for fewer than two axes.\<close>

definition transpose_order :: "nat \<Rightarrow> error + int list" where
  "transpose_order n =
     (if n < 2 then Inl IndexError
      else Inr ((map int [0..<n])[n - 2 := int (n - 1), n - 1 := int (n - 2)]))"

definition transpose_t :: "tensor \<Rightarrow> error + tensor" where
  "transpose_t a =
     ebind (transpose_order (dims_of (tensor_of a))) (\<lambda>order.
     ebind (permute (tensor_of a) order) (\<lambda>td. Inr (new_tensor a td)))"

definition MatMul_backward ::
  "(tensor \<Rightarrow> tensor \<Rightarrow> error + tensor) \<Rightarrow> fn_context \<Rightarrow> tensor \<Rightarrow> error + tensor \<times> tensor" where
  "MatMul_backward mm c grad_output =
     (case saved_values c of
        [SavedTensor t1, SavedTensor t2] \<Rightarrow>
          ebind (transpose_t t2) (\<lambda>t2T.
          ebind (mm grad_output t2T) (\<lambda>g1.
          ebind (transpose_t t1) (\<lambda>t1T.
          ebind (mm t1T grad_output) (\<lambda>g2. Inr (g1, g2)))))
      | [_, _] \<Rightarrow> Inl AttributeError
      | _ \<Rightarrow> Inl ValueError)"

section \<open>The gradient-check harness\<close>

subsection \<open>Add, Neg and the arithmetic of tensors\<close>

definition Add_forward :: "fn_context \<Rightarrow> tensor \<Rightarrow> tensor \<Rightarrow> error + fn_context \<times> tensor" where
  "Add_forward c t1 t2 = ebind (add_zip t1 t2) (\<lambda>r. Inr (c, r))"

definition Add_forward_vals :: "fn_context \<Rightarrow> tensor list \<Rightarrow> error + fn_context \<times> tensor" where
  "Add_forward_vals c vals = (case vals of [t1, t2] \<Rightarrow> Add_forward c t1 t2 | _ \<Rightarrow> Inl TypeError)"

text \<open>\<^verbatim>\<open>Neg.forward\<close>; its assertion that the tensor has a backend holds of every tensor of
  the model.\<close>

definition Neg_forward :: "fn_context \<Rightarrow> tensor \<Rightarrow> error + fn_context \<times> tensor" where
  "Neg_forward c t1 = ebind (neg_map t1) (\<lambda>r. Inr (c, r))"

definition Neg_forward_vals :: "fn_context \<Rightarrow> tensor list \<Rightarrow> error + fn_context \<times> tensor" where
  "Neg_forward_vals c vals = (case vals of [t1] \<Rightarrow> Neg_forward c t1 | _ \<Rightarrow> Inl TypeError)"

text \<open>
  Modelled from the spec: \<^verbatim>\<open>Tensor.__add__\<close> of \<^verbatim>\<open>tensor.py\<close> (not under src/), a
  primitive application (section 5): the Add variant dispatched through \<^verbatim>\<open>apply\<close>.
\<close>

definition tensor_add :: "tensor \<Rightarrow> tensor \<Rightarrow> error + tensor" where
  "tensor_add a b = Function_apply Add_forward_vals Add_cls [a, b]"

text \<open>Modelled from the spec: \<^verbatim>\<open>Tensor.__neg__\<close> of \<^verbatim>\<open>tensor.py\<close> (not under src/), the
  Negate variant dispatched through \<^verbatim>\<open>apply\<close>.\<close>

definition tensor_neg :: "tensor \<Rightarrow> error + tensor" where
  "tensor_neg a = Function_apply Neg_forward_vals Neg_cls [a]"

text \<open>Modelled from the spec: \<^verbatim>\<open>Tensor.__sub__\<close> of \<^verbatim>\<open>tensor.py\<close> (not under src/), the sum
  with the negated operand.\<close>

definition tensor_sub :: "tensor \<Rightarrow> tensor \<Rightarrow> error + tensor" where
  "tensor_sub a b = ebind (tensor_neg b) (\<lambda>nb. tensor_add a nb)"

text \<open>
  Modelled from the spec: the forward behind \<^verbatim>\<open>Tensor.sum()\<close> with no dimension
  (\<^verbatim>\<open>tensor.py\<close>, not under src/). Sections 4.4 and 8: the sum of the elements of the
  node, a single scalar.
\<close>

definition Sum_all_forward_vals :: "fn_context \<Rightarrow> tensor list \<Rightarrow> error + fn_context \<times> tensor" where
  "Sum_all_forward_vals c vals =
     (case vals of
        [a] \<Rightarrow> ebind (Tensor_make [sum_list (to_numpy a)] [1] (backend a)) (\<lambda>r. Inr (c, r))
      | _ \<Rightarrow> Inl TypeError)"

text \<open>Modelled from the spec: \<^verbatim>\<open>Tensor.sum()\<close> of \<^verbatim>\<open>tensor.py\<close> (not under src/), the
  Sum-reduce of the whole node dispatched through \<^verbatim>\<open>apply\<close>.\<close>

definition tensor_sum :: "tensor \<Rightarrow> error + tensor" where
  "tensor_sum a = Function_apply Sum_all_forward_vals Sum_cls [a]"

text \<open>
  Modelled from the spec: \<^verbatim>\<open>Tensor.__setitem__\<close> of \<^verbatim>\<open>tensor.py\<close> (not under src/):
  the element at a valid multi-index of the node's buffer is overwritten in place.
\<close>

definition tensor_setitem :: "tensor \<Rightarrow> int list \<Rightarrow> real \<Rightarrow> error + tensor" where
  "tensor_setitem t key v =
     ebind (td_set (tensor_of t) key v) (\<lambda>td. Inr (Tensor td (history t) (backend t) (grad t)))"

text \<open>
  Modelled from the spec: \<^verbatim>\<open>Tensor.zero_grad_\<close> of \<^verbatim>\<open>tensor.py\<close> (not under src/), the
  reset of section 3 that clears the accumulated-gradient slot.
\<close>

definition zero_grad_reset :: "tensor \<Rightarrow> tensor" where
  "zero_grad_reset t = Tensor (tensor_of t) (history t) (backend t) None"

subsection \<open>grad\_central\_difference\<close>

text \<open>Python's \<^verbatim>\<open>xs[k]\<close> on a list or tuple.\<close>

definition py_nth :: "'a list \<Rightarrow> int \<Rightarrow> error + 'a" where
  "py_nth xs k =
     (let n = int (length xs) in
      if - n \<le> k \<and> k < n then Inr (xs ! nat (k mod n)) else Inl IndexError)"

text \<open>The comprehension \<^verbatim>\<open>[x if j != arg else op(x, up) for j, x in enumerate(vals)]\<close>.\<close>

definition perturb :: "(tensor \<Rightarrow> tensor \<Rightarrow> error + tensor) \<Rightarrow> tensor list \<Rightarrow> int \<Rightarrow> tensor \<Rightarrow> error + tensor list" where
  "perturb op vals arg up =
     emap (\<lambda>(j, y). if int j \<noteq> arg then Inr y else op y up) (enumerate 0 vals)"

text \<open>
  \<^verbatim>\<open>grad_central_difference(f, *vals, arg, epsilon, ind)\<close>. The function under test is
  any \<open>f\<close> from argument lists to a tensor, or to an error. A float division by zero
  raises.
\<close>

definition grad_central_difference ::
  "(tensor list \<Rightarrow> error + tensor) \<Rightarrow> tensor list \<Rightarrow> int \<Rightarrow> real \<Rightarrow> int list \<Rightarrow> error + real" where
  "grad_central_difference f vals arg epsilon ind =
     ebind (py_nth vals arg) (\<lambda>x.
     ebind (zeros (shape (tensor_of x)) SimpleBackend) (\<lambda>up0.
     ebind (tensor_setitem up0 ind epsilon) (\<lambda>up.
     ebind (perturb tensor_add vals arg up) (\<lambda>vals1.
     ebind (perturb tensor_sub vals arg up) (\<lambda>vals2.
     ebind (f vals1) (\<lambda>out1.
     ebind (tensor_sum out1) (\<lambda>s1.
     ebind (f vals2) (\<lambda>out2.
     ebind (tensor_sum out2) (\<lambda>s2.
     ebind (tensor_sub s1 s2) (\<lambda>delta.
     ebind (tensor_getitem delta [0]) (\<lambda>d0.
       if 2 * epsilon = 0 then Inl ZeroDivisionError else Inr (d0 / (2 * epsilon)))))))))))))"

subsection \<open>grad\_check\<close>

text \<open>
  \<^verbatim>\<open>np.testing.assert_allclose(actual, desired, rtol, atol)\<close> of NumPy passes when
  \<open>|actual - desired| \<le> atol + rtol * |desired|\<close> and raises otherwise.
\<close>

definition assert_allclose :: "real \<Rightarrow> real \<Rightarrow> real \<Rightarrow> real \<Rightarrow> error + unit" where
  "assert_allclose actual desired rtol atol =
     (if \<bar>actual - desired\<bar> \<le> atol + rtol * \<bar>desired\<bar> then Inr () else Inl AssertionError)"

text \<open>
  The state \<^verbatim>\<open>grad_check\<close> acts on: the argument objects, which it mutates in place,
  and the global random generator. The generator is a parameter: \<open>seed\<close> is
  \<^verbatim>\<open>random.seed\<close>, and \<open>sample\<close> is \<^verbatim>\<open>TensorData.sample\<close> (\<^verbatim>\<open>tensor_data.py\<close>, not under
  src/), which draws an index of a buffer and advances the generator.
\<close>

record 'r harness_state =
  args :: "tensor list"
  rng :: 'r

text \<open>The first loop and \<^verbatim>\<open>random.seed(10)\<close>.\<close>

definition grad_check_prepare :: "(int \<Rightarrow> 'r) \<Rightarrow> 'r harness_state \<Rightarrow> 'r harness_state" where
  "grad_check_prepare seed s =
     \<lparr>args = map (\<lambda>x. zero_grad_reset (requires_grad_set True x)) (args s), rng = seed 10\<rparr>"

text \<open>
  The second loop, at argument \<open>i\<close> with the arguments \<open>xs\<close> still to check: the index is
  sampled, the central difference taken with the default \<open>epsilon = 1e-6\<close>, the gradient
  slot asserted to be filled, and its entry at the index compared with tolerances
  \<open>1e-2\<close>.
\<close>

fun check_loop ::
  "(tensor list \<Rightarrow> error + tensor) \<Rightarrow> (tensor_data \<Rightarrow> 'r \<Rightarrow> int list \<times> 'r) \<Rightarrow> tensor list \<Rightarrow>
   nat \<Rightarrow> tensor list \<Rightarrow> 'r \<Rightarrow> (error + unit) \<times> 'r" where
  "check_loop f sample vals i [] r = (Inr (), r)"
| "check_loop f sample vals i (x # xs) r =
     (let (ind, r1) = sample (tensor_of x) r in
      case grad_central_difference f vals (int i) (1 / 10 ^ 6) ind of
        Inl e \<Rightarrow> (Inl e, r1)
      | Inr check \<Rightarrow>
          (case grad x of
             None \<Rightarrow> (Inl AssertionError, r1)
           | Some g \<Rightarrow>
               (case tensor_getitem g ind of
                  Inl e \<Rightarrow> (Inl e, r1)
                | Inr actual \<Rightarrow>
                    (case assert_allclose actual check (1 / 100) (1 / 100) of
                       Inl e \<Rightarrow> (Inl e, r1)
                     | Inr u \<Rightarrow> check_loop f sample vals (Suc i) xs r1))))"

text \<open>
  \<^verbatim>\<open>grad_check(f, *vals)\<close>. The backward engine (\<^verbatim>\<open>Tensor.backward\<close> and
  \<^verbatim>\<open>autodiff.py\<close>, not under src/) is the parameter \<open>backward\<close>: run on
  \<^verbatim>\<open>out.sum()\<close>, it writes nothing but gradient slots (section 5), so it is given as the
  slot it leaves in the argument at each position. The function under test is taken
  here to write nothing; callables with other effects are the subject of the next
  subsection. The result pairs what the call returns or raises with the state it leaves
  behind.
\<close>

definition deposit :: "(nat \<Rightarrow> tensor option) \<Rightarrow> tensor list \<Rightarrow> tensor list" where
  "deposit slots vals =
     map (\<lambda>(i, x). Tensor (tensor_of x) (history x) (backend x) (slots i)) (enumerate 0 vals)"

definition grad_check ::
  "(tensor list \<Rightarrow> error + tensor) \<Rightarrow> (tensor \<Rightarrow> tensor list \<Rightarrow> error + (nat \<Rightarrow> tensor option)) \<Rightarrow>
   (int \<Rightarrow> 'r) \<Rightarrow> (tensor_data \<Rightarrow> 'r \<Rightarrow> int list \<times> 'r) \<Rightarrow>
   'r harness_state \<Rightarrow> (error + unit) \<times> 'r harness_state" where
  "grad_check f backward seed sample s =
     (let s1 = grad_check_prepare seed s in
      case f (args s1) of
        Inl e \<Rightarrow> (Inl e, s1)
      | Inr out \<Rightarrow>
          (case tensor_sum out of
             Inl e \<Rightarrow> (Inl e, s1)
           | Inr loss \<Rightarrow>
               (case backward loss (args s1) of
                  Inl e \<Rightarrow> (Inl e, s1)
                | Inr slots \<Rightarrow>
                    (let vals = deposit slots (args s1);
                         (res, r) = check_loop f sample vals 0 vals (rng s1)
                     in (res, \<lparr>args = vals, rng = r\<rparr>)))))"

subsection \<open>grad\_check over the objects it mutates\<close>

text \<open>
  The function under test and the backward engine are Python callables: besides
  returning or raising, they may write the tensor objects they reach and draw from the
  global generator, as \<^verbatim>\<open>rand\<close> of this file does. The harness above takes them as
  functions of tensor values, which is the case of callables that write nothing but
  gradient slots. To state what \<^verbatim>\<open>grad_check\<close> does to its arguments whatever the
  callables do, the harness is given a second time over an explicit store: the tensor
  objects by address, the global generator, and whatever else the callables read and
  write (their closures, other globals).
\<close>

record ('r, 's) world =
  objects :: "nat \<Rightarrow> tensor"
  generator :: 'r
  rest :: 's

text \<open>What a callable is handed: a reference to an object of the store, or a tensor
  built for the call (\<^verbatim>\<open>x + up\<close>), which nothing else refers to.\<close>

datatype operand = Obj nat | Temp tensor

definition deref :: "('r, 's) world \<Rightarrow> operand \<Rightarrow> tensor" where
  "deref w x = (case x of Obj a \<Rightarrow> objects w a | Temp t \<Rightarrow> t)"

text \<open>A callable maps its operands and the state it is called in to what it returns or
  raises and the state it leaves.\<close>

type_synonym ('r, 's) callable =
  "operand list \<Rightarrow> ('r, 's) world \<Rightarrow> (error + tensor) \<times> ('r, 's) world"

text \<open>The comprehension \<^verbatim>\<open>[x if j != arg else op(x, up) for j, x in enumerate(vals)]\<close>
  over references: the other arguments are passed on as the objects they are.\<close>

definition perturb_in ::
  "(tensor \<Rightarrow> tensor \<Rightarrow> error + tensor) \<Rightarrow> ('r, 's) world \<Rightarrow> nat list \<Rightarrow> int \<Rightarrow> tensor \<Rightarrow>
   error + operand list" where
  "perturb_in op w vals arg up =
     emap (\<lambda>(j, a). if int j \<noteq> arg then Inr (Obj a)
                     else ebind (op (objects w a) up) (\<lambda>t. Inr (Temp t)))
       (enumerate 0 vals)"

text \<open>
  \<^verbatim>\<open>grad_central_difference(f, *vals, arg, epsilon, ind)\<close> over the store. Both argument
  lists are built before \<open>f\<close> is first called; the second call of \<open>f\<close> acts on the state
  the first one left, and a raise leaves the state reached so far.
\<close>

definition grad_central_difference_in ::
  "('r, 's) callable \<Rightarrow> nat list \<Rightarrow> int \<Rightarrow> real \<Rightarrow> int list \<Rightarrow> ('r, 's) world \<Rightarrow>
   (error + real) \<times> ('r, 's) world" where
  "grad_central_difference_in f vals arg epsilon ind w =
     (case ebind (py_nth vals arg) (\<lambda>a.
           ebind (zeros (shape (tensor_of (objects w a))) SimpleBackend) (\<lambda>up0.
           ebind (tensor_setitem up0 ind epsilon) (\<lambda>up.
           ebind (perturb_in tensor_add w vals arg up) (\<lambda>vals1.
           ebind (perturb_in tensor_sub w vals arg up) (\<lambda>vals2. Inr (vals1, vals2)))))) of
        Inl e \<Rightarrow> (Inl e, w)
      | Inr (vals1, vals2) \<Rightarrow>
          (case f vals1 w of
             (Inl e, w1) \<Rightarrow> (Inl e, w1)
           | (Inr out1, w1) \<Rightarrow>
               (case tensor_sum out1 of
                  Inl e \<Rightarrow> (Inl e, w1)
                | Inr s1 \<Rightarrow>
                    (case f vals2 w1 of
                       (Inl e, w2) \<Rightarrow> (Inl e, w2)
                     | (Inr out2, w2) \<Rightarrow>
                         (ebind (tensor_sum out2) (\<lambda>s2.
                          ebind (tensor_sub s1 s2) (\<lambda>delta.
                          ebind (tensor_getitem delta [0]) (\<lambda>d0.
                            if 2 * epsilon = 0 then Inl ZeroDivisionError
                            else Inr (d0 / (2 * epsilon))))), w2)))))"

text \<open>
  The first loop of \<^verbatim>\<open>grad_check\<close>, \<^verbatim>\<open>x.requires_grad_(True); x.zero_grad_()\<close> on each
  argument in turn and in place (an object passed twice is prepared twice), followed by
  \<^verbatim>\<open>random.seed(10)\<close>.
\<close>

fun first_loop :: "nat list \<Rightarrow> (nat \<Rightarrow> tensor) \<Rightarrow> nat \<Rightarrow> tensor" where
  "first_loop [] h = h"
| "first_loop (a # as) h = first_loop as (h(a := zero_grad_reset (requires_grad_set True (h a))))"

definition prepare_in :: "(int \<Rightarrow> 'r) \<Rightarrow> nat list \<Rightarrow> ('r, 's) world \<Rightarrow> ('r, 's) world" where
  "prepare_in seed vals w = w\<lparr>objects := first_loop vals (objects w), generator := seed 10\<rparr>"

text \<open>
  The second loop over the store, at argument \<open>i\<close> with the arguments \<open>a # as\<close> still to
  check. The index is sampled from the object as it is then; the gradient slot is read
  after the central difference has been taken, from the state the calls of \<open>f\<close> left.
\<close>

fun check_loop_in ::
  "('r, 's) callable \<Rightarrow> (tensor_data \<Rightarrow> 'r \<Rightarrow> int list \<times> 'r) \<Rightarrow> nat list \<Rightarrow>
   nat \<Rightarrow> nat list \<Rightarrow> ('r, 's) world \<Rightarrow> (error + unit) \<times> ('r, 's) world" where
  "check_loop_in f sample vals i [] w = (Inr (), w)"
| "check_loop_in f sample vals i (a # as) w =
     (let (ind, r1) = sample (tensor_of (objects w a)) (generator w) in
      case grad_central_difference_in f vals (int i) (1 / 10 ^ 6) ind (w\<lparr>generator := r1\<rparr>) of
        (Inl e, w2) \<Rightarrow> (Inl e, w2)
      | (Inr check, w2) \<Rightarrow>
          (case grad (objects w2 a) of
             None \<Rightarrow> (Inl AssertionError, w2)
           | Some g \<Rightarrow>
               (case tensor_getitem g ind of
                  Inl e \<Rightarrow> (Inl e, w2)
                | Inr actual \<Rightarrow>
                    (case assert_allclose actual check (1 / 100) (1 / 100) of
                       Inl e \<Rightarrow> (Inl e, w2)
                     | Inr u \<Rightarrow> check_loop_in f sample vals (Suc i) as w2))))"

text \<open>
  \<^verbatim>\<open>grad_check(f, *vals)\<close> over the store, the arguments given by their addresses. The
  backward engine (\<^verbatim>\<open>Tensor.backward\<close> and \<^verbatim>\<open>autodiff.py\<close>, not under src/) is the
  parameter \<open>backward\<close>, run on \<^verbatim>\<open>out.sum()\<close>: any transformer of the state that returns
  or raises. The result pairs what the call returns or raises with the state it leaves
  behind.
\<close>

definition grad_check_in ::
  "('r, 's) callable \<Rightarrow> (tensor \<Rightarrow> ('r, 's) world \<Rightarrow> (error + unit) \<times> ('r, 's) world) \<Rightarrow>
   (int \<Rightarrow> 'r) \<Rightarrow> (tensor_data \<Rightarrow> 'r \<Rightarrow> int list \<times> 'r) \<Rightarrow>
   nat list \<Rightarrow> ('r, 's) world \<Rightarrow> (error + unit) \<times> ('r, 's) world" where
  "grad_check_in f backward seed sample vals w =
     (case f (map Obj vals) (prepare_in seed vals w) of
        (Inl e, w1) \<Rightarrow> (Inl e, w1)
      | (Inr out, w1) \<Rightarrow>
          (case tensor_sum out of
             Inl e \<Rightarrow> (Inl e, w1)
           | Inr loss \<Rightarrow>
               (case backward loss w1 of
                  (Inl e, w2) \<Rightarrow> (Inl e, w2)
                | (Inr u, w2) \<Rightarrow> check_loop_in f sample vals 0 vals w2)))"

subsection \<open>The comparison in the words of the spec\<close>

text \<open>The state of the generator before the index of argument \<open>i\<close> is sampled, when the
  arguments \<open>xs\<close> are sampled in order from the state \<open>r\<close>.\<close>

fun rng_at :: "(tensor_data \<Rightarrow> 'r \<Rightarrow> int list \<times> 'r) \<Rightarrow> tensor list \<Rightarrow> 'r \<Rightarrow> nat \<Rightarrow> 'r" where
  "rng_at sample xs r 0 = r"
| "rng_at sample [] r (Suc i) = r"
| "rng_at sample (x # xs) r (Suc i) = rng_at sample xs (snd (sample (tensor_of x) r)) i"

text \<open>
  Section 4.4: the central-difference estimate for argument \<open>i\<close> at index \<open>ind\<close>, with
  \<open>epsilon = 1e-6\<close>, is compared against the recorded gradient of the argument at the same
  index, within absolute and relative tolerance \<open>1e-2\<close>.
\<close>

definition within_tolerance ::
  "(tensor list \<Rightarrow> error + tensor) \<Rightarrow> tensor list \<Rightarrow> nat \<Rightarrow> tensor \<Rightarrow> int list \<Rightarrow> bool" where
  "within_tolerance f vals i x ind =
     (case grad_central_difference f vals (int i) (1 / 10 ^ 6) ind of
        Inl e \<Rightarrow> False
      | Inr estimate \<Rightarrow>
          (case grad x of
             None \<Rightarrow> False
           | Some g \<Rightarrow>
               (case tensor_getitem g ind of
                  Inl e \<Rightarrow> False
                | Inr recorded \<Rightarrow>
                    \<bar>recorded - estimate\<bar> \<le> 1 / 100 + 1 / 100 * \<bar>estimate\<bar>)))"

text \<open>The valid indices of a buffer of a given shape, as \<^const>\<open>td_index\<close> checks them:
  one entry per axis, each at least 0 and below the size of its axis.\<close>

definition valid_index :: "int list \<Rightarrow> int list \<Rightarrow> bool" where
  "valid_index idx sh \<longleftrightarrow>
     length idx = length sh \<and> \<not> list_ex (\<lambda>(i, s). s \<le> i \<or> i < 0) (zip idx sh)"

section \<open>Notions the statements use\<close>

text \<open>
  The buffers \<^const>\<open>TensorData\<close> accepts: as many elements as the product of the shape,
  and one stride per axis. Every tensor the program builds is made through that
  constructor.
\<close>

definition wf_td :: "tensor_data \<Rightarrow> bool" where
  "wf_td td \<longleftrightarrow>
     int (length (storage td)) = operators_prod (shape td) \<and> length (strides td) = length (shape td)"

text \<open>The orders \<^const>\<open>permute\<close> accepts for a buffer of \<open>n\<close> axes: the permutations of
  \<open>0, \<dots>, n - 1\<close>.\<close>

definition valid_order :: "int list \<Rightarrow> nat \<Rightarrow> bool" where
  "valid_order p n \<longleftrightarrow> sort p = map int [0..<n]"

text \<open>
  Modelled from the spec: \<^verbatim>\<open>matrix_multiply\<close> of the primitive backend
  (\<^verbatim>\<open>tensor_ops.py\<close>, not under src/), section 6: the batched product over the trailing
  two dimensions, the leading (batch) dimensions broadcast as in \<^verbatim>\<open>zip\<close>. It is one
  instance of the kernel that \<^const>\<open>MatMul_forward\<close> and \<^const>\<open>MatMul_backward\<close> take
  as a parameter.
\<close>

definition matrix_multiply :: "tensor \<Rightarrow> tensor \<Rightarrow> error + tensor" where
  "matrix_multiply a b =
     (let sa = shape (tensor_of a); sb = shape (tensor_of b);
          ba = take (length sa - 2) sa; bb = take (length sb - 2) sb in
      if length sa < 2 \<or> length sb < 2 then Inl IndexError
      else if sa ! (length sa - 1) \<noteq> sb ! (length sb - 2) then Inl AssertionError
      else
        ebind (shape_broadcast ba bb) (\<lambda>batch.
          (let out_shape = batch @ [sa ! (length sa - 2), sb ! (length sb - 1)] in
           Tensor_make
             (map (\<lambda>n. let idx = to_index (int n) out_shape;
                          bi = take (length batch) idx;
                          i = idx ! length batch;
                          j = idx ! (length batch + 1) in
                      sum_list
                        (map (\<lambda>k. td_at (tensor_of a) (broadcast_index bi batch ba @ [i, int k])
                                  * td_at (tensor_of b) (broadcast_index bi batch bb @ [int k, j]))
                           [0..<nat (sa ! (length sa - 1))]))
                [0..<nat (operators_prod out_shape)])
             out_shape (backend a))))"

text \<open>Transposition in the words of the spec: the last two axes are swapped.\<close>

definition swap_last2 :: "'a list \<Rightarrow> 'a list" where
  "swap_last2 xs = take (length xs - 2) xs @ [xs ! (length xs - 1), xs ! (length xs - 2)]"

text \<open>
  The callables of the harness over values, as callables over the store: a function
  under test that reads its operands and writes nothing, and an engine that writes
  nothing but the gradient slots of the arguments, held at the addresses
  \<open>0, \<dots>, n - 1\<close>.
\<close>

definition pure_callable :: "(tensor list \<Rightarrow> error + tensor) \<Rightarrow> ('r, 's) callable" where
  "pure_callable g ops w = (g (map (deref w) ops), w)"

definition slot_engine ::
  "(tensor \<Rightarrow> tensor list \<Rightarrow> error + (nat \<Rightarrow> tensor option)) \<Rightarrow> nat \<Rightarrow>
   tensor \<Rightarrow> ('r, 's) world \<Rightarrow> (error + unit) \<times> ('r, 's) world" where
  "slot_engine backward n loss w =
     (case backward loss (map (objects w) [0..<n]) of
        Inl e \<Rightarrow> (Inl e, w)
      | Inr slots \<Rightarrow>
          (Inr (),
           w\<lparr>objects := \<lambda>a. if a < n
                  then Tensor (tensor_of (objects w a)) (history (objects w a))
                         (backend (objects w a)) (slots a)
                  else objects w a\<rparr>))"

section \<open>Example inputs\<close>

text \<open>Concrete tensors at which the theorems below are instantiated.\<close>

definition ex_vec12 :: tensor where
  "ex_vec12 = Tensor \<lparr>storage = [1, 2], shape = [2], strides = [1]\<rparr> None SimpleBackend None"

definition ex_leaf3 :: tensor where
  "ex_leaf3 =
     Tensor \<lparr>storage = [3], shape = [1], strides = [1]\<rparr> (Some (History None None []))
       SimpleBackend None"

definition ex_const5 :: tensor where
  "ex_const5 = Tensor \<lparr>storage = [5], shape = [1], strides = [1]\<rparr> None SimpleBackend None"

definition ex_one2 :: tensor where
  "ex_one2 = Tensor \<lparr>storage = [2], shape = [1], strides = [1]\<rparr> None SimpleBackend None"

definition ex_ones2 :: tensor where
  "ex_ones2 = Tensor \<lparr>storage = [1, 1], shape = [2], strides = [1]\<rparr> None SimpleBackend None"

definition ex_zeros2 :: tensor where
  "ex_zeros2 = Tensor \<lparr>storage = [0, 0], shape = [2], strides = [1]\<rparr> None SimpleBackend None"

definition ex_mat :: tensor where
  "ex_mat =
     Tensor \<lparr>storage = [1, 2, 3, 4], shape = [2, 2], strides = [2, 1]\<rparr> None (TensorBackend 1) None"

definition ex_dims01 :: tensor where
  "ex_dims01 = Tensor \<lparr>storage = [0, 1], shape = [2], strides = [1]\<rparr> None SimpleBackend None"

definition ex_dims0 :: tensor where
  "ex_dims0 = Tensor \<lparr>storage = [0], shape = [1], strides = [1]\<rparr> None SimpleBackend None"

definition ex_in :: tensor where
  "ex_in = Tensor \<lparr>storage = [1, -1], shape = [2], strides = [1]\<rparr> None SimpleBackend None"

definition ex_grad35 :: tensor where
  "ex_grad35 = Tensor \<lparr>storage = [3, 5], shape = [2], strides = [1]\<rparr> None SimpleBackend None"

definition ex_matT :: tensor where
  "ex_matT =
     Tensor \<lparr>storage = [1, 2, 3, 4], shape = [2, 2], strides = [1, 2]\<rparr> None (TensorBackend 1) None"

definition ex_shape4 :: tensor where
  "ex_shape4 = Tensor \<lparr>storage = [4], shape = [1], strides = [1]\<rparr> None SimpleBackend None"

definition ex_t123 :: tensor where
  "ex_t123 =
     Tensor \<lparr>storage = [1, 2, 3, 4, 5, 6], shape = [1, 2, 3], strides = [6, 3, 1]\<rparr>
       None SimpleBackend None"

definition ex_t312 :: tensor where
  "ex_t312 =
     Tensor \<lparr>storage = [1, 2, 3, 4, 5, 6], shape = [3, 1, 2], strides = [1, 6, 3]\<rparr>
       None SimpleBackend None"

definition ex_order201 :: tensor where
  "ex_order201 = Tensor \<lparr>storage = [2, 0, 1], shape = [3], strides = [1]\<rparr> None SimpleBackend None"

definition ex_A :: tensor where
  "ex_A =
     Tensor \<lparr>storage = [1, 2, 3, 4], shape = [2, 2], strides = [2, 1]\<rparr> None SimpleBackend
       None"

definition ex_B :: tensor where
  "ex_B =
     Tensor \<lparr>storage = [5, 6, 7, 8], shape = [2, 2], strides = [2, 1]\<rparr> None SimpleBackend
       None"

definition ex_G :: tensor where
  "ex_G =
     Tensor \<lparr>storage = [1, 1, 1, 1], shape = [2, 2], strides = [2, 1]\<rparr> None SimpleBackend
       None"

definition ex_AT :: tensor where
  "ex_AT =
     Tensor \<lparr>storage = [1, 2, 3, 4], shape = [2, 2], strides = [1, 2]\<rparr> None SimpleBackend
       None"

definition ex_BT :: tensor where
  "ex_BT =
     Tensor \<lparr>storage = [5, 6, 7, 8], shape = [2, 2], strides = [1, 2]\<rparr> None SimpleBackend
       None"

text \<open>A function under test (the square of its one argument), the gradient slots a
  backward pass leaves for it (twice the argument), and a generator whose state counts
  the draws and whose samples are the first index of a buffer.\<close>

definition ex_square :: "tensor list \<Rightarrow> error + tensor" where
  "ex_square vals = (case vals of [a] \<Rightarrow> tensor_mul a a | _ \<Rightarrow> Inl TypeError)"

definition ex_engine :: "tensor \<Rightarrow> tensor list \<Rightarrow> error + (nat \<Rightarrow> tensor option)" where
  "ex_engine loss vals =
     Inr (\<lambda>i. if i < length vals
               then Some (Tensor \<lparr>storage = map (\<lambda>v. 2 * v) (to_numpy (vals ! i)),
                                  shape = shape (tensor_of (vals ! i)),
                                  strides = strides_from_shape (shape (tensor_of (vals ! i)))\<rparr>
                            None SimpleBackend None)
               else None)"

definition ex_seed :: "int \<Rightarrow> nat" where
  "ex_seed k = nat k"

definition ex_sample :: "tensor_data \<Rightarrow> nat \<Rightarrow> int list \<times> nat" where
  "ex_sample td r = (map (\<lambda>s. 0) (shape td), Suc r)"

definition ex_grad10 :: tensor where
  "ex_grad10 =
     Tensor \<lparr>storage = [10], shape = [1], strides = [1]\<rparr> None SimpleBackend None"

definition ex_checked5 :: tensor where
  "ex_checked5 =
     Tensor \<lparr>storage = [5], shape = [1], strides = [1]\<rparr> (Some (History None None []))
       SimpleBackend (Some ex_grad10)"

text \<open>
  A store holding the tensor 5 at every address, with the generator in state 77; a
  source of random numbers for the counting generator; and two functions under test
  with effects: the square that first draws a random tensor, as
  \<^verbatim>\<open>def f(x): rand((1,)); return x * x\<close>, and the square that first turns gradient
  tracking off in its argument, as \<^verbatim>\<open>def f(x): x.requires_grad_(False); return x * x\<close>.
\<close>

definition ex_world :: "(nat, unit) world" where
  "ex_world = \<lparr>objects = \<lambda>a. ex_const5, generator = 77, rest = ()\<rparr>"

definition ex_random :: "nat \<Rightarrow> real \<times> nat" where
  "ex_random r = (1 / 2, Suc r)"

definition ex_noisy_square :: "(nat, unit) callable" where
  "ex_noisy_square ops w =
     (case ops of
        [x] \<Rightarrow>
          (case rand ex_random [1] SimpleBackend False (generator w) of
             (Inl e, r) \<Rightarrow> (Inl e, w\<lparr>generator := r\<rparr>)
           | (Inr noise, r) \<Rightarrow> (tensor_mul (deref w x) (deref w x), w\<lparr>generator := r\<rparr>))
      | _ \<Rightarrow> (Inl TypeError, w))"

definition ex_untrack_square :: "(nat, unit) callable" where
  "ex_untrack_square ops w =
     (case ops of
        [Obj a] \<Rightarrow>
          (let w1 = w\<lparr>objects := (objects w)(a := requires_grad_set False (objects w a))\<rparr> in
           (tensor_mul (objects w1 a) (objects w1 a), w1))
      | [Temp t] \<Rightarrow> (tensor_mul (requires_grad_set False t) (requires_grad_set False t), w)
      | _ \<Rightarrow> (Inl TypeError, w))"

section \<open>Evaluation and helper lemmas\<close>

lemmas eval_defs = ebind_def Let_def Tensor_make_def TensorData_def operators_prod_def td_at_def
  broadcast_index_def index_to_position_def shape_broadcast_def tensor_zip_def tensor_map_def
  tensor_reduce_def save_for_backward_def detach_def requires_grad_def size_of_def dims_of_def

lemma apply_loop_eq:
  "apply_loop vals (rv, ng) = (rv @ map detach vals, ng \<or> list_ex requires_grad vals)"
  by (induction vals arbitrary: rv ng) auto

lemma detach_plain:
  "\<not> requires_grad (detach v) \<and> tensor_of (detach v) = tensor_of v \<and> backend (detach v) = backend v"
  by (simp add: detach_def requires_grad_def)

lemma Mul_forward_vals_ex:
  "Mul_forward_vals (Context False []) [detach ex_leaf3, detach ex_const5] =
     Inr (Context False [SavedTensor (detach ex_leaf3), SavedTensor (detach ex_const5)],
          Tensor \<lparr>storage = [15], shape = [1], strides = [1]\<rparr> None SimpleBackend None)"
  by (simp add: Mul_forward_vals_def Mul_forward_def mul_zip_def ex_leaf3_def ex_const5_def eval_defs)

section \<open>Function.apply and the graph edge\<close>

text \<open>
  C4. For every \<^verbatim>\<open>forward\<close>, class tag and list of input tensors, \<^verbatim>\<open>apply\<close> runs
  \<^verbatim>\<open>forward\<close> on a Context whose no-gradient flag is the negation of "some input
  requires gradients" and on the detached copies of the inputs (none of which requires
  gradients, each with its input's value and backend). If \<^verbatim>\<open>forward\<close> raises, so does
  \<^verbatim>\<open>apply\<close>. Otherwise the result carries a History (of the class, the Context as
  \<^verbatim>\<open>forward\<close> left it, and the original inputs) if and only if some input requires
  gradients.
\<close>

theorem apply_history_iff_need_grad:
  "(\<forall>e. forward (Context (\<not> list_ex requires_grad vals) []) (map detach vals) = Inl e \<longrightarrow>
        Function_apply forward cls vals = Inl e)
   \<and> (\<forall>c1 c. forward (Context (\<not> list_ex requires_grad vals) []) (map detach vals) = Inr (c1, c) \<longrightarrow>
        Function_apply forward cls vals =
          Inr (Tensor (tensor_of c)
                 (if list_ex requires_grad vals then Some (History (Some cls) (Some c1) vals) else None)
                 (backend c) None))
   \<and> (\<forall>r. Function_apply forward cls vals = Inr r \<longrightarrow>
        (history r \<noteq> None \<longleftrightarrow> list_ex requires_grad vals))
   \<and> (\<forall>v \<in> set (map detach vals). \<not> requires_grad v)
   \<and> map tensor_of (map detach vals) = map tensor_of vals
   \<and> map backend (map detach vals) = map backend vals"
proof -
  have loop: "apply_loop vals ([], False) = (map detach vals, list_ex requires_grad vals)"
    using apply_loop_eq [of vals "[]" False] by simp
  have a: "\<forall>e. forward (Context (\<not> list_ex requires_grad vals) []) (map detach vals) = Inl e \<longrightarrow>
        Function_apply forward cls vals = Inl e"
    by (simp add: Function_apply_def loop)
  have b: "\<forall>c1 c. forward (Context (\<not> list_ex requires_grad vals) []) (map detach vals) = Inr (c1, c) \<longrightarrow>
        Function_apply forward cls vals =
          Inr (Tensor (tensor_of c)
                 (if list_ex requires_grad vals then Some (History (Some cls) (Some c1) vals) else None)
                 (backend c) None)"
    by (simp add: Function_apply_def loop)
  have c: "\<forall>r. Function_apply forward cls vals = Inr r \<longrightarrow>
        (history r \<noteq> None \<longleftrightarrow> list_ex requires_grad vals)"
    by (auto simp add: Function_apply_def loop split: sum.splits)
  have d: "\<forall>v \<in> set (map detach vals). \<not> requires_grad v"
    using detach_plain by auto
  have e: "map tensor_of (map detach vals) = map tensor_of vals"
    by (simp add: detach_plain)
  have f: "map backend (map detach vals) = map backend vals"
    by (simp add: detach_plain)
  from a b c d e f show ?thesis by blast
qed

text \<open>The product of a leaf that requires gradients and a constant: the result holds
  15 and the edge back to both inputs.\<close>

theorem apply_history_witness:
  "list_ex requires_grad [ex_leaf3, ex_const5]
   \<and> Function_apply Mul_forward_vals Mul_cls [ex_leaf3, ex_const5] =
       Inr (Tensor \<lparr>storage = [15], shape = [1], strides = [1]\<rparr>
              (Some (History (Some Mul_cls)
                 (Some (Context False [SavedTensor (detach ex_leaf3), SavedTensor (detach ex_const5)]))
                 [ex_leaf3, ex_const5]))
              SimpleBackend None)"
proof -
  have need: "list_ex requires_grad [ex_leaf3, ex_const5]"
    by (simp add: requires_grad_def ex_leaf3_def)
  show ?thesis
    using need Mul_forward_vals_ex
      apply_history_iff_need_grad [of Mul_forward_vals "[ex_leaf3, ex_const5]" Mul_cls]
    by simp
qed

section \<open>Sum\<close>

text \<open>
  C1. \<^verbatim>\<open>Sum.forward\<close> with \<^verbatim>\<open>dim\<close> \<^verbatim>\<open>None\<close> returns its input unchanged: on the
  two-element tensor holding 1 and 2 the result is that tensor, with two elements, and
  not a one-element tensor holding their sum 3.
\<close>

theorem Sum_forward_None_returns_input:
  "Sum_forward (Context False []) ex_vec12 None =
     Inr (Context False [SavedTensor ex_vec12, SavedNone], ex_vec12)
   \<and> storage (tensor_of ex_vec12) = [1, 2]
   \<and> size_of (tensor_of ex_vec12) = 2"
  by (simp add: Sum_forward_def ex_vec12_def eval_defs)

lemma length_strides_from_shape: "length (strides_from_shape sh) = length sh"
  by (induction sh) auto

lemma TensorData_wf: "TensorData st sh so = Inr td \<Longrightarrow> wf_td td"
  by (auto simp: TensorData_def wf_td_def Let_def split: if_splits)

lemma Tensor_make_wf: "Tensor_make st sh be = Inr t \<Longrightarrow> wf_td (tensor_of t)"
  by (auto simp: Tensor_make_def ebind_def dest: TensorData_wf split: sum.splits)

lemma wf_prod_nonneg: "wf_td td \<Longrightarrow> 0 \<le> operators_prod (shape td)"
  by (simp add: wf_td_def flip: of_nat_0_le_iff[of "length (storage td)"])

lemma zeros_eq:
  "0 \<le> operators_prod sh \<Longrightarrow>
   zeros sh be = Inr (Tensor \<lparr>storage = replicate (nat (operators_prod sh)) 0, shape = sh,
                              strides = strides_from_shape sh\<rparr> None be None)"
  by (simp add: zeros_def Tensor_make_def TensorData_def ebind_def length_strides_from_shape)

lemma add_reduce_wf: "add_reduce r d = Inr r' \<Longrightarrow> wf_td (tensor_of r')"
  by (auto simp: add_reduce_def tensor_reduce_def Let_def dest: Tensor_make_wf split: if_splits)

lemma sum_dims_wf:
  "sum_dims a ds = Inr result \<Longrightarrow> wf_td (tensor_of a) \<Longrightarrow> wf_td (tensor_of result)"
proof (induction ds arbitrary: a)
  case Nil
  then show ?case by simp
next
  case (Cons d ds)
  then show ?case
    by (auto simp: ebind_def split: sum.splits dest: add_reduce_wf)
qed

lemma wf_size1_storage: "wf_td td \<Longrightarrow> size_of td = 1 \<Longrightarrow> \<exists>x. storage td = [x]"
  by (cases "storage td") (auto simp: wf_td_def size_of_def)

lemma tensor_single:
  "tensor (PyList [Num x]) SimpleBackend False =
     Inr (Tensor \<lparr>storage = [x], shape = [1], strides = [1]\<rparr> None SimpleBackend None)"
  by (simp add: tensor_def tensor_from_def requires_grad_set_def ebind_def Let_def Tensor_make_def
        TensorData_def operators_prod_def)

lemma ex_dims01_dims: "dims_to_sum ex_dims01 = Inr [0, 1]"
  by (simp add: dims_to_sum_def ex_dims01_def py_int_def size_of_def operators_prod_def)

lemma ex_dims0_dims: "dims_to_sum ex_dims0 = Inr [0]"
  by (simp add: dims_to_sum_def ex_dims0_def py_int_def size_of_def operators_prod_def
        storage0_def ebind_def)

lemma ex_mat_sum0:
  "sum_dims ex_mat [0] =
     Inr (Tensor \<lparr>storage = [4, 6], shape = [1, 2], strides = [2, 1]\<rparr> None (TensorBackend 1) None)"
  by (simp add: ex_mat_def add_reduce_def eval_defs numeral_2_eq_2)

lemma ex_mat_sum01:
  "sum_dims ex_mat [0, 1] =
     Inr (Tensor \<lparr>storage = [10], shape = [1, 1], strides = [1, 1]\<rparr> None (TensorBackend 1) None)"
  by (simp add: ex_mat_def add_reduce_def eval_defs numeral_2_eq_2)

text \<open>
  C9. Let the sequential reduction of a well-formed \<open>a\<close> over the dimensions listed in
  \<open>d\<close> produce \<open>result\<close>. If \<open>result\<close> has exactly one element \<open>x\<close>, \<^verbatim>\<open>Sum.forward\<close>
  returns the tensor newly built by \<^verbatim>\<open>tensor([x])\<close>: shape \<open>(1,)\<close>, on the default
  backend, whatever the shape and the backend of \<open>result\<close>. If \<open>result\<close> has more than
  one element, \<open>result\<close> itself is returned.
\<close>

theorem Sum_forward_single_element_rebuilt:
  assumes "wf_td (tensor_of a)" and "dims_to_sum d = Inr ds" and "sum_dims a ds = Inr result"
  shows "(size_of (tensor_of result) = 1 \<longrightarrow>
           (\<exists>x t. storage (tensor_of result) = [x]
              \<and> tensor (PyList [Num x]) SimpleBackend False = Inr t
              \<and> Sum_forward c a (Some d) =
                  Inr (save_for_backward c [SavedTensor a, SavedTensor d], t)
              \<and> tensor_of t = \<lparr>storage = [x], shape = [1], strides = [1]\<rparr>
              \<and> backend t = SimpleBackend))
       \<and> (1 < size_of (tensor_of result) \<longrightarrow>
           Sum_forward c a (Some d) =
             Inr (save_for_backward c [SavedTensor a, SavedTensor d], result))"
proof -
  have wf: "wf_td (tensor_of result)"
    using sum_dims_wf assms(3) assms(1) by blast
  have one: "size_of (tensor_of result) = 1 \<longrightarrow>
           (\<exists>x t. storage (tensor_of result) = [x]
              \<and> tensor (PyList [Num x]) SimpleBackend False = Inr t
              \<and> Sum_forward c a (Some d) =
                  Inr (save_for_backward c [SavedTensor a, SavedTensor d], t)
              \<and> tensor_of t = \<lparr>storage = [x], shape = [1], strides = [1]\<rparr>
              \<and> backend t = SimpleBackend)"
  proof
    assume s1: "size_of (tensor_of result) = 1"
    then obtain x where x: "storage (tensor_of result) = [x]"
      using wf_size1_storage wf by blast
    have "Sum_forward c a (Some d) =
            Inr (save_for_backward c [SavedTensor a, SavedTensor d],
                 Tensor \<lparr>storage = [x], shape = [1], strides = [1]\<rparr> None SimpleBackend None)"
      using assms(2) assms(3) s1 x
      by (simp add: Sum_forward_def ebind_def storage0_def tensor_single)
    then show "\<exists>x t. storage (tensor_of result) = [x]
              \<and> tensor (PyList [Num x]) SimpleBackend False = Inr t
              \<and> Sum_forward c a (Some d) =
                  Inr (save_for_backward c [SavedTensor a, SavedTensor d], t)
              \<and> tensor_of t = \<lparr>storage = [x], shape = [1], strides = [1]\<rparr>
              \<and> backend t = SimpleBackend"
      using x tensor_single by auto
  qed
  have many: "1 < size_of (tensor_of result) \<longrightarrow>
           Sum_forward c a (Some d) =
             Inr (save_for_backward c [SavedTensor a, SavedTensor d], result)"
    using assms(2) assms(3) by (simp add: Sum_forward_def ebind_def)
  from one many show ?thesis by blast
qed

text \<open>The 2 by 2 matrix on another backend, summed over both dimensions: the reduction
  gives shape \<open>(1, 1)\<close> on that backend, \<^verbatim>\<open>Sum.forward\<close> returns shape \<open>(1,)\<close> on the
  default backend.\<close>

theorem Sum_forward_single_element_witness:
  "wf_td (tensor_of ex_mat)
   \<and> dims_to_sum ex_dims01 = Inr [0, 1]
   \<and> sum_dims ex_mat [0, 1] =
       Inr (Tensor \<lparr>storage = [10], shape = [1, 1], strides = [1, 1]\<rparr> None (TensorBackend 1) None)
   \<and> Sum_forward (Context False []) ex_mat (Some ex_dims01) =
       Inr (Context False [SavedTensor ex_mat, SavedTensor ex_dims01],
            Tensor \<lparr>storage = [10], shape = [1], strides = [1]\<rparr> None SimpleBackend None)"
proof -
  have wf: "wf_td (tensor_of ex_mat)"
    by (simp add: wf_td_def ex_mat_def operators_prod_def)
  have sz: "size_of (tensor_of (Tensor \<lparr>storage = [10], shape = [1, 1], strides = [1, 1]\<rparr> None
              (TensorBackend 1) None)) = 1"
    by (simp add: size_of_def operators_prod_def)
  show ?thesis
    using wf sz ex_dims01_dims ex_mat_sum01 tensor_single [of 10]
      Sum_forward_single_element_rebuilt [OF wf ex_dims01_dims ex_mat_sum01, of "Context False []"]
    by (auto simp: save_for_backward_def)
qed

section \<open>The comparisons\<close>

text \<open>
  C3 (as amended). For every well-formed upstream gradient, the backward of less-than,
  of equal and of is-close returns the same pair: twice the all-zero tensor
  \<^verbatim>\<open>zeros(grad_output.shape)\<close>, whose shape is the shape of \<^verbatim>\<open>grad_output\<close>, that is
  of the output of the comparison. Neither the Context nor the inputs are consulted.
\<close>

theorem comparison_backward_zeros_of_grad_shape:
  assumes "wf_td (tensor_of grad_output)"
  shows "\<exists>z. zeros (shape (tensor_of grad_output)) SimpleBackend = Inr z
           \<and> shape (tensor_of z) = shape (tensor_of grad_output)
           \<and> storage (tensor_of z) = replicate (length (storage (tensor_of grad_output))) 0
           \<and> LT_backward c grad_output = Inr (z, z)
           \<and> EQ_backward c grad_output = Inr (z, z)
           \<and> IsClose_backward c grad_output = Inr (z, z)"
proof -
  have "int (length (storage (tensor_of grad_output))) = operators_prod (shape (tensor_of grad_output))"
    using assms by (simp add: wf_td_def)
  then have len: "nat (operators_prod (shape (tensor_of grad_output))) = length (storage (tensor_of grad_output))"
    by (metis nat_int)
  show ?thesis
    using zeros_eq [OF wf_prod_nonneg [OF assms], of SimpleBackend] len
    by (simp add: LT_backward_def EQ_backward_def IsClose_backward_def ebind_def)
qed

theorem comparison_backward_witness:
  "wf_td (tensor_of ex_ones2)
   \<and> LT_backward (Context False []) ex_ones2 = Inr (ex_zeros2, ex_zeros2)
   \<and> EQ_backward (Context False []) ex_ones2 = Inr (ex_zeros2, ex_zeros2)
   \<and> IsClose_backward (Context False []) ex_ones2 = Inr (ex_zeros2, ex_zeros2)"
proof -
  have wf: "wf_td (tensor_of ex_ones2)"
    by (simp add: wf_td_def ex_ones2_def operators_prod_def)
  have z: "zeros (shape (tensor_of ex_ones2)) SimpleBackend = Inr ex_zeros2"
    by (simp add: zeros_def ex_ones2_def ex_zeros2_def eval_defs numeral_2_eq_2)
  show ?thesis
    using wf z comparison_backward_zeros_of_grad_shape [OF wf, of "Context False []"]
    by auto
qed

text \<open>
  The claim as stated fails under broadcasting: comparing a tensor of shape \<open>(2,)\<close> with
  one of shape \<open>(1,)\<close> gives an output of shape \<open>(2,)\<close>; on a gradient of that shape the
  backward returns zeros of shape \<open>(2,)\<close> for both inputs, also for the input of shape
  \<open>(1,)\<close>.
\<close>

theorem LT_backward_input_shape_counterexample:
  "LT_forward (Context False []) ex_vec12 ex_one2 =
     Inr (Context False [],
          Tensor \<lparr>storage = [1, 0], shape = [2], strides = [1]\<rparr> None SimpleBackend None)
   \<and> LT_backward (Context False []) ex_ones2 = Inr (ex_zeros2, ex_zeros2)
   \<and> shape (tensor_of ex_ones2) = [2]
   \<and> shape (tensor_of ex_zeros2) = [2]
   \<and> shape (tensor_of ex_one2) = [1]
   \<and> shape (tensor_of ex_zeros2) \<noteq> shape (tensor_of ex_one2)"
  by (simp add: LT_forward_def LT_backward_def lt_zip_def zeros_def operators_lt_def
        ex_vec12_def ex_one2_def ex_ones2_def ex_zeros2_def eval_defs numeral_2_eq_2)

section \<open>ReLU\<close>

text \<open>
  C2. On the saved input holding 1 and -1 and the upstream gradient holding 3 and 5,
  \<^verbatim>\<open>a.f.relu_back_zip(a, grad_output)\<close> is already the gradient masked by the
  indicator of a positive input (3 and 0); \<^verbatim>\<open>ReLU.backward\<close> multiplies it by
  \<^verbatim>\<open>grad_output\<close> once more and returns 9 and 0 instead of 3 and 0.
\<close>

theorem ReLU_backward_squares_gradient:
  "ReLU_forward (Context False []) ex_in =
     Inr (Context False [SavedTensor ex_in],
          Tensor \<lparr>storage = [1, 0], shape = [2], strides = [1]\<rparr> None SimpleBackend None)
   \<and> relu_back_zip ex_in ex_grad35 =
     Inr (Tensor \<lparr>storage = [3, 0], shape = [2], strides = [1]\<rparr> None SimpleBackend None)
   \<and> ReLU_backward (Context False [SavedTensor ex_in]) ex_grad35 =
     Inr (Tensor \<lparr>storage = [9, 0], shape = [2], strides = [1]\<rparr> None SimpleBackend None)"
  by (simp add: ReLU_forward_def ReLU_backward_def relu_map_def relu_back_zip_def tensor_mul_def
        Function_apply_def Mul_forward_vals_def Mul_forward_def mul_zip_def
        operators_relu_def operators_relu_back_def ex_in_def ex_grad35_def eval_defs numeral_2_eq_2)

section \<open>View\<close>

lemma emap_append:
  "emap f (xs @ ys) = ebind (emap f xs) (\<lambda>a. ebind (emap f ys) (\<lambda>b. Inr (a @ b)))"
  by (induction xs) (auto simp: ebind_def split: sum.splits)

lemma emap_upt:
  "(\<And>i. i < n \<Longrightarrow> f i = Inr (g i)) \<Longrightarrow> emap f [0..<n] = Inr (map g [0..<n])"
proof (induction n)
  case 0
  then show ?case by simp
next
  case (Suc n)
  then have "emap f ([0..<n] @ [n]) = Inr (map g [0..<n] @ [g n])"
    by (simp add: emap_append ebind_def)
  then show ?case by simp
qed

text \<open>A one-dimensional contiguous shape tensor is read entry by entry.\<close>

lemma shape2_of_vector:
  assumes "shape (tensor_of sh) = [int (length (storage (tensor_of sh)))]"
    and "strides (tensor_of sh) = [1]"
  shows "shape2_of sh = Inr (map py_int (storage (tensor_of sh)))"
proof -
  let ?st = "storage (tensor_of sh)"
  have sz: "nat (size_of (tensor_of sh)) = length ?st"
    using assms(1) by (simp add: size_of_def operators_prod_def)
  have el: "\<And>i. i < length ?st \<Longrightarrow>
      ebind (tensor_getitem sh [int i]) (\<lambda>x. Inr (py_int x)) = Inr (py_int (?st ! i))"
    using assms
    by (simp add: tensor_getitem_def td_get_def td_index_def ebind_def index_to_position_def)
  have "shape2_of sh = Inr (map (\<lambda>i. py_int (?st ! i)) [0..<length ?st])"
    unfolding shape2_of_def sz using el by (rule emap_upt)
  also have "map (\<lambda>i. py_int (?st ! i)) [0..<length ?st] = map py_int ?st"
    by (rule nth_equalityI) simp_all
  finally show ?thesis .
qed

text \<open>
  C7. On an input whose buffer is not contiguous \<^verbatim>\<open>View.forward\<close> fails with the
  assertion error. On a contiguous input, with the requested shape given as a
  one-dimensional tensor whose entries multiply to the number of elements of the
  buffer, it succeeds: the result has the requested shape, the input's backend and the
  input's storage itself (no element is copied or changed), laid out contiguously.
\<close>

theorem View_forward_contiguity:
  "(\<not> is_contiguous (tensor_of a) \<longrightarrow> View_forward c a sh = Inl AssertionError)
   \<and> (is_contiguous (tensor_of a)
        \<and> shape (tensor_of sh) = [int (length (storage (tensor_of sh)))]
        \<and> strides (tensor_of sh) = [1]
        \<and> operators_prod (map py_int (storage (tensor_of sh))) = int (length (storage (tensor_of a)))
      \<longrightarrow> View_forward c a sh =
            Inr (save_for_backward c [SavedInts (shape (tensor_of a))],
                 Tensor \<lparr>storage = storage (tensor_of a),
                         shape = map py_int (storage (tensor_of sh)),
                         strides = strides_from_shape (map py_int (storage (tensor_of sh)))\<rparr>
                   None (backend a) None))"
proof -
  have no: "\<not> is_contiguous (tensor_of a) \<longrightarrow> View_forward c a sh = Inl AssertionError"
    by (simp add: View_forward_def)
  have yes: "is_contiguous (tensor_of a)
        \<and> shape (tensor_of sh) = [int (length (storage (tensor_of sh)))]
        \<and> strides (tensor_of sh) = [1]
        \<and> operators_prod (map py_int (storage (tensor_of sh))) = int (length (storage (tensor_of a)))
      \<longrightarrow> View_forward c a sh =
            Inr (save_for_backward c [SavedInts (shape (tensor_of a))],
                 Tensor \<lparr>storage = storage (tensor_of a),
                         shape = map py_int (storage (tensor_of sh)),
                         strides = strides_from_shape (map py_int (storage (tensor_of sh)))\<rparr>
                   None (backend a) None)"
  proof
    assume h: "is_contiguous (tensor_of a)
        \<and> shape (tensor_of sh) = [int (length (storage (tensor_of sh)))]
        \<and> strides (tensor_of sh) = [1]
        \<and> operators_prod (map py_int (storage (tensor_of sh))) = int (length (storage (tensor_of a)))"
    then have s2: "shape2_of sh = Inr (map py_int (storage (tensor_of sh)))"
      using shape2_of_vector by blast
    show "View_forward c a sh =
            Inr (save_for_backward c [SavedInts (shape (tensor_of a))],
                 Tensor \<lparr>storage = storage (tensor_of a),
                         shape = map py_int (storage (tensor_of sh)),
                         strides = strides_from_shape (map py_int (storage (tensor_of sh)))\<rparr>
                   None (backend a) None)"
      using h s2
      by (simp add: View_forward_def ebind_def Tensor_make_def TensorData_def
            length_strides_from_shape)
  qed
  from no yes show ?thesis by blast
qed

text \<open>The transposed 2 by 2 matrix (strides 1, 2) is refused; the contiguous one is
  viewed as a vector of four elements.\<close>

theorem View_forward_contiguity_witness:
  "\<not> is_contiguous (tensor_of ex_matT)
   \<and> View_forward (Context False []) ex_matT ex_shape4 = Inl AssertionError
   \<and> is_contiguous (tensor_of ex_mat)
   \<and> View_forward (Context False []) ex_mat ex_shape4 =
       Inr (Context False [SavedInts [2, 2]],
            Tensor \<lparr>storage = [1, 2, 3, 4], shape = [4], strides = [1]\<rparr> None (TensorBackend 1) None)"
proof -
  have n: "\<not> is_contiguous (tensor_of ex_matT)"
    by (simp add: is_contiguous_def ex_matT_def)
  have y: "is_contiguous (tensor_of ex_mat)
        \<and> shape (tensor_of ex_shape4) = [int (length (storage (tensor_of ex_shape4)))]
        \<and> strides (tensor_of ex_shape4) = [1]
        \<and> operators_prod (map py_int (storage (tensor_of ex_shape4))) =
            int (length (storage (tensor_of ex_mat)))"
    by (simp add: is_contiguous_def ex_mat_def ex_shape4_def operators_prod_def py_int_def)
  show ?thesis
    using n y View_forward_contiguity [of ex_matT "Context False []" ex_shape4]
      View_forward_contiguity [of ex_mat "Context False []" ex_shape4]
    by (simp add: ex_mat_def ex_shape4_def save_for_backward_def operators_prod_def py_int_def)
qed

section \<open>Permute\<close>

lemma foldl_mult_prod: "foldl (*) a ls = a * prod_list (ls :: int list)"
  by (induction ls arbitrary: a) (auto simp: algebra_simps)

lemma operators_prod_eq: "operators_prod ls = prod_list ls"
  by (simp add: operators_prod_def foldl_mult_prod)

lemma valid_order_length: "valid_order p n \<Longrightarrow> length p = n"
  by (metis valid_order_def length_sort length_map length_upt diff_zero)

lemma valid_order_set: "valid_order p n \<Longrightarrow> set p = int ` {0..<n}"
  by (metis valid_order_def set_sort set_map set_upt)

lemma valid_order_distinct: "valid_order p n \<Longrightarrow> distinct p"
proof -
  assume "valid_order p n"
  then have "distinct (sort p)"
    by (simp add: valid_order_def distinct_map)
  then show "distinct p" by simp
qed

lemma valid_order_nth:
  assumes "valid_order p n" "i < n"
  shows "0 \<le> p ! i \<and> p ! i < int n \<and> nat (p ! i) < n"
proof -
  have "p ! i \<in> set p" using assms valid_order_length by auto
  then have "p ! i \<in> int ` {0..<n}" using valid_order_set assms(1) by blast
  then show ?thesis by auto
qed

lemma prod_list_permuted:
  assumes "valid_order p n" "length xs = n"
  shows "prod_list (map (\<lambda>d. xs ! nat d) p) = prod_list (xs :: int list)"
proof -
  have "prod_list (map (\<lambda>d. xs ! nat d) p) = prod (\<lambda>d. xs ! nat d) (set p)"
    using valid_order_distinct [OF assms(1)] by (simp add: prod.distinct_set_conv_list)
  also have "\<dots> = prod (\<lambda>d. xs ! nat d) (int ` {0..<n})"
    using valid_order_set [OF assms(1)] by simp
  also have "\<dots> = prod (\<lambda>i. xs ! i) {0..<n}"
    by (simp add: prod.reindex)
  also have "\<dots> = prod_list (map (\<lambda>i. xs ! i) [0..<n])"
    by (simp add: prod.distinct_set_conv_list [symmetric])
  also have "map (\<lambda>i. xs ! i) [0..<n] = xs"
    using assms(2) map_nth [of xs] by simp
  finally show ?thesis .
qed

lemma permute_valid:
  assumes "wf_td td" "valid_order p (length (shape td))"
  shows "permute td p =
           Inr \<lparr>storage = storage td, shape = map (\<lambda>d. shape td ! nat d) p,
                strides = map (\<lambda>d. strides td ! nat d) p\<rparr>"
  using assms prod_list_permuted [OF assms(2) refl]
  by (simp add: permute_def valid_order_def TensorData_def wf_td_def operators_prod_eq)

lemma permute_Inr_valid: "permute td p = Inr td' \<Longrightarrow> valid_order p (length (shape td))"
  by (simp add: permute_def valid_order_def split: if_splits)


lemma py_list_set_in_range:
  "0 \<le> k \<Longrightarrow> k < int (length xs) \<Longrightarrow> py_list_set xs k v = Inr (xs[nat k := v])"
  by (simp add: py_list_set_def Let_def)

lemma reverse_loop_spec:
  assumes "\<forall>k\<in>set ks. 0 \<le> k \<and> k < int (length r)" and "distinct ks"
  shows "\<exists>r'. reverse_loop ks i r = Inr r' \<and> length r' = length r
           \<and> (\<forall>j<length ks. r' ! nat (ks ! j) = int (i + j))
           \<and> (\<forall>m<length r. int m \<notin> set ks \<longrightarrow> r' ! m = r ! m)"
  using assms
proof (induction ks arbitrary: i r)
  case Nil
  then show ?case by simp
next
  case (Cons k ks)
  let ?r1 = "r[nat k := int i]"
  have k: "0 \<le> k" "k < int (length r)" "k \<notin> set ks"
    using Cons.prems by auto
  have step: "reverse_loop (k # ks) i r = reverse_loop ks (Suc i) ?r1"
    using k by (simp add: py_list_set_in_range ebind_def)
  have pre: "\<forall>k\<in>set ks. 0 \<le> k \<and> k < int (length ?r1)" "distinct ks"
    using Cons.prems by auto
  from Cons.IH [OF pre, of "Suc i"] obtain r' where r':
    "reverse_loop ks (Suc i) ?r1 = Inr r'" "length r' = length ?r1"
    "\<forall>j<length ks. r' ! nat (ks ! j) = int (Suc i + j)"
    "\<forall>m<length ?r1. int m \<notin> set ks \<longrightarrow> r' ! m = ?r1 ! m"
    by blast
  have at_k: "r' ! nat k = int i"
  proof -
    have "nat k < length ?r1" using k by simp
    moreover have "int (nat k) \<notin> set ks" using k by simp
    ultimately have "r' ! nat k = ?r1 ! nat k" using r'(4) by blast
    then show ?thesis using k by simp
  qed
  have idx: "\<forall>j<length (k # ks). r' ! nat ((k # ks) ! j) = int (i + j)"
  proof (intro allI impI)
    fix j assume j: "j < length (k # ks)"
    show "r' ! nat ((k # ks) ! j) = int (i + j)"
    proof (cases j)
      case 0
      then show ?thesis using at_k by simp
    next
      case (Suc j')
      then show ?thesis using r'(3) j by simp
    qed
  qed
  have frame: "\<forall>m<length r. int m \<notin> set (k # ks) \<longrightarrow> r' ! m = r ! m"
  proof (intro allI impI)
    fix m assume m: "m < length r" "int m \<notin> set (k # ks)"
    then have "r' ! m = ?r1 ! m" using r'(4) by simp
    moreover have "m \<noteq> nat k" using m k by auto
    ultimately show "r' ! m = r ! m" by simp
  qed
  show ?case using step r'(1) r'(2) idx frame by simp
qed

lemma reverse_loop_inverse:
  assumes "valid_order p n"
  shows "\<exists>q. reverse_loop p 0 (replicate (length p) 0) = Inr q \<and> valid_order q n
           \<and> (\<forall>i<n. q ! nat (p ! i) = int i) \<and> (\<forall>m<n. p ! nat (q ! m) = int m)"
proof -
  have len: "length p = n" using assms by (rule valid_order_length)
  have rng: "\<forall>k\<in>set p. 0 \<le> k \<and> k < int (length (replicate (length p) (0::int)))"
    using valid_order_set [OF assms] len by auto
  from reverse_loop_spec [OF rng valid_order_distinct [OF assms], of 0]
  obtain q where q: "reverse_loop p 0 (replicate (length p) 0) = Inr q" "length q = n"
    "\<forall>j<n. q ! nat (p ! j) = int j"
    using len by auto
  have surj: "\<And>m. m < n \<Longrightarrow> \<exists>j<n. p ! j = int m"
  proof -
    fix m assume "m < n"
    then have "int m \<in> set p" using valid_order_set [OF assms] by auto
    then show "\<exists>j<n. p ! j = int m" using len by (auto simp: in_set_conv_nth)
  qed
  have inv2: "\<forall>m<n. p ! nat (q ! m) = int m"
  proof (intro allI impI)
    fix m assume "m < n"
    then obtain j where j: "j < n" "p ! j = int m" using surj by blast
    then have "q ! m = int j" using q(3) by (metis nat_int)
    then show "p ! nat (q ! m) = int m" using j by simp
  qed
  have qset: "set q = int ` {0..<n}"
  proof
    show "set q \<subseteq> int ` {0..<n}"
    proof
      fix x assume "x \<in> set q"
      then obtain m where m: "m < n" "q ! m = x" using q(2) by (auto simp: in_set_conv_nth)
      then obtain j where j: "j < n" "p ! j = int m" using surj by blast
      then have "q ! m = int j" using q(3) by (metis nat_int)
      then show "x \<in> int ` {0..<n}" using m j by auto
    qed
  next
    show "int ` {0..<n} \<subseteq> set q"
    proof
      fix x assume "x \<in> int ` {0..<n}"
      then obtain j where j: "j < n" "x = int j" by auto
      have "nat (p ! j) < n" using valid_order_nth [OF assms j(1)] by simp
      then have "q ! nat (p ! j) \<in> set q" using q(2) by simp
      then show "x \<in> set q" using q(3) j by simp
    qed
  qed
  have qdist: "distinct q"
  proof -
    have "card (set q) = length q" using qset q(2) by (simp add: card_image)
    then show ?thesis by (rule card_distinct)
  qed
  have "sort q = map int [0..<n]"
  proof (rule sorted_distinct_set_unique)
    show "sorted (sort q)" by simp
    show "distinct (sort q)" using qdist by simp
    show "sorted (map int [0..<n])" by (simp add: sorted_map sorted_wrt_iff_nth_less)
    show "distinct (map int [0..<n])" by (simp add: distinct_map)
    show "set (sort q) = set (map int [0..<n])" using qset by simp
  qed
  then have "valid_order q n" by (simp add: valid_order_def)
  then show ?thesis using q inv2 by blast
qed

lemma permute_permute_id:
  assumes "wf_td td" "valid_order p (length (shape td))" "valid_order q (length (shape td))"
    and "\<forall>m<length (shape td). p ! nat (q ! m) = int m"
  shows "ebind (permute td p) (\<lambda>td1. permute td1 q) = Inr td"
proof -
  let ?n = "length (shape td)"
  let ?td1 = "\<lparr>storage = storage td, shape = map (\<lambda>d. shape td ! nat d) p,
                strides = map (\<lambda>d. strides td ! nat d) p\<rparr>"
  have lp: "length p = ?n" and lq: "length q = ?n"
    using assms valid_order_length by blast+
  have ls: "length (strides td) = ?n" using assms(1) by (simp add: wf_td_def)
  have p1: "permute td p = Inr ?td1" using permute_valid [OF assms(1) assms(2)] .
  have wf1: "wf_td ?td1"
    using assms(1) prod_list_permuted [OF assms(2) refl] lp
    by (simp add: wf_td_def operators_prod_eq)
  have vq: "valid_order q (length (shape ?td1))" using assms(3) lp by simp
  have p2: "permute ?td1 q =
      Inr \<lparr>storage = storage td, shape = map (\<lambda>d. shape ?td1 ! nat d) q,
           strides = map (\<lambda>d. strides ?td1 ! nat d) q\<rparr>"
    using permute_valid [OF wf1 vq] by simp
  have sh: "map (\<lambda>d. shape ?td1 ! nat d) q = shape td"
  proof (rule nth_equalityI)
    show "length (map (\<lambda>d. shape ?td1 ! nat d) q) = length (shape td)" using lq by simp
  next
    fix m assume "m < length (map (\<lambda>d. shape ?td1 ! nat d) q)"
    then have m: "m < ?n" using lq by simp
    have "nat (q ! m) < ?n" using valid_order_nth [OF assms(3) m] by simp
    then show "map (\<lambda>d. shape ?td1 ! nat d) q ! m = shape td ! m"
      using m lq lp assms(4) by simp
  qed
  have st: "map (\<lambda>d. strides ?td1 ! nat d) q = strides td"
  proof (rule nth_equalityI)
    show "length (map (\<lambda>d. strides ?td1 ! nat d) q) = length (strides td)" using lq ls by simp
  next
    fix m assume "m < length (map (\<lambda>d. strides ?td1 ! nat d) q)"
    then have m: "m < ?n" using lq by simp
    have "nat (q ! m) < ?n" using valid_order_nth [OF assms(3) m] by simp
    then show "map (\<lambda>d. strides ?td1 ! nat d) q ! m = strides td ! m"
      using m lq lp assms(4) by simp
  qed
  show ?thesis using p1 p2 sh st by (simp add: ebind_def)
qed



text \<open>
  C6. Let \<open>a\<close> be well-formed and \<open>p\<close>, read from a one-dimensional \<^verbatim>\<open>order\<close>, a
  permutation of the axes of \<open>a\<close>, in a Context that tracks gradients. Then the loop of
  \<^verbatim>\<open>Permute.backward\<close> computes the inverse permutation \<open>q\<close> of \<open>p\<close>, and backward
  permutes \<^verbatim>\<open>grad_output\<close> by \<open>q\<close>. Permuting \<open>a\<close> by \<open>p\<close> (the forward) and then by
  \<open>q\<close> gives back the buffer of \<open>a\<close>, shape and strides included; backward applied to
  the forward's result gives back \<open>a\<close>; and for every well-formed gradient with as many
  axes, the gradient backward returns, permuted by \<open>p\<close> again, is the gradient itself.
\<close>

theorem Permute_round_trip:
  assumes "wf_td (tensor_of a)" and "\<not> no_grad c" and "dims_of (tensor_of order) = 1"
    and "p = map py_int (to_numpy order)"
    and "valid_order p (length (shape (tensor_of a)))"
  shows "\<exists>q td.
       reverse_loop p 0 (replicate (length p) 0) = Inr q
     \<and> valid_order q (length (shape (tensor_of a)))
     \<and> (\<forall>i<length p. q ! nat (p ! i) = int i \<and> p ! nat (q ! i) = int i)
     \<and> permute (tensor_of a) p = Inr td
     \<and> Permute_forward c a order = Inr (save_for_backward c [SavedInts p], new_tensor a td)
     \<and> permute td q = Inr (tensor_of a)
     \<and> Permute_backward (save_for_backward c [SavedInts p]) (new_tensor a td) =
         Inr (new_tensor a (tensor_of a), 0)
     \<and> (\<forall>g. wf_td (tensor_of g) \<and> length (shape (tensor_of g)) = length p \<longrightarrow>
          (\<exists>gtd. permute (tensor_of g) q = Inr gtd
             \<and> Permute_backward (save_for_backward c [SavedInts p]) g = Inr (new_tensor g gtd, 0)
             \<and> permute gtd p = Inr (tensor_of g)))"
proof -
  let ?n = "length (shape (tensor_of a))"
  have lp: "length p = ?n" using assms(5) by (rule valid_order_length)
  from reverse_loop_inverse [OF assms(5)] obtain q where q:
    "reverse_loop p 0 (replicate (length p) 0) = Inr q" "valid_order q ?n"
    "\<forall>i<?n. q ! nat (p ! i) = int i" "\<forall>m<?n. p ! nat (q ! m) = int m"
    by blast
  let ?td = "\<lparr>storage = storage (tensor_of a), shape = map (\<lambda>d. shape (tensor_of a) ! nat d) p,
              strides = map (\<lambda>d. strides (tensor_of a) ! nat d) p\<rparr>"
  have pa: "permute (tensor_of a) p = Inr ?td"
    using permute_valid [OF assms(1) assms(5)] .
  have fwd: "Permute_forward c a order = Inr (save_for_backward c [SavedInts p], new_tensor a ?td)"
    using assms(3) assms(4) pa by (simp add: Permute_forward_def ebind_def Let_def)
  have back_td: "permute ?td q = Inr (tensor_of a)"
    using permute_permute_id [OF assms(1) assms(5) q(2) q(4)] pa by (simp add: ebind_def)
  have bwd: "Permute_backward (save_for_backward c [SavedInts p]) (new_tensor a ?td) =
         Inr (new_tensor a (tensor_of a), 0)"
    using q(1) back_td
    by (simp add: Permute_backward_def save_for_backward_def ebind_def new_tensor_def)
  have grads: "\<forall>g. wf_td (tensor_of g) \<and> length (shape (tensor_of g)) = length p \<longrightarrow>
          (\<exists>gtd. permute (tensor_of g) q = Inr gtd
             \<and> Permute_backward (save_for_backward c [SavedInts p]) g = Inr (new_tensor g gtd, 0)
             \<and> permute gtd p = Inr (tensor_of g))"
  proof (intro allI impI)
    fix g assume g: "wf_td (tensor_of g) \<and> length (shape (tensor_of g)) = length p"
    then have wfg: "wf_td (tensor_of g)" and lg: "length (shape (tensor_of g)) = ?n"
      using lp by simp_all
    have vq: "valid_order q (length (shape (tensor_of g)))" using q(2) lg by simp
    have vp: "valid_order p (length (shape (tensor_of g)))" using assms(5) lg by simp
    let ?gtd = "\<lparr>storage = storage (tensor_of g), shape = map (\<lambda>d. shape (tensor_of g) ! nat d) q,
              strides = map (\<lambda>d. strides (tensor_of g) ! nat d) q\<rparr>"
    have pg: "permute (tensor_of g) q = Inr ?gtd"
      using permute_valid [OF wfg vq] .
    have inv: "\<forall>m<length (shape (tensor_of g)). q ! nat (p ! m) = int m"
      using q(3) lg by simp
    have rt: "permute ?gtd p = Inr (tensor_of g)"
      using permute_permute_id [OF wfg vq vp inv] pg by (simp add: ebind_def)
    have bg: "Permute_backward (save_for_backward c [SavedInts p]) g = Inr (new_tensor g ?gtd, 0)"
      using q(1) pg by (simp add: Permute_backward_def save_for_backward_def ebind_def)
    show "\<exists>gtd. permute (tensor_of g) q = Inr gtd
             \<and> Permute_backward (save_for_backward c [SavedInts p]) g = Inr (new_tensor g gtd, 0)
             \<and> permute gtd p = Inr (tensor_of g)"
      using pg bg rt by blast
  qed
  have both: "\<forall>i<length p. q ! nat (p ! i) = int i \<and> p ! nat (q ! i) = int i"
    using q(3) q(4) lp by simp
  show ?thesis
    using q(1) q(2) both pa fwd back_td bwd grads by blast
qed

lemma ex_order: "map py_int (to_numpy ex_order201) = [2, 0, 1]"
  by (simp add: to_numpy_def ex_order201_def py_int_def size_of_def operators_prod_def td_at_def
        index_to_position_def eval_nat_numeral)

text \<open>The order 2, 0, 1 on a tensor of shape \<open>(1, 2, 3)\<close>; its inverse is 1, 2, 0.\<close>

theorem Permute_round_trip_witness:
  "wf_td (tensor_of ex_t123) \<and> valid_order [2, 0, 1] 3
   \<and> Permute_forward (Context False []) ex_t123 ex_order201 =
       Inr (Context False [SavedInts [2, 0, 1]], ex_t312)
   \<and> Permute_backward (Context False [SavedInts [2, 0, 1]]) ex_t312 = Inr (ex_t123, 0)"
proof -
  have wf: "wf_td (tensor_of ex_t123)"
    by (simp add: wf_td_def ex_t123_def operators_prod_def)
  have ng: "\<not> no_grad (Context False [])" by simp
  have d1: "dims_of (tensor_of ex_order201) = 1"
    by (simp add: dims_of_def ex_order201_def)
  have vo: "valid_order [2, 0, 1] (length (shape (tensor_of ex_t123)))"
    by (simp add: valid_order_def ex_t123_def eval_nat_numeral)
  have pm: "permute (tensor_of ex_t123) [2, 0, 1] = Inr (tensor_of ex_t312)"
    by (simp add: permute_def ex_t123_def ex_t312_def TensorData_def operators_prod_def eval_nat_numeral)
  have nt: "new_tensor ex_t123 (tensor_of ex_t312) = ex_t312" "new_tensor ex_t123 (tensor_of ex_t123) = ex_t123"
    by (simp_all add: new_tensor_def ex_t123_def ex_t312_def)
  have vo3: "valid_order [2, 0, 1] 3"
    by (simp add: valid_order_def eval_nat_numeral)
  from Permute_round_trip [OF wf ng d1 ex_order [symmetric] vo]
  obtain q td where
    A: "permute (tensor_of ex_t123) [2, 0, 1] = Inr td" and
    F: "Permute_forward (Context False []) ex_t123 ex_order201 =
          Inr (save_for_backward (Context False []) [SavedInts [2, 0, 1]], new_tensor ex_t123 td)" and
    B: "Permute_backward (save_for_backward (Context False []) [SavedInts [2, 0, 1]])
          (new_tensor ex_t123 td) = Inr (new_tensor ex_t123 (tensor_of ex_t123), 0)"
    by blast
  have td: "td = tensor_of ex_t312" using A pm by simp
  show ?thesis
    using wf vo3 F B nt td by (simp add: save_for_backward_def)
qed

section \<open>MatMul\<close>

lemma transpose_order_eq:
  "2 \<le> n \<Longrightarrow> transpose_order n = Inr (map int [0..<n - 2] @ [int (n - 1), int (n - 2)])"
proof -
  assume "2 \<le> n"
  then obtain m where n: "n = m + 2" by (metis add.commute le_Suc_ex)
  have "[0..<m + 2] = [0..<m] @ [m, Suc m]" by simp
  then have "(map int [0..<m + 2])[m := int (Suc m), Suc m := int m] =
             map int [0..<m] @ [int (Suc m), int m]"
    by (simp add: list_update_append)
  then show ?thesis using n by (simp add: transpose_order_def)
qed

lemma transpose_order_valid:
  assumes "2 \<le> n"
  shows "valid_order (map int [0..<n - 2] @ [int (n - 1), int (n - 2)]) n"
proof -
  obtain m where n: "n = m + 2" using assms by (metis add.commute le_Suc_ex)
  let ?l = "map int [0..<m] @ [int (Suc m), int m]"
  have "sort ?l = map int [0..<m + 2]"
  proof (rule sorted_distinct_set_unique)
    show "sorted (sort ?l)" by simp
    show "distinct (sort ?l)" by (auto simp: distinct_map)
    show "sorted (map int [0..<m + 2])" by (simp add: sorted_map sorted_wrt_iff_nth_less del: upt_Suc)
    show "distinct (map int [0..<m + 2])" by (simp add: distinct_map del: upt_Suc)
    show "set (sort ?l) = set (map int [0..<m + 2])" by auto
  qed
  then show ?thesis using n by (simp add: valid_order_def)
qed

lemma map_nth_transposed:
  assumes "2 \<le> length xs"
  shows "map (\<lambda>d. xs ! nat d) (map int [0..<length xs - 2] @ [int (length xs - 1), int (length xs - 2)])
         = swap_last2 xs"
proof -
  have "map (\<lambda>d. xs ! nat d) (map int [0..<length xs - 2]) = take (length xs - 2) xs"
    by (rule nth_equalityI) simp_all
  then show ?thesis by (simp add: swap_last2_def)
qed

lemma transpose_t_eq:
  assumes "wf_td (tensor_of a)" "2 \<le> dims_of (tensor_of a)"
  shows "transpose_t a =
           Inr (Tensor \<lparr>storage = storage (tensor_of a), shape = swap_last2 (shape (tensor_of a)),
                        strides = swap_last2 (strides (tensor_of a))\<rparr> None (backend a) None)"
proof -
  let ?n = "length (shape (tensor_of a))"
  have ls: "length (strides (tensor_of a)) = ?n" using assms(1) by (simp add: wf_td_def)
  have n2: "2 \<le> ?n" using assms(2) ls by (simp add: dims_of_def)
  have to: "transpose_order (dims_of (tensor_of a)) =
              Inr (map int [0..<?n - 2] @ [int (?n - 1), int (?n - 2)])"
    using transpose_order_eq [OF n2] ls by (simp add: dims_of_def)
  have pm: "permute (tensor_of a) (map int [0..<?n - 2] @ [int (?n - 1), int (?n - 2)]) =
      Inr \<lparr>storage = storage (tensor_of a), shape = swap_last2 (shape (tensor_of a)),
           strides = swap_last2 (strides (tensor_of a))\<rparr>"
    using permute_valid [OF assms(1) transpose_order_valid [OF n2]]
      map_nth_transposed [OF n2] map_nth_transposed [of "strides (tensor_of a)"] n2 ls
    by simp
  show ?thesis using to pm by (simp add: transpose_t_def ebind_def new_tensor_def)
qed

lemma split_last2:
  assumes "2 \<le> length xs"
  shows "xs = take (length xs - 2) xs @ [xs ! (length xs - 2), xs ! (length xs - 1)]"
proof (rule nth_equalityI)
  show "length xs = length (take (length xs - 2) xs @ [xs ! (length xs - 2), xs ! (length xs - 1)])"
    using assms by simp
next
  fix i assume i: "i < length xs"
  consider "i < length xs - 2" | "i = length xs - 2" | "i = length xs - 1"
    using i by linarith
  then show "xs ! i = (take (length xs - 2) xs @ [xs ! (length xs - 2), xs ! (length xs - 1)]) ! i"
  proof cases
    case 1
    then show ?thesis by (simp add: nth_append)
  next
    case 2
    then show ?thesis using assms by (simp add: nth_append)
  next
    case 3
    then show ?thesis using assms by (auto simp: nth_append)
  qed
qed

lemma swap_last2_append: "swap_last2 (xs @ [x, y]) = xs @ [y, x]"
  by (simp add: swap_last2_def nth_append)

lemma index_to_position_swap:
  assumes "length idx = length sd" "2 \<le> length sd"
  shows "index_to_position (swap_last2 idx) (swap_last2 sd) = index_to_position idx sd"
proof -
  obtain i0 x y where idx: "idx = i0 @ [x, y]"
    using split_last2 [of idx] assms by metis
  obtain s0 u v where sd: "sd = s0 @ [u, v]"
    using split_last2 [of sd] assms by metis
  have l: "length i0 = length s0" using assms(1) idx sd by simp
  show ?thesis
    unfolding idx sd swap_last2_append index_to_position_def using l by simp
qed


lemma transpose_t_at:
  assumes "wf_td (tensor_of a)" "2 \<le> dims_of (tensor_of a)" "transpose_t a = Inr aT"
    and "length idx = dims_of (tensor_of a)"
  shows "td_at (tensor_of aT) (swap_last2 idx) = td_at (tensor_of a) idx"
  using assms transpose_t_eq [OF assms(1) assms(2)]
    index_to_position_swap [of idx "strides (tensor_of a)"]
  by (auto simp: td_at_def dims_of_def)

text \<open>
  C5. Let \<open>t1\<close> and \<open>t2\<close> be well-formed operands with at least two axes, saved by
  \<^verbatim>\<open>MatMul.forward\<close> in a Context that tracks gradients. The local \<^verbatim>\<open>transpose\<close>
  succeeds on both and swaps the last two axes: same buffer, shape and strides with
  their last two entries exchanged, so that the element of the transpose at an index
  with its last two entries exchanged is the element of the operand at the index. For
  every kernel \<open>mm\<close> and every \<^verbatim>\<open>grad_output\<close>, \<^verbatim>\<open>MatMul.backward\<close> returns the pair
  of \<open>mm grad_output (transpose t2)\<close> and \<open>mm (transpose t1) grad_output\<close>, raising what
  the kernel raises.
\<close>

theorem MatMul_backward_transposed_products:
  assumes "wf_td (tensor_of t1)" and "wf_td (tensor_of t2)"
    and "2 \<le> dims_of (tensor_of t1)" and "2 \<le> dims_of (tensor_of t2)"
    and "\<not> no_grad c"
  shows "\<exists>t1T t2T.
       transpose_t t1 = Inr t1T \<and> transpose_t t2 = Inr t2T
     \<and> tensor_of t1T = \<lparr>storage = storage (tensor_of t1), shape = swap_last2 (shape (tensor_of t1)),
                          strides = swap_last2 (strides (tensor_of t1))\<rparr>
     \<and> tensor_of t2T = \<lparr>storage = storage (tensor_of t2), shape = swap_last2 (shape (tensor_of t2)),
                          strides = swap_last2 (strides (tensor_of t2))\<rparr>
     \<and> (\<forall>idx. length idx = dims_of (tensor_of t1) \<longrightarrow>
            td_at (tensor_of t1T) (swap_last2 idx) = td_at (tensor_of t1) idx)
     \<and> (\<forall>idx. length idx = dims_of (tensor_of t2) \<longrightarrow>
            td_at (tensor_of t2T) (swap_last2 idx) = td_at (tensor_of t2) idx)
     \<and> MatMul_forward mm c t1 t2 =
          ebind (mm t1 t2) (\<lambda>r. Inr (save_for_backward c [SavedTensor t1, SavedTensor t2], r))
     \<and> MatMul_backward mm (save_for_backward c [SavedTensor t1, SavedTensor t2]) grad_output =
          ebind (mm grad_output t2T) (\<lambda>g1. ebind (mm t1T grad_output) (\<lambda>g2. Inr (g1, g2)))"
proof -
  let ?t1T = "Tensor \<lparr>storage = storage (tensor_of t1), shape = swap_last2 (shape (tensor_of t1)),
                        strides = swap_last2 (strides (tensor_of t1))\<rparr> None (backend t1) None"
  let ?t2T = "Tensor \<lparr>storage = storage (tensor_of t2), shape = swap_last2 (shape (tensor_of t2)),
                        strides = swap_last2 (strides (tensor_of t2))\<rparr> None (backend t2) None"
  have e1: "transpose_t t1 = Inr ?t1T" using transpose_t_eq [OF assms(1) assms(3)] .
  have e2: "transpose_t t2 = Inr ?t2T" using transpose_t_eq [OF assms(2) assms(4)] .
  have a1: "\<forall>idx. length idx = dims_of (tensor_of t1) \<longrightarrow>
            td_at (tensor_of ?t1T) (swap_last2 idx) = td_at (tensor_of t1) idx"
    using transpose_t_at [OF assms(1) assms(3) e1] by blast
  have a2: "\<forall>idx. length idx = dims_of (tensor_of t2) \<longrightarrow>
            td_at (tensor_of ?t2T) (swap_last2 idx) = td_at (tensor_of t2) idx"
    using transpose_t_at [OF assms(2) assms(4) e2] by blast
  have f: "MatMul_forward mm c t1 t2 =
          ebind (mm t1 t2) (\<lambda>r. Inr (save_for_backward c [SavedTensor t1, SavedTensor t2], r))"
    by (simp add: MatMul_forward_def)
  have b: "MatMul_backward mm (save_for_backward c [SavedTensor t1, SavedTensor t2]) grad_output =
          ebind (mm grad_output ?t2T) (\<lambda>g1. ebind (mm ?t1T grad_output) (\<lambda>g2. Inr (g1, g2)))"
    using e1 e2
    by (simp add: MatMul_backward_def save_for_backward_def ebind_def split: sum.splits)
  have s1: "tensor_of ?t1T = \<lparr>storage = storage (tensor_of t1), shape = swap_last2 (shape (tensor_of t1)),
                          strides = swap_last2 (strides (tensor_of t1))\<rparr>" by simp
  have s2: "tensor_of ?t2T = \<lparr>storage = storage (tensor_of t2), shape = swap_last2 (shape (tensor_of t2)),
                          strides = swap_last2 (strides (tensor_of t2))\<rparr>" by simp
  from e1 e2 s1 s2 a1 a2 f b show ?thesis by blast
qed


lemmas mm_defs = matrix_multiply_def ebind_def Let_def Tensor_make_def TensorData_def operators_prod_def td_at_def
  broadcast_index_def index_to_position_def shape_broadcast_def eval_nat_numeral

lemma mm_G_BT: "matrix_multiply ex_G ex_BT =
   Inr (Tensor \<lparr>storage = [11, 15, 11, 15], shape = [2, 2], strides = [2, 1]\<rparr> None SimpleBackend None)"
  by (simp add: ex_G_def ex_BT_def mm_defs)

lemma mm_AT_G: "matrix_multiply ex_AT ex_G =
   Inr (Tensor \<lparr>storage = [4, 4, 6, 6], shape = [2, 2], strides = [2, 1]\<rparr> None SimpleBackend None)"
  by (simp add: ex_G_def ex_AT_def mm_defs)

lemma ex_transposes: "transpose_t ex_A = Inr ex_AT" "transpose_t ex_B = Inr ex_BT"
  by (simp_all add: transpose_t_def transpose_order_def permute_def new_tensor_def ex_A_def ex_B_def ex_AT_def ex_BT_def
      dims_of_def ebind_def TensorData_def operators_prod_def eval_nat_numeral)

text \<open>With the 2 by 2 matrices A = (1 2; 3 4), B = (5 6; 7 8) and G all ones, under the
  batched product: G times B transposed is (11 15; 11 15), A transposed times G is
  (4 4; 6 6).\<close>

theorem MatMul_backward_witness:
  "wf_td (tensor_of ex_A) \<and> wf_td (tensor_of ex_B)
   \<and> 2 \<le> dims_of (tensor_of ex_A) \<and> 2 \<le> dims_of (tensor_of ex_B)
   \<and> transpose_t ex_A = Inr ex_AT \<and> transpose_t ex_B = Inr ex_BT
   \<and> MatMul_backward matrix_multiply (Context False [SavedTensor ex_A, SavedTensor ex_B]) ex_G =
       Inr (Tensor \<lparr>storage = [11, 15, 11, 15], shape = [2, 2], strides = [2, 1]\<rparr> None SimpleBackend None,
            Tensor \<lparr>storage = [4, 4, 6, 6], shape = [2, 2], strides = [2, 1]\<rparr> None SimpleBackend None)"
proof -
  have wfA: "wf_td (tensor_of ex_A)" and wfB: "wf_td (tensor_of ex_B)"
    by (simp_all add: wf_td_def ex_A_def ex_B_def operators_prod_def)
  have dA: "2 \<le> dims_of (tensor_of ex_A)" and dB: "2 \<le> dims_of (tensor_of ex_B)"
    by (simp_all add: dims_of_def ex_A_def ex_B_def)
  have ng: "\<not> no_grad (Context False [])" by simp
  from MatMul_backward_transposed_products [OF wfA wfB dA dB ng, of matrix_multiply ex_G]
  obtain t1T t2T where
    T: "transpose_t ex_A = Inr t1T" "transpose_t ex_B = Inr t2T" and
    B: "MatMul_backward matrix_multiply
          (save_for_backward (Context False []) [SavedTensor ex_A, SavedTensor ex_B]) ex_G =
        ebind (matrix_multiply ex_G t2T)
          (\<lambda>g1. ebind (matrix_multiply t1T ex_G) (\<lambda>g2. Inr (g1, g2)))"
    by blast
  have t: "t1T = ex_AT" "t2T = ex_BT" using T ex_transposes by simp_all
  show ?thesis
    using wfA wfB dA dB ex_transposes B t mm_G_BT mm_AT_G
    by (simp add: save_for_backward_def ebind_def)
qed

section \<open>Row-major indexing\<close>

lemma prod_list_pos: "\<forall>s\<in>set sh. 0 < s \<Longrightarrow> 0 < prod_list (sh :: int list)"
  by (induction sh) auto

lemma length_to_index: "length (to_index i sh) = length sh"
  by (induction sh) auto

lemma position_to_index:
  assumes "\<forall>s\<in>set sh. 0 < s"
  shows "index_to_position (to_index i sh) (strides_from_shape sh) = i mod prod_list sh"
  using assms
proof (induction sh)
  case Nil
  then show ?case by (simp add: index_to_position_def)
next
  case (Cons s ss)
  have ih: "index_to_position (to_index i ss) (strides_from_shape ss) = i mod prod_list ss"
    using Cons by simp
  have "i mod (prod_list ss * s) = prod_list ss * (i div prod_list ss mod s) + i mod prod_list ss"
    using Cons.prems by (simp add: zmod_zmult2_eq)
  then show ?case
    using ih by (simp add: index_to_position_def operators_prod_eq mult.commute)
qed

lemma position_to_index_id:
  assumes "\<forall>s\<in>set sh. 0 < s" "0 \<le> i" "i < prod_list sh"
  shows "index_to_position (to_index i sh) (strides_from_shape sh) = i"
  using position_to_index [OF assms(1)] assms(2,3) by simp

lemma valid_index_Cons:
  "valid_index (x # xs) (s # ss) \<longleftrightarrow> 0 \<le> x \<and> x < s \<and> valid_index xs ss"
  by (auto simp: valid_index_def)

lemma valid_index_Nil: "valid_index idx [] \<longleftrightarrow> idx = []" "valid_index [] sh \<longleftrightarrow> sh = []"
  by (auto simp: valid_index_def)

lemma valid_index_pos: "valid_index idx sh \<Longrightarrow> \<forall>s\<in>set sh. 0 < s"
proof (induction sh arbitrary: idx)
  case Nil
  then show ?case by simp
next
  case (Cons s ss)
  then obtain x xs where idx: "idx = x # xs"
    by (cases idx) (auto simp: valid_index_def)
  with Cons show ?case by (auto simp: valid_index_Cons)
qed

lemma to_index_shift:
  assumes "\<forall>s\<in>set sh. 0 < s"
  shows "to_index (i + m * prod_list sh) sh = to_index i sh"
  using assms
proof (induction sh arbitrary: m)
  case Nil
  then show ?case by simp
next
  case (Cons s ss)
  have P: "0 < prod_list ss" using Cons.prems by (simp add: prod_list_pos)
  have "(i + m * (s * prod_list ss)) div prod_list ss = i div prod_list ss + m * s"
    using P by (simp add: mult.assoc [symmetric])
  moreover have "to_index (i + (m * s) * prod_list ss) ss = to_index i ss"
    using Cons by simp
  ultimately show ?case
    by (simp add: operators_prod_eq mult.assoc)
qed

lemma index_position_bounds:
  assumes "valid_index idx sh"
  shows "0 \<le> index_to_position idx (strides_from_shape sh)
       \<and> index_to_position idx (strides_from_shape sh) < prod_list sh"
  using assms
proof (induction sh arbitrary: idx)
  case Nil
  then show ?case by (simp add: valid_index_Nil index_to_position_def)
next
  case (Cons s ss)
  then obtain x xs where idx: "idx = x # xs"
    by (cases idx) (auto simp: valid_index_def)
  have v: "0 \<le> x" "x < s" "valid_index xs ss"
    using Cons.prems idx by (simp_all add: valid_index_Cons)
  let ?k = "index_to_position xs (strides_from_shape ss)"
  have ih: "0 \<le> ?k" "?k < prod_list ss" using Cons.IH [OF v(3)] by simp_all
  have eq: "index_to_position idx (strides_from_shape (s # ss)) = x * prod_list ss + ?k"
    by (simp add: idx index_to_position_def operators_prod_eq)
  have P: "0 < prod_list ss" using ih by linarith
  have lo: "0 \<le> x * prod_list ss + ?k" using v(1) P ih(1) by simp
  have "x * prod_list ss \<le> (s - 1) * prod_list ss"
    using v(2) P by (simp add: mult_right_mono)
  then have hi: "x * prod_list ss + ?k < s * prod_list ss"
    using ih(2) by (simp add: algebra_simps)
  show ?case using eq lo hi by simp
qed

lemma to_index_position:
  assumes "valid_index idx sh"
  shows "to_index (index_to_position idx (strides_from_shape sh)) sh = idx"
  using assms
proof (induction sh arbitrary: idx)
  case Nil
  then show ?case by (simp add: valid_index_Nil)
next
  case (Cons s ss)
  then obtain x xs where idx: "idx = x # xs"
    by (cases idx) (auto simp: valid_index_def)
  have v: "0 \<le> x" "x < s" "valid_index xs ss"
    using Cons.prems idx by (simp_all add: valid_index_Cons)
  let ?k = "index_to_position xs (strides_from_shape ss)"
  have b: "0 \<le> ?k" "?k < prod_list ss" using index_position_bounds [OF v(3)] by simp_all
  have pos: "\<forall>s\<in>set ss. 0 < s" using valid_index_pos [OF v(3)] .
  have eq: "index_to_position idx (strides_from_shape (s # ss)) = ?k + x * prod_list ss"
    by (simp add: idx index_to_position_def operators_prod_eq)
  have d: "(?k + x * prod_list ss) div prod_list ss = x"
    using b by simp
  have t: "to_index (?k + x * prod_list ss) ss = xs"
    using to_index_shift [OF pos, of ?k x] Cons.IH [OF v(3)] by simp
  show ?case
    unfolding eq using d t v idx by (simp add: operators_prod_eq)
qed

lemma to_index_valid:
  assumes "\<forall>s\<in>set sh. 0 < s"
  shows "valid_index (to_index i sh) sh"
  using assms
  by (induction sh) (auto simp: valid_index_Cons valid_index_Nil)

lemma valid_index_nth:
  "valid_index idx sh \<Longrightarrow> j < length sh \<Longrightarrow> 0 \<le> idx ! j \<and> idx ! j < sh ! j"
proof (induction sh arbitrary: idx j)
  case Nil
  then show ?case by simp
next
  case (Cons s ss)
  then obtain x xs where idx: "idx = x # xs"
    by (cases idx) (auto simp: valid_index_def)
  with Cons show ?case
    by (cases j) (auto simp: valid_index_Cons)
qed

lemma td_index_valid:
  "td_index td idx =
     (if valid_index idx (shape td) then Inr (index_to_position idx (strides td)) else Inl IndexingError)"
  by (auto simp: td_index_def valid_index_def)

lemma broadcast_rev_same: "broadcast_rev xs xs = Inr xs"
  by (induction xs) (auto simp: ebind_def)

lemma shape_broadcast_same: "shape_broadcast sh sh = Inr sh"
  by (simp add: shape_broadcast_def broadcast_rev_same ebind_def)

lemma broadcast_index_same:
  assumes "valid_index idx sh"
  shows "broadcast_index idx sh sh = idx"
proof (rule nth_equalityI)
  show "length (broadcast_index idx sh sh) = length idx"
    using assms by (simp add: broadcast_index_def valid_index_def)
next
  fix j assume "j < length (broadcast_index idx sh sh)"
  then have j: "j < length sh" by (simp add: broadcast_index_def)
  have "0 \<le> idx ! j \<and> idx ! j < sh ! j" using valid_index_nth [OF assms j] .
  then show "broadcast_index idx sh sh ! j = idx ! j"
    using j by (auto simp: broadcast_index_def)
qed

lemma Tensor_make_map:
  assumes "0 \<le> operators_prod sh"
  shows "Tensor_make (map g [0..<nat (operators_prod sh)]) sh be =
           Inr (Tensor \<lparr>storage = map g [0..<nat (operators_prod sh)], shape = sh,
                        strides = strides_from_shape sh\<rparr> None be None)"
  using assms by (simp add: Tensor_make_def TensorData_def ebind_def length_strides_from_shape)

lemma tensor_zip_same_shape:
  assumes "\<forall>s\<in>set sh. 0 < s" "shape (tensor_of a) = sh" "shape (tensor_of b) = sh"
  shows "tensor_zip fn a b =
     Inr (Tensor \<lparr>storage = map (\<lambda>i. fn (td_at (tensor_of a) (to_index (int i) sh))
                                        (td_at (tensor_of b) (to_index (int i) sh)))
                              [0..<nat (operators_prod sh)],
                  shape = sh, strides = strides_from_shape sh\<rparr> None (backend a) None)"
proof -
  have p: "0 \<le> operators_prod sh"
    using prod_list_pos [OF assms(1)] by (simp add: operators_prod_eq)
  have b: "\<And>i. broadcast_index (to_index i sh) sh sh = to_index i sh"
    using broadcast_index_same [OF to_index_valid [OF assms(1)]] .
  show ?thesis
    using assms(2,3) Tensor_make_map [OF p]
    by (simp add: tensor_zip_def shape_broadcast_same ebind_def b Let_def)
qed

lemma tensor_map_eq:
  assumes "0 \<le> operators_prod (shape (tensor_of a))"
  shows "tensor_map fn a =
     Inr (Tensor \<lparr>storage = map (\<lambda>i. fn (td_at (tensor_of a) (to_index (int i) (shape (tensor_of a)))))
                              [0..<nat (operators_prod (shape (tensor_of a)))],
                  shape = shape (tensor_of a),
                  strides = strides_from_shape (shape (tensor_of a))\<rparr> None (backend a) None)"
  using Tensor_make_map [OF assms] by (simp add: tensor_map_def Let_def)

lemma td_at_contiguous:
  assumes "valid_index idx sh"
  shows "td_at \<lparr>storage = map g [0..<nat (operators_prod sh)], shape = sh,
               strides = strides_from_shape sh\<rparr> idx
         = g (nat (index_to_position idx (strides_from_shape sh)))"
  using index_position_bounds [OF assms]
  by (simp add: td_at_def operators_prod_eq)

lemma Function_apply_Inr:
  assumes "forward (Context (\<not> list_ex requires_grad vals) []) (map detach vals) = Inr (c1, r)"
  shows "Function_apply forward cls vals =
          Inr (Tensor (tensor_of r)
                 (if list_ex requires_grad vals then Some (History (Some cls) (Some c1) vals) else None)
                 (backend r) None)"
  using assms apply_loop_eq [of vals "[]" False] by (simp add: Function_apply_def)

section \<open>The arithmetic of tensors, elementwise\<close>

lemma td_at_zip_result:
  assumes "valid_index idx sh"
  shows "td_at \<lparr>storage = map (\<lambda>i. g (to_index (int i) sh)) [0..<nat (operators_prod sh)],
               shape = sh, strides = strides_from_shape sh\<rparr> idx = g idx"
proof -
  let ?k = "index_to_position idx (strides_from_shape sh)"
  have b: "0 \<le> ?k" "?k < prod_list sh" using index_position_bounds [OF assms] by simp_all
  have "td_at \<lparr>storage = map (\<lambda>i. g (to_index (int i) sh)) [0..<nat (operators_prod sh)],
               shape = sh, strides = strides_from_shape sh\<rparr> idx = g (to_index (int (nat ?k)) sh)"
    using td_at_contiguous [OF assms, of "\<lambda>i. g (to_index (int i) sh)"] by simp
  then show ?thesis using b to_index_position [OF assms] by simp
qed

lemma tensor_add_at:
  assumes "\<forall>s\<in>set sh. 0 < s" "shape (tensor_of a) = sh" "shape (tensor_of b) = sh"
  shows "\<exists>t. tensor_add a b = Inr t \<and> shape (tensor_of t) = sh \<and> backend t = backend a
           \<and> (\<forall>idx. valid_index idx sh \<longrightarrow>
                 td_at (tensor_of t) idx = td_at (tensor_of a) idx + td_at (tensor_of b) idx)"
proof -
  let ?td = "\<lparr>storage = map (\<lambda>i. td_at (tensor_of a) (to_index (int i) sh)
                                  + td_at (tensor_of b) (to_index (int i) sh))
                              [0..<nat (operators_prod sh)],
                  shape = sh, strides = strides_from_shape sh\<rparr>"
  let ?c = "Context (\<not> list_ex requires_grad [a, b]) []"
  have z: "add_zip (detach a) (detach b) = Inr (Tensor ?td None (backend a) None)"
    using tensor_zip_same_shape [OF assms(1), of "detach a" "detach b" "(+)"] assms(2,3)
    by (simp add: add_zip_def detach_def)
  have f: "Add_forward_vals ?c (map detach [a, b]) = Inr (?c, Tensor ?td None (backend a) None)"
    using z by (simp add: Add_forward_vals_def Add_forward_def ebind_def)
  have ap: "tensor_add a b =
      Inr (Tensor ?td (if list_ex requires_grad [a, b]
                       then Some (History (Some Add_cls) (Some ?c) [a, b]) else None) (backend a) None)"
    unfolding tensor_add_def
    using Function_apply_Inr [where forward = Add_forward_vals and vals = "[a, b]" and cls = Add_cls, OF f]
    by simp
  have at: "\<forall>idx. valid_index idx sh \<longrightarrow>
                 td_at ?td idx = td_at (tensor_of a) idx + td_at (tensor_of b) idx"
    using td_at_zip_result [of _ sh "\<lambda>idx. td_at (tensor_of a) idx + td_at (tensor_of b) idx"]
    by simp
  show ?thesis using ap at by simp
qed

lemma tensor_neg_at:
  assumes "\<forall>s\<in>set sh. 0 < s" "shape (tensor_of a) = sh"
  shows "\<exists>t. tensor_neg a = Inr t \<and> shape (tensor_of t) = sh
           \<and> (\<forall>idx. valid_index idx sh \<longrightarrow> td_at (tensor_of t) idx = - td_at (tensor_of a) idx)"
proof -
  let ?td = "\<lparr>storage = map (\<lambda>i. - td_at (tensor_of a) (to_index (int i) sh))
                              [0..<nat (operators_prod sh)],
                  shape = sh, strides = strides_from_shape sh\<rparr>"
  let ?c = "Context (\<not> list_ex requires_grad [a]) []"
  have p: "0 \<le> operators_prod (shape (tensor_of (detach a)))"
    using prod_list_pos [OF assms(1)] assms(2) by (simp add: operators_prod_eq detach_def)
  have z: "neg_map (detach a) = Inr (Tensor ?td None (backend a) None)"
    using tensor_map_eq [OF p, of uminus] assms(2) by (simp add: neg_map_def detach_def)
  have f: "Neg_forward_vals ?c (map detach [a]) = Inr (?c, Tensor ?td None (backend a) None)"
    using z by (simp add: Neg_forward_vals_def Neg_forward_def ebind_def)
  have ap: "tensor_neg a =
      Inr (Tensor ?td (if list_ex requires_grad [a]
                       then Some (History (Some Neg_cls) (Some ?c) [a]) else None) (backend a) None)"
    unfolding tensor_neg_def
    using Function_apply_Inr [where forward = Neg_forward_vals and vals = "[a]" and cls = Neg_cls, OF f]
    by simp
  have at: "\<forall>idx. valid_index idx sh \<longrightarrow> td_at ?td idx = - td_at (tensor_of a) idx"
    using td_at_zip_result [of _ sh "\<lambda>idx. - td_at (tensor_of a) idx"] by simp
  show ?thesis using ap at by simp
qed

lemma tensor_sub_at:
  assumes "\<forall>s\<in>set sh. 0 < s" "shape (tensor_of a) = sh" "shape (tensor_of b) = sh"
  shows "\<exists>t. tensor_sub a b = Inr t \<and> shape (tensor_of t) = sh \<and> backend t = backend a
           \<and> (\<forall>idx. valid_index idx sh \<longrightarrow>
                 td_at (tensor_of t) idx = td_at (tensor_of a) idx - td_at (tensor_of b) idx)"
proof -
  from tensor_neg_at [OF assms(1) assms(3)] obtain nb where nb:
    "tensor_neg b = Inr nb" "shape (tensor_of nb) = sh"
    "\<forall>idx. valid_index idx sh \<longrightarrow> td_at (tensor_of nb) idx = - td_at (tensor_of b) idx"
    by blast
  from tensor_add_at [OF assms(1) assms(2) nb(2)] obtain t where t:
    "tensor_add a nb = Inr t" "shape (tensor_of t) = sh" "backend t = backend a"
    "\<forall>idx. valid_index idx sh \<longrightarrow>
        td_at (tensor_of t) idx = td_at (tensor_of a) idx + td_at (tensor_of nb) idx"
    by blast
  have "tensor_sub a b = Inr t" using nb(1) t(1) by (simp add: tensor_sub_def ebind_def)
  then show ?thesis using t nb(3) by simp
qed

lemma up_tensor:
  assumes "wf_td (tensor_of x)" "valid_index ind (shape (tensor_of x))"
  shows "\<exists>up. ebind (zeros (shape (tensor_of x)) SimpleBackend) (\<lambda>up0. tensor_setitem up0 ind epsilon) = Inr up
           \<and> shape (tensor_of up) = shape (tensor_of x)
           \<and> (\<forall>idx. valid_index idx (shape (tensor_of x)) \<longrightarrow>
                 td_at (tensor_of up) idx = (if idx = ind then epsilon else 0))"
proof -
  let ?sh = "shape (tensor_of x)"
  let ?n = "nat (operators_prod ?sh)"
  let ?k = "index_to_position ind (strides_from_shape ?sh)"
  let ?td = "\<lparr>storage = (replicate ?n 0)[nat ?k := epsilon], shape = ?sh,
              strides = strides_from_shape ?sh\<rparr>"
  have p: "0 \<le> operators_prod ?sh" using wf_prod_nonneg [OF assms(1)] .
  have kb: "0 \<le> ?k" "?k < prod_list ?sh" using index_position_bounds [OF assms(2)] by simp_all
  have e: "ebind (zeros ?sh SimpleBackend) (\<lambda>up0. tensor_setitem up0 ind epsilon)
             = Inr (Tensor ?td None SimpleBackend None)"
    using zeros_eq [OF p, of SimpleBackend] assms(2)
    by (simp add: ebind_def tensor_setitem_def td_set_def td_index_valid)
  have at: "\<forall>idx. valid_index idx ?sh \<longrightarrow> td_at ?td idx = (if idx = ind then epsilon else 0)"
  proof (intro allI impI)
    fix idx assume v: "valid_index idx ?sh"
    let ?j = "index_to_position idx (strides_from_shape ?sh)"
    have jb: "0 \<le> ?j" "?j < prod_list ?sh" using index_position_bounds [OF v] by simp_all
    have jn: "nat ?j < ?n" using jb by (simp add: operators_prod_eq)
    have "?j = ?k \<longleftrightarrow> idx = ind"
      using to_index_position [OF v] to_index_position [OF assms(2)] by metis
    then have "nat ?j = nat ?k \<longleftrightarrow> idx = ind" using jb kb by auto
    then show "td_at ?td idx = (if idx = ind then epsilon else 0)"
      using jn by (auto simp: td_at_def nth_list_update)
  qed
  show ?thesis using e at by simp
qed

lemma perturb_general:
  assumes "0 \<le> arg"
    and "n \<le> nat arg \<and> nat arg < n + length vals \<longrightarrow> op (vals ! (nat arg - n)) up = Inr xp"
  shows "emap (\<lambda>(j, y). if int j \<noteq> arg then Inr y else op y up) (enumerate n vals) =
           Inr (if n \<le> nat arg \<and> nat arg < n + length vals then vals[nat arg - n := xp] else vals)"
  using assms(2)
proof (induction vals arbitrary: n)
  case Nil
  then show ?case by simp
next
  case (Cons v vs)
  have ih: "emap (\<lambda>(j, y). if int j \<noteq> arg then Inr y else op y up) (enumerate (Suc n) vs) =
           Inr (if Suc n \<le> nat arg \<and> nat arg < Suc n + length vs then vs[nat arg - Suc n := xp] else vs)"
  proof (rule Cons.IH)
    show "Suc n \<le> nat arg \<and> nat arg < Suc n + length vs \<longrightarrow> op (vs ! (nat arg - Suc n)) up = Inr xp"
    proof
      assume h: "Suc n \<le> nat arg \<and> nat arg < Suc n + length vs"
      then have "op ((v # vs) ! (nat arg - n)) up = Inr xp" using Cons.prems by simp
      moreover have "nat arg - n = Suc (nat arg - Suc n)" using h by arith
      ultimately show "op (vs ! (nat arg - Suc n)) up = Inr xp" by simp
    qed
  qed
  show ?case
  proof (cases "int n = arg")
    case True
    then have n: "nat arg = n" by simp
    then have "op v up = Inr xp" using Cons.prems by simp
    then show ?thesis using True n ih by (simp add: ebind_def)
  next
    case False
    then have ne: "nat arg \<noteq> n" using assms(1) by auto
    show ?thesis
    proof (cases "Suc n \<le> nat arg \<and> nat arg < Suc n + length vs")
      case True
      then have "nat arg - n = Suc (nat arg - Suc n)" by arith
      then show ?thesis using False True ih by (simp add: ebind_def)
    next
      case F2: False
      then have nr: "\<not> (n \<le> nat arg \<and> nat arg < n + length (v # vs))" using ne by auto
      have ih': "emap (\<lambda>(j, y). if int j \<noteq> arg then Inr y else op y up) (enumerate (Suc n) vs) = Inr vs"
        using ih F2 by auto
      show ?thesis using False nr ih' by (auto simp: ebind_def)
    qed
  qed
qed

lemma perturb_at:
  assumes "0 \<le> arg" "arg < int (length vals)" "op (vals ! nat arg) up = Inr xp"
  shows "perturb op vals arg up = Inr (vals[nat arg := xp])"
proof -
  have lt: "nat arg < length vals" using assms(1,2) by simp
  show ?thesis
    using perturb_general [OF assms(1), of 0 vals op up xp] assms(3) lt
    by (simp add: perturb_def)
qed

lemma tensor_getitem_valid:
  "valid_index idx (shape (tensor_of t)) \<Longrightarrow> tensor_getitem t idx = Inr (td_at (tensor_of t) idx)"
  by (simp add: tensor_getitem_def td_get_def td_index_valid ebind_def td_at_def)

lemma tensor_sum_value:
  "\<exists>h. tensor_sum t =
     Inr (Tensor \<lparr>storage = [sum_list (to_numpy t)], shape = [1], strides = [1]\<rparr> h (backend t) None)"
proof -
  let ?c = "Context (\<not> list_ex requires_grad [t]) []"
  let ?r = "Tensor \<lparr>storage = [sum_list (to_numpy t)], shape = [1], strides = [1]\<rparr> None (backend t) None"
  have n: "to_numpy (detach t) = to_numpy t" by (simp add: to_numpy_def detach_def)
  have f: "Sum_all_forward_vals ?c (map detach [t]) = Inr (?c, ?r)"
    using n
    by (simp add: Sum_all_forward_vals_def Tensor_make_def TensorData_def ebind_def Let_def
          operators_prod_def detach_def)
  show ?thesis
    unfolding tensor_sum_def
    using Function_apply_Inr [where forward = Sum_all_forward_vals and vals = "[t]" and cls = Sum_cls, OF f]
    by simp
qed

lemma scalar_difference:
  assumes "tensor_of s1 = \<lparr>storage = [a], shape = [1], strides = [1]\<rparr>"
    and "tensor_of s2 = \<lparr>storage = [b], shape = [1], strides = [1]\<rparr>"
  shows "ebind (tensor_sub s1 s2) (\<lambda>delta. tensor_getitem delta [0]) = Inr (a - b)"
proof -
  have pos: "\<forall>s\<in>set [1::int]. 0 < s" by simp
  have v: "valid_index [0] [1]" by (simp add: valid_index_def)
  from tensor_sub_at [OF pos, of s1 s2] assms obtain t where t:
    "tensor_sub s1 s2 = Inr t" "shape (tensor_of t) = [1]"
    "\<forall>idx. valid_index idx [1] \<longrightarrow>
        td_at (tensor_of t) idx = td_at (tensor_of s1) idx - td_at (tensor_of s2) idx"
    by auto
  have "td_at (tensor_of t) [0] = a - b"
    using t(3) v assms by (simp add: td_at_def index_to_position_def)
  then show ?thesis
    using t(1) t(2) v tensor_getitem_valid [of "[0]" t] by (simp add: ebind_def)
qed

section \<open>The gradient-check harness\<close>

lemma check_loop_iff:
  "fst (check_loop f sample vals i xs r) = Inr () \<longleftrightarrow>
     (\<forall>j<length xs. within_tolerance f vals (i + j) (xs ! j)
        (fst (sample (tensor_of (xs ! j)) (rng_at sample xs r j))))"
proof (induction xs arbitrary: i r)
  case Nil
  then show ?case by simp
next
  case (Cons x xs)
  obtain ind r1 where sm: "sample (tensor_of x) r = (ind, r1)" by (cases "sample (tensor_of x) r")
  have split_all: "\<And>P. (\<forall>j<Suc (length xs). P j) \<longleftrightarrow> P 0 \<and> (\<forall>j<length xs. P (Suc j))"
    by (metis less_Suc_eq_0_disj)
  have rest: "fst (check_loop f sample vals (Suc i) xs r1) = Inr () \<longleftrightarrow>
     (\<forall>j<length xs. within_tolerance f vals (i + Suc j) (xs ! j)
        (fst (sample (tensor_of (xs ! j)) (rng_at sample xs r1 j))))"
    using Cons.IH [of "Suc i" r1] by simp
  have here: "fst (check_loop f sample vals i (x # xs) r) = Inr () \<longleftrightarrow>
      within_tolerance f vals i x ind \<and> fst (check_loop f sample vals (Suc i) xs r1) = Inr ()"
    using sm
    by (auto simp: within_tolerance_def assert_allclose_def split: sum.splits option.splits if_splits)
  show ?case
    unfolding here rest using sm by (simp add: split_all)
qed

lemma length_deposit: "length (deposit slots vals) = length vals"
  by (simp add: deposit_def)

lemma deposit_nth:
  "j < length vals \<Longrightarrow>
   deposit slots vals ! j =
     Tensor (tensor_of (vals ! j)) (history (vals ! j)) (backend (vals ! j)) (slots j)"
  by (simp add: deposit_def nth_enumerate_eq)

lemma prepared_arg:
  "requires_grad (zero_grad_reset (requires_grad_set True x))
   \<and> grad (zero_grad_reset (requires_grad_set True x)) = None
   \<and> tensor_of (zero_grad_reset (requires_grad_set True x)) = tensor_of x
   \<and> backend (zero_grad_reset (requires_grad_set True x)) = backend x"
  by (simp add: zero_grad_reset_def requires_grad_set_def requires_grad_def)

lemma grad_check_cases:
  "grad_check f backward seed sample s =
     (case f (args (grad_check_prepare seed s)) of
        Inl e \<Rightarrow> (Inl e, grad_check_prepare seed s)
      | Inr out \<Rightarrow>
          (case tensor_sum out of
             Inl e \<Rightarrow> (Inl e, grad_check_prepare seed s)
           | Inr loss \<Rightarrow>
               (case backward loss (args (grad_check_prepare seed s)) of
                  Inl e \<Rightarrow> (Inl e, grad_check_prepare seed s)
                | Inr slots \<Rightarrow>
                    (fst (check_loop f sample (deposit slots (args (grad_check_prepare seed s))) 0
                            (deposit slots (args (grad_check_prepare seed s))) (seed 10)),
                     \<lparr>args = deposit slots (args (grad_check_prepare seed s)),
                      rng = snd (check_loop f sample (deposit slots (args (grad_check_prepare seed s))) 0
                            (deposit slots (args (grad_check_prepare seed s))) (seed 10))\<rparr>))))"
  by (simp add: grad_check_def Let_def grad_check_prepare_def split: sum.splits prod.splits)

lemma grad_check_passes_iff:
  "fst (grad_check f backward seed sample s) = Inr () \<longleftrightarrow>
     (\<exists>out loss slots.
        f (args (grad_check_prepare seed s)) = Inr out
      \<and> tensor_sum out = Inr loss
      \<and> backward loss (args (grad_check_prepare seed s)) = Inr slots
      \<and> (\<forall>j<length (args s).
           within_tolerance f (deposit slots (args (grad_check_prepare seed s))) j
             (deposit slots (args (grad_check_prepare seed s)) ! j)
             (fst (sample (tensor_of (args s ! j))
                (rng_at sample (deposit slots (args (grad_check_prepare seed s))) (seed 10) j)))))"
proof -
  let ?s1 = "grad_check_prepare seed s"
  have len: "length (args ?s1) = length (args s)" by (simp add: grad_check_prepare_def)
  have td: "\<And>slots j. j < length (args s) \<Longrightarrow>
      tensor_of (deposit slots (args ?s1) ! j) = tensor_of (args s ! j)"
    using len by (simp add: deposit_nth) (simp add: grad_check_prepare_def prepared_arg)
  have loop: "\<And>slots. fst (check_loop f sample (deposit slots (args ?s1)) 0
                            (deposit slots (args ?s1)) (seed 10)) = Inr () \<longleftrightarrow>
      (\<forall>j<length (args s).
           within_tolerance f (deposit slots (args ?s1)) j (deposit slots (args ?s1) ! j)
             (fst (sample (tensor_of (args s ! j))
                (rng_at sample (deposit slots (args ?s1)) (seed 10) j))))"
    using check_loop_iff [of f sample _ 0 _ "seed 10"] len td
    by (simp add: length_deposit)
  show ?thesis
    unfolding grad_check_cases using loop
    by (auto split: sum.splits)
qed


lemmas harness_defs = grad_central_difference_def py_nth_def perturb_def tensor_add_def tensor_sub_def
  tensor_neg_def tensor_sum_def tensor_mul_def tensor_setitem_def tensor_getitem_def td_set_def td_get_def
  td_index_def Function_apply_def Add_forward_vals_def Add_forward_def Neg_forward_vals_def
  Neg_forward_def Mul_forward_vals_def Mul_forward_def Sum_all_forward_vals_def add_zip_def neg_map_def
  mul_zip_def zeros_def to_numpy_def

lemma ex_square_estimate:
  "grad_central_difference ex_square [ex_checked5] 0 (1 / 10 ^ 6) [0] = Inr 10"
  by (simp add: ex_square_def ex_checked5_def harness_defs eval_defs field_simps)

lemma ex_grad_check_run:
  "grad_check ex_square ex_engine ex_seed ex_sample \<lparr>args = [ex_const5], rng = 77\<rparr> =
     (Inr (), \<lparr>args = [ex_checked5], rng = 11\<rparr>)"
proof -
  have prep: "grad_check_prepare ex_seed \<lparr>args = [ex_const5], rng = 77\<rparr> =
      \<lparr>args = [Tensor \<lparr>storage = [5], shape = [1], strides = [1]\<rparr> (Some (History None None []))
                  SimpleBackend None], rng = 10\<rparr>"
    by (simp add: grad_check_prepare_def ex_const5_def zero_grad_reset_def requires_grad_set_def ex_seed_def)
  have dep: "\<And>loss. \<exists>slots. ex_engine loss [Tensor \<lparr>storage = [5], shape = [1], strides = [1]\<rparr> (Some (History None None []))
                  SimpleBackend None] = Inr slots
        \<and> deposit slots [Tensor \<lparr>storage = [5], shape = [1], strides = [1]\<rparr> (Some (History None None []))
                  SimpleBackend None] = [ex_checked5]"
    by (simp add: ex_engine_def deposit_def ex_checked5_def ex_grad10_def to_numpy_def
          size_of_def operators_prod_def td_at_def index_to_position_def)
  have f: "\<exists>out. ex_square [Tensor \<lparr>storage = [5], shape = [1], strides = [1]\<rparr> (Some (History None None []))
                  SimpleBackend None] = Inr out"
    by (simp add: ex_square_def harness_defs eval_defs)
  have loop: "check_loop ex_square ex_sample [ex_checked5] 0 [ex_checked5] 10 = (Inr (), 11)"
    using ex_square_estimate
    by (simp add: ex_sample_def ex_checked5_def ex_grad10_def tensor_getitem_def td_get_def td_index_def
          index_to_position_def ebind_def assert_allclose_def)
  obtain out where out: "ex_square [Tensor \<lparr>storage = [5], shape = [1], strides = [1]\<rparr> (Some (History None None []))
                  SimpleBackend None] = Inr out" using f by blast
  obtain h where sm: "tensor_sum out = Inr (Tensor \<lparr>storage = [sum_list (to_numpy out)], shape = [1], strides = [1]\<rparr> h (backend out) None)"
    using tensor_sum_value by blast
  obtain slots where sl: "ex_engine (Tensor \<lparr>storage = [sum_list (to_numpy out)], shape = [1], strides = [1]\<rparr> h (backend out) None)
      [Tensor \<lparr>storage = [5], shape = [1], strides = [1]\<rparr> (Some (History None None []))
                  SimpleBackend None] = Inr slots"
     "deposit slots [Tensor \<lparr>storage = [5], shape = [1], strides = [1]\<rparr> (Some (History None None []))
                  SimpleBackend None] = [ex_checked5]"
    using dep by blast
  show ?thesis
    unfolding grad_check_def prep Let_def
    by (simp add: out sm sl loop del: check_loop.simps)
qed

lemma central_difference_formula:
  assumes "0 \<le> arg" and "arg < int (length vals)"
    and "wf_td (tensor_of (vals ! nat arg))"
    and "valid_index ind (shape (tensor_of (vals ! nat arg)))"
    and "epsilon \<noteq> 0"
  shows "\<exists>xp xm.
       shape (tensor_of xp) = shape (tensor_of (vals ! nat arg))
     \<and> shape (tensor_of xm) = shape (tensor_of (vals ! nat arg))
     \<and> (\<forall>idx. valid_index idx (shape (tensor_of (vals ! nat arg))) \<longrightarrow>
           td_at (tensor_of xp) idx =
             td_at (tensor_of (vals ! nat arg)) idx + (if idx = ind then epsilon else 0))
     \<and> (\<forall>idx. valid_index idx (shape (tensor_of (vals ! nat arg))) \<longrightarrow>
           td_at (tensor_of xm) idx =
             td_at (tensor_of (vals ! nat arg)) idx - (if idx = ind then epsilon else 0))
     \<and> grad_central_difference f vals arg epsilon ind =
         ebind (f (vals[nat arg := xp])) (\<lambda>out1.
         ebind (f (vals[nat arg := xm])) (\<lambda>out2.
           Inr ((sum_list (to_numpy out1) - sum_list (to_numpy out2)) / (2 * epsilon))))"
proof -
  let ?x = "vals ! nat arg"
  let ?sh = "shape (tensor_of ?x)"
  have lt: "nat arg < length vals" using assms(1,2) by simp
  have px: "py_nth vals arg = Inr ?x"
    using assms(1,2) by (simp add: py_nth_def Let_def)
  have pos: "\<forall>s\<in>set ?sh. 0 < s" using valid_index_pos [OF assms(4)] .
  from up_tensor [OF assms(3) assms(4), of epsilon] obtain up where up:
    "ebind (zeros ?sh SimpleBackend) (\<lambda>up0. tensor_setitem up0 ind epsilon) = Inr up"
    "shape (tensor_of up) = ?sh"
    "\<forall>idx. valid_index idx ?sh \<longrightarrow> td_at (tensor_of up) idx = (if idx = ind then epsilon else 0)"
    by blast
  from tensor_add_at [OF pos refl up(2)] obtain xp where xp:
    "tensor_add ?x up = Inr xp" "shape (tensor_of xp) = ?sh"
    "\<forall>idx. valid_index idx ?sh \<longrightarrow>
        td_at (tensor_of xp) idx = td_at (tensor_of ?x) idx + td_at (tensor_of up) idx"
    by blast
  from tensor_sub_at [OF pos refl up(2)] obtain xm where xm:
    "tensor_sub ?x up = Inr xm" "shape (tensor_of xm) = ?sh"
    "\<forall>idx. valid_index idx ?sh \<longrightarrow>
        td_at (tensor_of xm) idx = td_at (tensor_of ?x) idx - td_at (tensor_of up) idx"
    by blast
  have v1: "perturb tensor_add vals arg up = Inr (vals[nat arg := xp])"
    using perturb_at [where op = tensor_add and vals = vals and arg = arg and up = up and xp = xp]
      assms(1,2) xp(1) by blast
  have v2: "perturb tensor_sub vals arg up = Inr (vals[nat arg := xm])"
    using perturb_at [where op = tensor_sub and vals = vals and arg = arg and up = up and xp = xm]
      assms(1,2) xm(1) by blast
  have tail: "\<And>out1 out2.
      ebind (tensor_sum out1) (\<lambda>s1.
        ebind (Inr out2) (\<lambda>o2. ebind (tensor_sum o2) (\<lambda>s2.
          ebind (tensor_sub s1 s2) (\<lambda>delta. ebind (tensor_getitem delta [0]) (\<lambda>d0.
            if 2 * epsilon = 0 then Inl ZeroDivisionError else Inr (d0 / (2 * epsilon)))))))
      = Inr ((sum_list (to_numpy out1) - sum_list (to_numpy out2)) / (2 * epsilon))"
  proof -
    fix out1 out2
    obtain h1 where s1: "tensor_sum out1 =
        Inr (Tensor \<lparr>storage = [sum_list (to_numpy out1)], shape = [1], strides = [1]\<rparr> h1 (backend out1) None)"
      using tensor_sum_value by blast
    obtain h2 where s2: "tensor_sum out2 =
        Inr (Tensor \<lparr>storage = [sum_list (to_numpy out2)], shape = [1], strides = [1]\<rparr> h2 (backend out2) None)"
      using tensor_sum_value by blast
    let ?s1 = "Tensor \<lparr>storage = [sum_list (to_numpy out1)], shape = [1], strides = [1]\<rparr> h1 (backend out1) None"
    let ?s2 = "Tensor \<lparr>storage = [sum_list (to_numpy out2)], shape = [1], strides = [1]\<rparr> h2 (backend out2) None"
    have d: "ebind (tensor_sub ?s1 ?s2) (\<lambda>delta. tensor_getitem delta [0])
               = Inr (sum_list (to_numpy out1) - sum_list (to_numpy out2))"
      by (rule scalar_difference) simp_all
    show "ebind (tensor_sum out1) (\<lambda>s1.
        ebind (Inr out2) (\<lambda>o2. ebind (tensor_sum o2) (\<lambda>s2.
          ebind (tensor_sub s1 s2) (\<lambda>delta. ebind (tensor_getitem delta [0]) (\<lambda>d0.
            if 2 * epsilon = 0 then Inl ZeroDivisionError else Inr (d0 / (2 * epsilon)))))))
      = Inr ((sum_list (to_numpy out1) - sum_list (to_numpy out2)) / (2 * epsilon))"
      using s1 s2 d assms(5) by (auto simp: ebind_def split: sum.splits)
  qed
  have g: "grad_central_difference f vals arg epsilon ind =
         ebind (f (vals[nat arg := xp])) (\<lambda>out1.
         ebind (f (vals[nat arg := xm])) (\<lambda>out2.
           Inr ((sum_list (to_numpy out1) - sum_list (to_numpy out2)) / (2 * epsilon))))"
  proof (cases "f (vals[nat arg := xp])")
    case (Inl e)
    then show ?thesis
      using px up(1) v1 v2
      by (auto simp: grad_central_difference_def ebind_def split: sum.splits)
  next
    case o1: (Inr out1)
    show ?thesis
    proof (cases "f (vals[nat arg := xm])")
      case (Inl e)
      obtain h1 where s1: "tensor_sum out1 =
        Inr (Tensor \<lparr>storage = [sum_list (to_numpy out1)], shape = [1], strides = [1]\<rparr> h1 (backend out1) None)"
        using tensor_sum_value by blast
      show ?thesis
        using px up(1) v1 v2 o1 Inl s1
        by (auto simp: grad_central_difference_def ebind_def split: sum.splits)
    next
      case o2: (Inr out2)
      have "grad_central_difference f vals arg epsilon ind =
         ebind (tensor_sum out1) (\<lambda>s1.
        ebind (Inr out2) (\<lambda>o2. ebind (tensor_sum o2) (\<lambda>s2.
          ebind (tensor_sub s1 s2) (\<lambda>delta. ebind (tensor_getitem delta [0]) (\<lambda>d0.
            if 2 * epsilon = 0 then Inl ZeroDivisionError else Inr (d0 / (2 * epsilon)))))))"
        using px up(1) v1 v2 o1 o2
        by (auto simp: grad_central_difference_def ebind_def split: sum.splits)
      then show ?thesis using tail [of out1 out2] o1 o2 by (simp add: ebind_def)
    qed
  qed
  have ap: "\<forall>idx. valid_index idx ?sh \<longrightarrow>
           td_at (tensor_of xp) idx = td_at (tensor_of ?x) idx + (if idx = ind then epsilon else 0)"
    using xp(3) up(3) by simp
  have am: "\<forall>idx. valid_index idx ?sh \<longrightarrow>
           td_at (tensor_of xm) idx = td_at (tensor_of ?x) idx - (if idx = ind then epsilon else 0)"
    using xm(3) up(3) by simp
  show ?thesis using xp(2) xm(2) ap am g by blast
qed

text \<open>
  C8. For every function \<open>f\<close>, argument list, argument position \<open>arg\<close> within the list,
  valid index \<open>ind\<close> of that (well-formed) argument and step \<open>epsilon\<close> other than 0, there
  are tensors \<open>xp\<close> and \<open>xm\<close> of the argument's shape, equal to the argument at every
  index except \<open>ind\<close>, where they hold its element plus and minus \<open>epsilon\<close>, such that
  the estimate is the sum of the elements of \<open>f\<close> with the argument replaced by \<open>xp\<close>,
  minus that with \<open>xm\<close>, divided by \<open>2 * epsilon\<close> (and the error of \<open>f\<close> where it
  raises). And \<^verbatim>\<open>grad_check\<close> returns normally exactly when \<open>f\<close>, the sum and the
  backward pass succeed and, for every argument, the estimate at the sampled index is
  within absolute and relative tolerance \<open>1e-2\<close> of the recorded gradient at the same
  index. Floats are idealised as reals.
\<close>

theorem grad_check_compares_central_difference:
  "(0 \<le> arg \<and> arg < int (length vals) \<and> wf_td (tensor_of (vals ! nat arg))
      \<and> valid_index ind (shape (tensor_of (vals ! nat arg))) \<and> epsilon \<noteq> 0
    \<longrightarrow> (\<exists>xp xm.
           shape (tensor_of xp) = shape (tensor_of (vals ! nat arg))
         \<and> shape (tensor_of xm) = shape (tensor_of (vals ! nat arg))
         \<and> (\<forall>idx. valid_index idx (shape (tensor_of (vals ! nat arg))) \<longrightarrow>
               td_at (tensor_of xp) idx =
                 td_at (tensor_of (vals ! nat arg)) idx + (if idx = ind then epsilon else 0))
         \<and> (\<forall>idx. valid_index idx (shape (tensor_of (vals ! nat arg))) \<longrightarrow>
               td_at (tensor_of xm) idx =
                 td_at (tensor_of (vals ! nat arg)) idx - (if idx = ind then epsilon else 0))
         \<and> grad_central_difference f vals arg epsilon ind =
             ebind (f (vals[nat arg := xp])) (\<lambda>out1.
             ebind (f (vals[nat arg := xm])) (\<lambda>out2.
               Inr ((sum_list (to_numpy out1) - sum_list (to_numpy out2)) / (2 * epsilon))))))
   \<and> (fst (grad_check f backward seed sample s) = Inr () \<longleftrightarrow>
        (\<exists>out loss slots.
            f (args (grad_check_prepare seed s)) = Inr out
          \<and> tensor_sum out = Inr loss
          \<and> backward loss (args (grad_check_prepare seed s)) = Inr slots
          \<and> (\<forall>j<length (args s).
               within_tolerance f (deposit slots (args (grad_check_prepare seed s))) j
                 (deposit slots (args (grad_check_prepare seed s)) ! j)
                 (fst (sample (tensor_of (args s ! j))
                    (rng_at sample (deposit slots (args (grad_check_prepare seed s))) (seed 10) j))))))"
  using central_difference_formula [of arg vals ind epsilon f]
    grad_check_passes_iff [of f backward seed sample s]
  by blast

text \<open>The square at 5: the estimate is 10, the recorded gradient is 10, the check passes.\<close>

theorem grad_check_compares_witness:
  "0 \<le> (0::int) \<and> 0 < int (length [ex_checked5]) \<and> wf_td (tensor_of ([ex_checked5] ! nat 0))
   \<and> valid_index [0] (shape (tensor_of ([ex_checked5] ! nat 0))) \<and> (1 / 10 ^ 6 :: real) \<noteq> 0
   \<and> (\<exists>xp xm.
           td_at (tensor_of xp) [0] = 5 + 1 / 10 ^ 6
         \<and> td_at (tensor_of xm) [0] = 5 - 1 / 10 ^ 6
         \<and> grad_central_difference ex_square [ex_checked5] 0 (1 / 10 ^ 6) [0] =
             ebind (ex_square [xp]) (\<lambda>out1.
             ebind (ex_square [xm]) (\<lambda>out2.
               Inr ((sum_list (to_numpy out1) - sum_list (to_numpy out2)) / (2 * (1 / 10 ^ 6))))))
   \<and> grad_central_difference ex_square [ex_checked5] 0 (1 / 10 ^ 6) [0] = Inr 10
   \<and> within_tolerance ex_square [ex_checked5] 0 ex_checked5 [0]
   \<and> fst (grad_check ex_square ex_engine ex_seed ex_sample \<lparr>args = [ex_const5], rng = 77\<rparr>) = Inr ()"
proof -
  have wf: "wf_td (tensor_of ([ex_checked5] ! nat 0))"
    by (simp add: wf_td_def ex_checked5_def operators_prod_def)
  have vi: "valid_index [0] (shape (tensor_of ([ex_checked5] ! nat 0)))"
    by (simp add: valid_index_def ex_checked5_def)
  have x0: "td_at (tensor_of ([ex_checked5] ! nat 0)) [0] = 5"
    by (simp add: td_at_def ex_checked5_def index_to_position_def)
  have hyp: "0 \<le> (0::int) \<and> 0 < int (length [ex_checked5]) \<and> wf_td (tensor_of ([ex_checked5] ! nat 0))
      \<and> valid_index [0] (shape (tensor_of ([ex_checked5] ! nat 0))) \<and> (1 / 10 ^ 6 :: real) \<noteq> 0"
    using wf vi by simp
  from grad_check_compares_central_difference
         [where arg = 0 and vals = "[ex_checked5]" and ind = "[0]" and epsilon = "1 / 10 ^ 6"
            and f = ex_square and backward = ex_engine and seed = ex_seed and sample = ex_sample
            and s = "\<lparr>args = [ex_const5], rng = 77\<rparr>"] hyp
  obtain xp xm where
    p: "\<forall>idx. valid_index idx (shape (tensor_of ([ex_checked5] ! nat 0))) \<longrightarrow>
               td_at (tensor_of xp) idx =
                 td_at (tensor_of ([ex_checked5] ! nat 0)) idx + (if idx = [0] then 1 / 10 ^ 6 else 0)" and
    m: "\<forall>idx. valid_index idx (shape (tensor_of ([ex_checked5] ! nat 0))) \<longrightarrow>
               td_at (tensor_of xm) idx =
                 td_at (tensor_of ([ex_checked5] ! nat 0)) idx - (if idx = [0] then 1 / 10 ^ 6 else 0)" and
    g: "grad_central_difference ex_square [ex_checked5] 0 (1 / 10 ^ 6) [0] =
             ebind (ex_square ([ex_checked5][nat 0 := xp])) (\<lambda>out1.
             ebind (ex_square ([ex_checked5][nat 0 := xm])) (\<lambda>out2.
               Inr ((sum_list (to_numpy out1) - sum_list (to_numpy out2)) / (2 * (1 / 10 ^ 6)))))"
    by blast
  have ex: "\<exists>xp xm.
           td_at (tensor_of xp) [0] = 5 + 1 / 10 ^ 6
         \<and> td_at (tensor_of xm) [0] = 5 - 1 / 10 ^ 6
         \<and> grad_central_difference ex_square [ex_checked5] 0 (1 / 10 ^ 6) [0] =
             ebind (ex_square [xp]) (\<lambda>out1.
             ebind (ex_square [xm]) (\<lambda>out2.
               Inr ((sum_list (to_numpy out1) - sum_list (to_numpy out2)) / (2 * (1 / 10 ^ 6)))))"
    using p m g vi x0 by (intro exI [of _ xp] exI [of _ xm]) simp
  have wt: "within_tolerance ex_square [ex_checked5] 0 ex_checked5 [0]"
    using ex_square_estimate
    by (simp add: within_tolerance_def ex_checked5_def ex_grad10_def tensor_getitem_def td_get_def
          td_index_def index_to_position_def ebind_def)
  show ?thesis
    using hyp ex ex_square_estimate wt ex_grad_check_run by simp
qed

section \<open>The gradient-check harness over the store\<close>

lemma first_loop_out: "a \<notin> set vals \<Longrightarrow> first_loop vals h a = h a"
  by (induction vals arbitrary: h) auto

lemma first_loop_in:
  "a \<in> set vals \<Longrightarrow> first_loop vals h a = zero_grad_reset (requires_grad_set True (h a))"
proof (induction vals arbitrary: h)
  case Nil
  then show ?case by simp
next
  case (Cons b vals)
  show ?case
  proof (cases "a \<in> set vals")
    case True
    then have "first_loop vals (h(b := zero_grad_reset (requires_grad_set True (h b)))) a =
        zero_grad_reset (requires_grad_set True
          ((h(b := zero_grad_reset (requires_grad_set True (h b)))) a))"
      by (rule Cons.IH)
    then show ?thesis
      by (cases "a = b") (simp_all add: zero_grad_reset_def requires_grad_set_def)
  next
    case False
    then have "a = b" using Cons.prems by simp
    then show ?thesis using False by (simp add: first_loop_out)
  qed
qed

lemma prepare_in_objects:
  "objects (prepare_in seed vals w) a =
     (if a \<in> set vals then zero_grad_reset (requires_grad_set True (objects w a)) else objects w a)"
  by (simp add: prepare_in_def first_loop_in first_loop_out)

lemma prepare_in_idem: "prepare_in seed vals (prepare_in seed vals w) = prepare_in seed vals w"
proof -
  have "first_loop vals (first_loop vals (objects w)) = first_loop vals (objects w)"
  proof
    fix a
    show "first_loop vals (first_loop vals (objects w)) a = first_loop vals (objects w) a"
      by (cases "a \<in> set vals")
         (simp_all add: first_loop_in first_loop_out zero_grad_reset_def requires_grad_set_def)
  qed
  then show ?thesis by (simp add: prepare_in_def)
qed

text \<open>The outcome does not depend on the flags, the slots and the generator before the
  call.\<close>

lemma grad_check_in_prepared:
  "grad_check_in f backward seed sample vals (prepare_in seed vals w) =
   grad_check_in f backward seed sample vals w"
  by (simp add: grad_check_in_def prepare_in_idem)

text \<open>After the preparation the harness writes the state only through \<open>f\<close>, the engine
  and the sampling: what they preserve is preserved.\<close>

lemma gcd_in_invariant:
  assumes "\<And>ops v. I v \<Longrightarrow> I (snd (f ops v))" and "I w"
  shows "I (snd (grad_central_difference_in f vals arg epsilon ind w))"
proof -
  have f1: "\<And>ops. I (snd (f ops w))" using assms by blast
  have f2: "\<And>ops ops'. I (snd (f ops' (snd (f ops w))))" using assms by blast
  show ?thesis
    unfolding grad_central_difference_in_def
    using assms(2) f1 f2
    by (auto split: sum.splits prod.splits) (metis snd_conv)+
qed

lemma check_loop_in_invariant:
  assumes f: "\<And>ops v. I v \<Longrightarrow> I (snd (f ops v))"
    and sm: "\<And>td v. I v \<Longrightarrow> I (v\<lparr>generator := snd (sample td (generator v))\<rparr>)"
    and w: "I w"
  shows "I (snd (check_loop_in f sample vals i xs w))"
  using w
proof (induction xs arbitrary: i w)
  case Nil
  then show ?case by simp
next
  case (Cons a xs)
  obtain ind r1 where s: "sample (tensor_of (objects w a)) (generator w) = (ind, r1)"
    by (cases "sample (tensor_of (objects w a)) (generator w)")
  obtain res w2 where g:
    "grad_central_difference_in f vals (int i) (1 / 10 ^ 6) ind (w\<lparr>generator := r1\<rparr>) = (res, w2)"
    by (cases "grad_central_difference_in f vals (int i) (1 / 10 ^ 6) ind (w\<lparr>generator := r1\<rparr>)")
  have "I (w\<lparr>generator := snd (sample (tensor_of (objects w a)) (generator w))\<rparr>)"
    using Cons.prems by (rule sm)
  then have "I (w\<lparr>generator := r1\<rparr>)" using s by simp
  then have "I (snd (grad_central_difference_in f vals (int i) (1 / 10 ^ 6) ind (w\<lparr>generator := r1\<rparr>)))"
    using f by (rule gcd_in_invariant [rotated])
  then have w2: "I w2" using g by simp
  have rest: "I (snd (check_loop_in f sample vals (Suc i) xs w2))" using w2 by (rule Cons.IH)
  show ?case
    using s g w2 rest by (simp split: sum.splits option.splits)
qed

lemma grad_check_in_invariant:
  assumes f: "\<And>ops v. I v \<Longrightarrow> I (snd (f ops v))"
    and b: "\<And>loss v. I v \<Longrightarrow> I (snd (backward loss v))"
    and sm: "\<And>td v. I v \<Longrightarrow> I (v\<lparr>generator := snd (sample td (generator v))\<rparr>)"
    and w: "I (prepare_in seed vals w)"
  shows "I (snd (grad_check_in f backward seed sample vals w))"
proof -
  obtain r1 w1 where f1: "f (map Obj vals) (prepare_in seed vals w) = (r1, w1)"
    by (cases "f (map Obj vals) (prepare_in seed vals w)")
  have w1: "I w1" using f [OF w, of "map Obj vals"] f1 by simp
  show ?thesis
  proof (cases r1)
    case (Inl e)
    then show ?thesis using f1 w1 by (simp add: grad_check_in_def)
  next
    case (Inr out)
    show ?thesis
    proof (cases "tensor_sum out")
      case (Inl e)
      then show ?thesis using f1 Inr w1 by (simp add: grad_check_in_def)
    next
      case l: (Inr loss)
      obtain r2 w2 where b2: "backward loss w1 = (r2, w2)" by (cases "backward loss w1")
      have w2: "I w2" using b [OF w1, of loss] b2 by simp
      show ?thesis
      proof (cases r2)
        case (Inl e)
        then show ?thesis using f1 Inr l b2 w2 by (simp add: grad_check_in_def)
      next
        case u: (Inr u)
        have "I (snd (check_loop_in f sample vals 0 vals w2))"
          using f sm w2 by (rule check_loop_in_invariant)
        then show ?thesis using f1 Inr l b2 u by (simp add: grad_check_in_def)
      qed
    qed
  qed
qed

text \<open>The assertion on the gradient slot of the last argument is the last read of the
  state.\<close>

lemma check_loop_in_last_slot:
  "fst (check_loop_in f sample vals i xs w) = Inr () \<Longrightarrow> xs \<noteq> [] \<Longrightarrow>
   grad (objects (snd (check_loop_in f sample vals i xs w)) (last xs)) \<noteq> None"
proof (induction xs arbitrary: i w)
  case Nil
  then show ?case by simp
next
  case (Cons a xs)
  obtain ind r1 where s: "sample (tensor_of (objects w a)) (generator w) = (ind, r1)"
    by (cases "sample (tensor_of (objects w a)) (generator w)")
  obtain res w2 where g:
    "grad_central_difference_in f vals (int i) (1 / 10 ^ 6) ind (w\<lparr>generator := r1\<rparr>) = (res, w2)"
    by (cases "grad_central_difference_in f vals (int i) (1 / 10 ^ 6) ind (w\<lparr>generator := r1\<rparr>)")
  have here: "grad (objects w2 a) \<noteq> None
      \<and> check_loop_in f sample vals i (a # xs) w = check_loop_in f sample vals (Suc i) xs w2"
    using Cons.prems(1) s g by (auto split: sum.splits option.splits)
  show ?case
  proof (cases "xs = []")
    case True
    then show ?thesis using here by simp
  next
    case False
    have "fst (check_loop_in f sample vals (Suc i) xs w2) = Inr ()"
      using Cons.prems(1) here by simp
    then have "grad (objects (snd (check_loop_in f sample vals (Suc i) xs w2)) (last xs)) \<noteq> None"
      using False by (rule Cons.IH)
    then show ?thesis using here False by simp
  qed
qed

lemma grad_check_in_last_slot:
  assumes "fst (grad_check_in f backward seed sample vals w) = Inr ()" and "vals \<noteq> []"
  shows "grad (objects (snd (grad_check_in f backward seed sample vals w)) (last vals)) \<noteq> None"
proof -
  from assms(1) obtain w2 where
    "grad_check_in f backward seed sample vals w = check_loop_in f sample vals 0 vals w2"
    by (auto simp: grad_check_in_def split: sum.splits prod.splits)
  then show ?thesis using assms check_loop_in_last_slot [of f sample vals 0 vals w2] by simp
qed

subsection \<open>The harness over values is the harness over the store for callables that write nothing\<close>

lemma perturb_in_pure:
  "emap (\<lambda>(j, y). if int j \<noteq> arg then Inr y else op y up) (enumerate n (map (objects w) vals)) =
   ebind (emap (\<lambda>(j, a). if int j \<noteq> arg then Inr (Obj a)
                     else ebind (op (objects w a) up) (\<lambda>t. Inr (Temp t))) (enumerate n vals))
     (\<lambda>ops. Inr (map (deref w) ops))"
proof (induction vals arbitrary: n)
  case Nil
  then show ?case by (simp add: ebind_def)
next
  case (Cons a vals)
  show ?case
    using Cons.IH [of "Suc n"]
    by (auto simp: ebind_def deref_def split: sum.splits)
qed

lemma perturb_pure:
  "perturb op (map (objects w) vals) arg up =
     ebind (perturb_in op w vals arg up) (\<lambda>ops. Inr (map (deref w) ops))"
  unfolding perturb_def perturb_in_def by (rule perturb_in_pure)

lemma py_nth_map: "py_nth (map h xs) k = ebind (py_nth xs k) (\<lambda>a. Inr (h a))"
proof (cases "- int (length xs) \<le> k \<and> k < int (length xs)")
  case True
  then have p: "0 < int (length xs)" by linarith
  have "0 \<le> k mod int (length xs)" "k mod int (length xs) < int (length xs)"
    using p by simp_all
  then have "nat (k mod int (length xs)) < length xs" by linarith
  then show ?thesis using True by (simp add: py_nth_def ebind_def Let_def)
next
  case False
  then show ?thesis by (auto simp: py_nth_def ebind_def Let_def)
qed

lemma gcd_in_pure:
  "grad_central_difference_in (pure_callable g) vals arg epsilon ind w =
     (grad_central_difference g (map (objects w) vals) arg epsilon ind, w)"
  unfolding grad_central_difference_in_def grad_central_difference_def
    perturb_pure py_nth_map pure_callable_def
  by (auto simp: ebind_def split: sum.splits prod.splits)

lemma check_loop_in_pure:
  "check_loop_in (pure_callable g) sample vals i xs w =
     (fst (check_loop g sample (map (objects w) vals) i (map (objects w) xs) (generator w)),
      w\<lparr>generator := snd (check_loop g sample (map (objects w) vals) i (map (objects w) xs) (generator w))\<rparr>)"
proof (induction xs arbitrary: i w)
  case Nil
  then show ?case by simp
next
  case (Cons a xs)
  obtain ind r1 where s: "sample (tensor_of (objects w a)) (generator w) = (ind, r1)"
    by (cases "sample (tensor_of (objects w a)) (generator w)")
  note ih = Cons.IH [of "Suc i" "w\<lparr>generator := r1\<rparr>"]
  show ?case
    using s ih
    by (simp add: gcd_in_pure split: sum.splits option.splits)
qed

lemma prepare_in_args:
  "map (objects (prepare_in seed vals w)) vals =
     args (grad_check_prepare seed \<lparr>args = map (objects w) vals, rng = generator w\<rparr>)"
  by (simp add: grad_check_prepare_def prepare_in_objects)

lemma slot_engine_args:
  "map (\<lambda>a. if a < n then Tensor (tensor_of (h a)) (history (h a)) (backend (h a)) (slots a) else h a)
     [0..<n] = deposit slots (map h [0..<n])"
  by (rule nth_equalityI) (simp_all add: deposit_def nth_enumerate_eq)

lemma grad_check_in_pure:
  "fst (grad_check_in (pure_callable g) (slot_engine backward n) seed sample [0..<n] w) =
     fst (grad_check g backward seed sample \<lparr>args = map (objects w) [0..<n], rng = generator w\<rparr>)
   \<and> map (objects (snd (grad_check_in (pure_callable g) (slot_engine backward n) seed sample [0..<n] w)))
       [0..<n] =
     args (snd (grad_check g backward seed sample \<lparr>args = map (objects w) [0..<n], rng = generator w\<rparr>))
   \<and> generator (snd (grad_check_in (pure_callable g) (slot_engine backward n) seed sample [0..<n] w)) =
     rng (snd (grad_check g backward seed sample \<lparr>args = map (objects w) [0..<n], rng = generator w\<rparr>))"
proof -
  let ?s = "\<lparr>args = map (objects w) [0..<n], rng = generator w\<rparr>"
  let ?w1 = "prepare_in seed [0..<n] w"
  let ?s1 = "grad_check_prepare seed ?s"
  have a: "map (objects ?w1) [0..<n] = args ?s1" by (rule prepare_in_args)
  have r: "generator ?w1 = rng ?s1" by (simp add: prepare_in_def grad_check_prepare_def)
  have d: "map (deref ?w1) (map Obj [0..<n]) = args ?s1"
    using a by (simp add: deref_def comp_def)
  show ?thesis
  proof (cases "g (args ?s1)")
    case (Inl e)
    then show ?thesis
      using a r d by (simp add: grad_check_in_def grad_check_def pure_callable_def Let_def)
  next
    case o: (Inr out)
    show ?thesis
    proof (cases "tensor_sum out")
      case (Inl e)
      then show ?thesis
        using a r d o by (simp add: grad_check_in_def grad_check_def pure_callable_def Let_def)
    next
      case l: (Inr loss)
      show ?thesis
      proof (cases "backward loss (args ?s1)")
        case (Inl e)
        then show ?thesis
          using a r d o l
          by (simp add: grad_check_in_def grad_check_def pure_callable_def Let_def slot_engine_def)
      next
        case sl: (Inr slots)
        define w2 where "w2 = ?w1\<lparr>objects := \<lambda>a. if a < n
                  then Tensor (tensor_of (objects ?w1 a)) (history (objects ?w1 a))
                         (backend (objects ?w1 a)) (slots a)
                  else objects ?w1 a\<rparr>"
        have v: "map (objects w2) [0..<n] = deposit slots (args ?s1)"
        proof -
          have "map (objects w2) [0..<n] =
              map (\<lambda>a. if a < n then Tensor (tensor_of (objects ?w1 a)) (history (objects ?w1 a))
                     (backend (objects ?w1 a)) (slots a) else objects ?w1 a) [0..<n]"
            by (simp add: w2_def)
          also have "\<dots> = deposit slots (map (objects ?w1) [0..<n])" by (rule slot_engine_args)
          finally show ?thesis unfolding a .
        qed
        have g2: "generator w2 = rng ?s1" using r by (simp add: w2_def)
        have run_in: "grad_check_in (pure_callable g) (slot_engine backward n) seed sample [0..<n] w =
            check_loop_in (pure_callable g) sample [0..<n] 0 [0..<n] w2"
          using a d o l sl
          by (simp add: grad_check_in_def pure_callable_def slot_engine_def w2_def
                del: check_loop_in.simps)
        have run: "grad_check g backward seed sample ?s =
            (fst (check_loop g sample (deposit slots (args ?s1)) 0 (deposit slots (args ?s1)) (rng ?s1)),
             \<lparr>args = deposit slots (args ?s1),
              rng = snd (check_loop g sample (deposit slots (args ?s1)) 0 (deposit slots (args ?s1)) (rng ?s1))\<rparr>)"
          using o l sl
          by (simp add: grad_check_def Let_def split: prod.splits del: check_loop.simps)
        show ?thesis
          unfolding run_in run check_loop_in_pure v g2 by (simp add: v)
      qed
    qed
  qed
qed

subsection \<open>Runs of the examples\<close>

lemma ex_store_prepared:
  "objects (prepare_in ex_seed [0] ex_world) 0 =
     Tensor \<lparr>storage = [5], shape = [1], strides = [1]\<rparr> (Some (History None None [])) SimpleBackend None
   \<and> generator (prepare_in ex_seed [0] ex_world) = 10"
  by (simp add: prepare_in_def ex_world_def ex_const5_def zero_grad_reset_def requires_grad_set_def
        ex_seed_def)

lemma ex_slot_engine:
  "objects w 0 =
     Tensor \<lparr>storage = [5], shape = [1], strides = [1]\<rparr> h SimpleBackend None \<Longrightarrow>
   \<exists>w2. slot_engine ex_engine 1 loss w = (Inr (), w2)
      \<and> objects w2 0 = Tensor \<lparr>storage = [5], shape = [1], strides = [1]\<rparr> h SimpleBackend (Some ex_grad10)
      \<and> generator w2 = generator w"
  by (simp add: slot_engine_def ex_engine_def ex_grad10_def to_numpy_def
        size_of_def operators_prod_def td_at_def index_to_position_def Let_def)

lemma ex_noisy_estimate:
  "objects w 0 = ex_checked5 \<Longrightarrow>
   grad_central_difference_in ex_noisy_square [0] 0 (1 / 10 ^ 6) [0] w =
     (Inr 10, w\<lparr>generator := Suc (Suc (generator w))\<rparr>)"
  by (simp add: grad_central_difference_in_def perturb_in_def ex_noisy_square_def rand_def ex_random_def
        deref_def requires_grad_set_def ex_checked5_def harness_defs eval_defs field_simps)

lemma ex_noisy_loop:
  "objects w 0 = ex_checked5 \<Longrightarrow>
   check_loop_in ex_noisy_square ex_sample [0] 0 [0] w =
     (Inr (), w\<lparr>generator := Suc (Suc (Suc (generator w)))\<rparr>)"
  using ex_noisy_estimate [of "w\<lparr>generator := Suc (generator w)\<rparr>"]
  by (simp add: ex_sample_def ex_checked5_def ex_grad10_def tensor_getitem_def td_get_def td_index_def
        index_to_position_def ebind_def assert_allclose_def)

text \<open>The square that draws a random tensor passes the check; its three calls and the
  one sampling leave the generator seeded with 10 in state 14.\<close>

lemma ex_noisy_run:
  "fst (grad_check_in ex_noisy_square (slot_engine ex_engine 1) ex_seed ex_sample [0] ex_world) = Inr ()
   \<and> generator (snd (grad_check_in ex_noisy_square (slot_engine ex_engine 1) ex_seed ex_sample [0]
         ex_world)) = 14"
proof -
  let ?w0 = "prepare_in ex_seed [0] ex_world"
  have f: "\<exists>out. ex_noisy_square [Obj 0] ?w0 = (Inr out, ?w0\<lparr>generator := 11\<rparr>)"
    using ex_store_prepared
    by (simp add: ex_noisy_square_def rand_def ex_random_def deref_def requires_grad_set_def
          harness_defs eval_defs)
  then obtain out where out: "ex_noisy_square [Obj 0] ?w0 = (Inr out, ?w0\<lparr>generator := 11\<rparr>)"
    by blast
  obtain h where sm: "tensor_sum out =
      Inr (Tensor \<lparr>storage = [sum_list (to_numpy out)], shape = [1], strides = [1]\<rparr> h (backend out) None)"
    using tensor_sum_value by blast
  let ?loss = "Tensor \<lparr>storage = [sum_list (to_numpy out)], shape = [1], strides = [1]\<rparr> h (backend out) None"
  have "objects (?w0\<lparr>generator := 11\<rparr>) 0 =
      Tensor \<lparr>storage = [5], shape = [1], strides = [1]\<rparr> (Some (History None None [])) SimpleBackend None"
    using ex_store_prepared by simp
  from ex_slot_engine [OF this, of ?loss]
  obtain w2 where b: "slot_engine ex_engine 1 ?loss (?w0\<lparr>generator := 11\<rparr>) = (Inr (), w2)"
    and w2: "objects w2 0 = ex_checked5" "generator w2 = 11"
    by (auto simp: ex_checked5_def)
  have run: "grad_check_in ex_noisy_square (slot_engine ex_engine 1) ex_seed ex_sample [0] ex_world =
      check_loop_in ex_noisy_square ex_sample [0] 0 [0] w2"
    unfolding grad_check_in_def using b by (simp add: out sm del: check_loop_in.simps)
  show ?thesis
    unfolding run using ex_noisy_loop [OF w2(1)] w2 by simp
qed

lemma ex_noisy_square_frame:
  "objects (snd (ex_noisy_square ops v)) = objects v
   \<and> generator v \<le> generator (snd (ex_noisy_square ops v))"
  by (simp add: ex_noisy_square_def rand_def ex_random_def operators_prod_def Let_def
        split: list.splits prod.splits sum.splits)

lemma slot_engine_frame:
  "history (objects (snd (slot_engine backward n loss v)) a) = history (objects v a)
   \<and> generator (snd (slot_engine backward n loss v)) = generator v"
  by (simp add: slot_engine_def split: sum.splits)

text \<open>
  The hypothesis on \<open>f\<close> cannot be dropped from the persistence of the flags: the square
  that turns gradient tracking off in its argument passes the check (the engine of the
  example fills the slot whatever the flag), and the argument, which required gradients
  when \<open>f\<close> was called, does not when \<^verbatim>\<open>grad_check\<close> has returned.
\<close>

lemma ex_untrack_estimate:
  "objects w 0 = Tensor \<lparr>storage = [5], shape = [1], strides = [1]\<rparr> None SimpleBackend (Some ex_grad10) \<Longrightarrow>
   grad_central_difference_in ex_untrack_square [0] 0 (1 / 10 ^ 6) [0] w = (Inr 10, w)"
  by (simp add: grad_central_difference_in_def perturb_in_def ex_untrack_square_def
        requires_grad_set_def harness_defs eval_defs field_simps)

lemma ex_untrack_run:
  "requires_grad (objects (prepare_in ex_seed [0] ex_world) 0)
   \<and> fst (grad_check_in ex_untrack_square (slot_engine ex_engine 1) ex_seed ex_sample [0] ex_world) = Inr ()
   \<and> \<not> requires_grad (objects (snd (grad_check_in ex_untrack_square (slot_engine ex_engine 1) ex_seed
           ex_sample [0] ex_world)) 0)"
proof -
  let ?w0 = "prepare_in ex_seed [0] ex_world"
  let ?w1 = "?w0\<lparr>objects := (objects ?w0)(0 := requires_grad_set False (objects ?w0 0))\<rparr>"
  have o1: "objects ?w1 0 = Tensor \<lparr>storage = [5], shape = [1], strides = [1]\<rparr> None SimpleBackend None"
    using ex_store_prepared by (simp add: requires_grad_set_def)
  have f: "\<exists>out. ex_untrack_square [Obj 0] ?w0 = (Inr out, ?w1)"
    using ex_store_prepared
    by (simp add: ex_untrack_square_def requires_grad_set_def harness_defs eval_defs)
  then obtain out where out: "ex_untrack_square [Obj 0] ?w0 = (Inr out, ?w1)" by blast
  obtain h where sm: "tensor_sum out =
      Inr (Tensor \<lparr>storage = [sum_list (to_numpy out)], shape = [1], strides = [1]\<rparr> h (backend out) None)"
    using tensor_sum_value by blast
  let ?loss = "Tensor \<lparr>storage = [sum_list (to_numpy out)], shape = [1], strides = [1]\<rparr> h (backend out) None"
  from ex_slot_engine [OF o1, of ?loss]
  obtain w2 where b: "slot_engine ex_engine 1 ?loss ?w1 = (Inr (), w2)"
    and w2: "objects w2 0 =
        Tensor \<lparr>storage = [5], shape = [1], strides = [1]\<rparr> None SimpleBackend (Some ex_grad10)"
    by auto
  have run: "grad_check_in ex_untrack_square (slot_engine ex_engine 1) ex_seed ex_sample [0] ex_world =
      check_loop_in ex_untrack_square ex_sample [0] 0 [0] w2"
    unfolding grad_check_in_def using b by (simp add: out sm del: check_loop_in.simps)
  have loop: "check_loop_in ex_untrack_square ex_sample [0] 0 [0] w2 =
      (Inr (), w2\<lparr>generator := Suc (generator w2)\<rparr>)"
    using ex_untrack_estimate [of "w2\<lparr>generator := Suc (generator w2)\<rparr>"] w2
    by (simp add: ex_sample_def ex_grad10_def tensor_getitem_def td_get_def td_index_def
          index_to_position_def ebind_def assert_allclose_def)
  show ?thesis
    unfolding run loop using w2 ex_store_prepared by (simp add: requires_grad_def)
qed

section \<open>What grad\_check does to its arguments and to the generator\<close>

text \<open>
  C10 (as amended). For every function \<open>f\<close>, engine and arguments: when \<open>f\<close> is first
  evaluated, every argument requires gradients and has an empty gradient slot, and the
  generator is seeded with 10; that is the state \<open>f\<close> is called in, so that a raise of
  \<open>f\<close> there is the outcome of \<^verbatim>\<open>grad_check\<close>. \<^verbatim>\<open>grad_check\<close> itself then undoes
  nothing: every property of the state that holds after the preparation and that \<open>f\<close>,
  the engine and the sampling of an index preserve holds when it returns or raises; in
  particular all arguments still require gradients if \<open>f\<close> and the engine keep them
  so. The empty slots do not persist: on a normal return with at least one argument,
  the gradient slot of the last argument is not empty.
\<close>

theorem grad_check_in_prepares_and_leaves:
  "(\<forall>a\<in>set vals. requires_grad (objects (prepare_in seed vals w) a)
        \<and> grad (objects (prepare_in seed vals w) a) = None)
   \<and> generator (prepare_in seed vals w) = seed 10
   \<and> (\<forall>e w'. f (map Obj vals) (prepare_in seed vals w) = (Inl e, w') \<longrightarrow>
         grad_check_in f backward seed sample vals w = (Inl e, w'))
   \<and> ((\<forall>ops v. I v \<longrightarrow> I (snd (f ops v)))
        \<and> (\<forall>loss v. I v \<longrightarrow> I (snd (backward loss v)))
        \<and> (\<forall>td v. I v \<longrightarrow> I (v\<lparr>generator := snd (sample td (generator v))\<rparr>))
        \<and> I (prepare_in seed vals w)
      \<longrightarrow> I (snd (grad_check_in f backward seed sample vals w)))
   \<and> ((\<forall>ops v. (\<forall>a\<in>set vals. requires_grad (objects v a)) \<longrightarrow>
                 (\<forall>a\<in>set vals. requires_grad (objects (snd (f ops v)) a)))
        \<and> (\<forall>loss v. (\<forall>a\<in>set vals. requires_grad (objects v a)) \<longrightarrow>
                 (\<forall>a\<in>set vals. requires_grad (objects (snd (backward loss v)) a)))
      \<longrightarrow> (\<forall>a\<in>set vals.
             requires_grad (objects (snd (grad_check_in f backward seed sample vals w)) a)))
   \<and> (fst (grad_check_in f backward seed sample vals w) = Inr () \<and> vals \<noteq> [] \<longrightarrow>
         grad (objects (snd (grad_check_in f backward seed sample vals w)) (last vals)) \<noteq> None)"
proof -
  let ?F = "\<lambda>v. \<forall>a\<in>set vals. requires_grad (objects v a)"
  have prep: "\<forall>a\<in>set vals. requires_grad (objects (prepare_in seed vals w) a)
        \<and> grad (objects (prepare_in seed vals w) a) = None"
    by (simp add: prepare_in_objects zero_grad_reset_def requires_grad_set_def requires_grad_def)
  have gen: "generator (prepare_in seed vals w) = seed 10" by (simp add: prepare_in_def)
  have raise: "\<forall>e w'. f (map Obj vals) (prepare_in seed vals w) = (Inl e, w') \<longrightarrow>
         grad_check_in f backward seed sample vals w = (Inl e, w')"
    by (simp add: grad_check_in_def)
  have inv: "(\<forall>ops v. I v \<longrightarrow> I (snd (f ops v)))
        \<and> (\<forall>loss v. I v \<longrightarrow> I (snd (backward loss v)))
        \<and> (\<forall>td v. I v \<longrightarrow> I (v\<lparr>generator := snd (sample td (generator v))\<rparr>))
        \<and> I (prepare_in seed vals w)
      \<longrightarrow> I (snd (grad_check_in f backward seed sample vals w))"
    using grad_check_in_invariant [of I f backward sample seed vals w] by blast
  have flags: "(\<forall>ops v. ?F v \<longrightarrow> ?F (snd (f ops v))) \<and> (\<forall>loss v. ?F v \<longrightarrow> ?F (snd (backward loss v)))
      \<longrightarrow> ?F (snd (grad_check_in f backward seed sample vals w))"
  proof
    assume h: "(\<forall>ops v. ?F v \<longrightarrow> ?F (snd (f ops v))) \<and> (\<forall>loss v. ?F v \<longrightarrow> ?F (snd (backward loss v)))"
    show "?F (snd (grad_check_in f backward seed sample vals w))"
    proof (rule grad_check_in_invariant [of ?F f backward sample seed vals w])
      show "\<And>ops v. ?F v \<Longrightarrow> ?F (snd (f ops v))" using h by blast
      show "\<And>loss v. ?F v \<Longrightarrow> ?F (snd (backward loss v))" using h by blast
      show "\<And>td v. ?F v \<Longrightarrow> ?F (v\<lparr>generator := snd (sample td (generator v))\<rparr>)" by simp
      show "?F (prepare_in seed vals w)" using prep by blast
    qed
  qed
  have slot: "fst (grad_check_in f backward seed sample vals w) = Inr () \<and> vals \<noteq> [] \<longrightarrow>
         grad (objects (snd (grad_check_in f backward seed sample vals w)) (last vals)) \<noteq> None"
    using grad_check_in_last_slot [of f backward seed sample vals w] by blast
  from prep gen raise inv flags slot show ?thesis by blast
qed

text \<open>
  The square that draws a random tensor, checked at 5 with a generator whose state counts
  the draws: the generator never falls behind the seeded state 10, the argument still
  requires gradients, and its slot is filled. Called on the same object twice, the
  function raises a type error, which is raised in the prepared state.
\<close>

theorem grad_check_in_prepares_witness:
  "requires_grad (objects (prepare_in ex_seed [0] ex_world) 0)
   \<and> grad (objects (prepare_in ex_seed [0] ex_world) 0) = None
   \<and> generator (prepare_in ex_seed [0] ex_world) = 10
   \<and> ex_noisy_square (map Obj [0, 0]) (prepare_in ex_seed [0, 0] ex_world) =
       (Inl TypeError, prepare_in ex_seed [0, 0] ex_world)
   \<and> grad_check_in ex_noisy_square (slot_engine ex_engine 1) ex_seed ex_sample [0, 0] ex_world =
       (Inl TypeError, prepare_in ex_seed [0, 0] ex_world)
   \<and> fst (grad_check_in ex_noisy_square (slot_engine ex_engine 1) ex_seed ex_sample [0] ex_world) = Inr ()
   \<and> 10 \<le> generator (snd (grad_check_in ex_noisy_square (slot_engine ex_engine 1) ex_seed ex_sample [0]
              ex_world))
   \<and> requires_grad (objects (snd (grad_check_in ex_noisy_square (slot_engine ex_engine 1) ex_seed
              ex_sample [0] ex_world)) 0)
   \<and> grad (objects (snd (grad_check_in ex_noisy_square (slot_engine ex_engine 1) ex_seed
              ex_sample [0] ex_world)) 0) \<noteq> None"
proof -
  let ?I = "\<lambda>v :: (nat, unit) world. 10 \<le> generator v"
  let ?run = "grad_check_in ex_noisy_square (slot_engine ex_engine 1) ex_seed ex_sample [0] ex_world"
  have raises: "ex_noisy_square (map Obj [0, 0]) (prepare_in ex_seed [0, 0] ex_world) =
       (Inl TypeError, prepare_in ex_seed [0, 0] ex_world)"
    by (simp add: ex_noisy_square_def)
  have f_gen: "\<forall>ops v. ?I v \<longrightarrow> ?I (snd (ex_noisy_square ops v))"
    using ex_noisy_square_frame order_trans by blast
  have b_gen: "\<forall>loss v. ?I v \<longrightarrow> ?I (snd (slot_engine ex_engine 1 loss v))"
    by (simp add: slot_engine_frame)
  have s_gen: "\<forall>td v. ?I v \<longrightarrow> ?I (v\<lparr>generator := snd (ex_sample td (generator v))\<rparr>)"
    by (simp add: ex_sample_def)
  have p_gen: "?I (prepare_in ex_seed [0] ex_world)" by (simp add: prepare_in_def ex_seed_def)
  have f_flag: "\<forall>ops v. (\<forall>a\<in>set [0]. requires_grad (objects v a)) \<longrightarrow>
                 (\<forall>a\<in>set [0]. requires_grad (objects (snd (ex_noisy_square ops v)) a))"
    by (simp add: ex_noisy_square_frame)
  have b_flag: "\<forall>loss v. (\<forall>a\<in>set [0]. requires_grad (objects v a)) \<longrightarrow>
                 (\<forall>a\<in>set [0]. requires_grad (objects (snd (slot_engine ex_engine 1 loss v)) a))"
    by (simp add: requires_grad_def slot_engine_frame)
  have ok: "fst ?run = Inr ()" using ex_noisy_run by simp
  note at_one = grad_check_in_prepares_and_leaves
         [where vals = "[0]" and seed = ex_seed and w = ex_world and f = ex_noisy_square
            and backward = "slot_engine ex_engine 1" and sample = ex_sample and I = ?I]
  note at_two = grad_check_in_prepares_and_leaves
         [where vals = "[0, 0]" and seed = ex_seed and w = ex_world and f = ex_noisy_square
            and backward = "slot_engine ex_engine 1" and sample = ex_sample and I = ?I]
  have "(\<forall>a\<in>set [0]. requires_grad (objects (prepare_in ex_seed [0] ex_world) a)
        \<and> grad (objects (prepare_in ex_seed [0] ex_world) a) = None)
      \<and> generator (prepare_in ex_seed [0] ex_world) = ex_seed 10"
    using at_one by blast
  then have prepared: "requires_grad (objects (prepare_in ex_seed [0] ex_world) 0)
      \<and> grad (objects (prepare_in ex_seed [0] ex_world) 0) = None
      \<and> generator (prepare_in ex_seed [0] ex_world) = 10"
    by (simp add: ex_seed_def)
  have raised: "grad_check_in ex_noisy_square (slot_engine ex_engine 1) ex_seed ex_sample [0, 0] ex_world =
       (Inl TypeError, prepare_in ex_seed [0, 0] ex_world)"
    using at_two raises by blast
  have gen: "10 \<le> generator (snd ?run)"
    using at_one f_gen b_gen s_gen p_gen by blast
  have "\<forall>a\<in>set [0]. requires_grad (objects (snd ?run) a)"
    using at_one f_flag b_flag by blast
  then have flag: "requires_grad (objects (snd ?run) 0)" by simp
  have "grad (objects (snd ?run) (last [0])) \<noteq> None"
    using at_one ok by blast
  then have slot: "grad (objects (snd ?run) 0) \<noteq> None" by simp
  from prepared raises raised ok gen flag slot show ?thesis by blast
qed

text \<open>
  The claim as stated fails for the gradient slot. For the square checked at 5, the
  slot of the argument is empty when \<open>f\<close> is evaluated, but after \<^verbatim>\<open>grad_check\<close> has
  returned it holds the gradient 10 that the backward pass left.
\<close>

theorem grad_slot_refilled_counterexample:
  "grad (objects (prepare_in ex_seed [0] ex_world) 0) = None
   \<and> fst (grad_check_in (pure_callable ex_square) (slot_engine ex_engine 1) ex_seed ex_sample [0]
          ex_world) = Inr ()
   \<and> grad (objects (snd (grad_check_in (pure_callable ex_square) (slot_engine ex_engine 1) ex_seed
          ex_sample [0] ex_world)) 0) = Some ex_grad10"
proof -
  have s: "\<lparr>args = map (objects ex_world) [0..<1], rng = generator ex_world\<rparr> =
      \<lparr>args = [ex_const5], rng = 77\<rparr>"
    by (simp add: ex_world_def)
  have "fst (grad_check_in (pure_callable ex_square) (slot_engine ex_engine 1) ex_seed ex_sample [0..<1]
          ex_world) = Inr ()
      \<and> map (objects (snd (grad_check_in (pure_callable ex_square) (slot_engine ex_engine 1) ex_seed
          ex_sample [0..<1] ex_world))) [0..<1] = [ex_checked5]"
    using grad_check_in_pure [of ex_square ex_engine 1 ex_seed ex_sample ex_world]
    unfolding s ex_grad_check_run by simp
  then show ?thesis
    using ex_store_prepared by (simp add: ex_checked5_def)
qed

end
